(* ===== verification/Vermont_Prelude.thy ===== *)
theory Vermont_Prelude
  imports Main "HOL-Library.Word"
begin

unbundle bit_operations_syntax

text \<open>
  Shared vocabulary of the development: the machine integer types of the
  sources, the result type of code that can go wrong, network byte order on byte lists,
  bounded reads and writes on a byte buffer, and the list lemmas the component proofs use.

  The collections: \<open>wire\<close> holds the facts on network byte order, \<open>res_simps\<close> the
  equations that run a fallible computation, \<open>res_dests\<close> the rules that open one.
\<close>

named_theorems wire
named_theorems res_simps
named_theorems res_dests

section \<open>Types of the sources\<close>

type_synonym byte = "8 word"
type_synonym u16 = "16 word"
type_synonym u32 = "32 word"
type_synonym u64 = "64 word"
type_synonym bytes = "byte list"

text \<open>
  What can go wrong in the C++ code without being one of its own error returns:
  a read or write outside of the object it is meant for, a loop that never ends, an operation
  that the language leaves undefined, and the exceptions raised by THROWEXCEPTION.
\<close>

datatype fault = OutOfBounds | HeapOverflow | Diverges | Undefined | Exception string

type_synonym 'a res = "fault + 'a"

definition res_bind :: "'a res \<Rightarrow> ('a \<Rightarrow> 'b res) \<Rightarrow> 'b res" where
  "res_bind r f = (case r of Inl e \<Rightarrow> Inl e | Inr x \<Rightarrow> f x)"

lemma res_bind_Inl [simp, res_simps]: "res_bind (Inl e) f = Inl e"
  by (simp add: res_bind_def)

lemma res_bind_Inr [simp, res_simps]: "res_bind (Inr x) f = f x"
  by (simp add: res_bind_def)

lemma res_bind_eq_Inr: "res_bind r f = Inr y \<longleftrightarrow> (\<exists>x. r = Inr x \<and> f x = Inr y)"
  by (cases r) auto

lemma res_bind_eq_Inl: "res_bind r f = Inl e \<longleftrightarrow> r = Inl e \<or> (\<exists>x. r = Inr x \<and> f x = Inl e)"
  by (cases r) auto

lemma res_bind_InrE [elim, res_dests]:
  assumes "res_bind r f = Inr y"
  obtains x where "r = Inr x" and "f x = Inr y"
  using assms by (auto simp: res_bind_eq_Inr)

text \<open>
  The second rule is for the \<open>function\<close> package; with the first one the simplifier
  runs a computation from left to right, and leaves alone what comes after a step until the
  step has a value.
\<close>

lemma res_bind_weak_cong: "r = r' \<Longrightarrow> res_bind r f = res_bind r' f"
  by simp

lemma res_bind_cong [fundef_cong]:
  "r = r' \<Longrightarrow> (\<And>x. r' = Inr x \<Longrightarrow> f x = g x) \<Longrightarrow> res_bind r f = res_bind r' g"
  by (cases r') auto

lemma res_bind_assoc:"res_bind (res_bind r f) g = res_bind r (\<lambda>x. res_bind (f x) g)"
  by (cases r) auto

text \<open>A computation that never faults; the safety properties are stated with it.\<close>

definition safe :: "'a res \<Rightarrow> bool" where
  "safe r \<longleftrightarrow> (\<exists>x. r = Inr x)"

lemma safe_Inr [simp, intro]: "safe (Inr x)"
  by (simp add: safe_def)

lemma safe_Inl [simp]: "\<not> safe (Inl e)"
  by (simp add: safe_def)

lemma safe_bindI:
  "safe r \<Longrightarrow> (\<And>x. r = Inr x \<Longrightarrow> safe (f x)) \<Longrightarrow> safe (res_bind r f)"
  by (cases r) auto

text \<open>
  The contract of a fallible computation: its faults satisfy \<open>E\<close> and its results
  \<open>Q\<close>.
\<close>

definition outcome :: "(fault \<Rightarrow> bool) \<Rightarrow> ('a \<Rightarrow> bool) \<Rightarrow> 'a res \<Rightarrow> bool" where
  "outcome E Q r = (case r of Inl e \<Rightarrow> E e | Inr x \<Rightarrow> Q x)"

lemma outcome_simps [simp]: "outcome E Q (Inl e) = E e" "outcome E Q (Inr x) = Q x"
  by (simp_all add: outcome_def)

lemma outcome_bind: "outcome E Q (res_bind r f) = outcome E (\<lambda>x. outcome E Q (f x)) r"
  by (cases r) simp_all

lemma outcome_mono:
  "outcome E Q r \<Longrightarrow> (\<And>e. E e \<Longrightarrow> E' e) \<Longrightarrow> (\<And>x. r = Inr x \<Longrightarrow> Q x \<Longrightarrow> Q' x) \<Longrightarrow> outcome E' Q' r"
  by (cases r) simp_all

lemma outcome_InrD: "outcome E Q r \<Longrightarrow> r = Inr x \<Longrightarrow> Q x"
  by simp

lemma outcome_InlD: "outcome E Q r \<Longrightarrow> r = Inl e \<Longrightarrow> E e"
  by simp

section \<open>Network byte order\<close>

text \<open>
  \<open>ntohs\<close> and \<open>ntohl\<close> of an integer read from memory, and the bytes that
  \<open>htons\<close> and \<open>htonl\<close> leave in memory: independent of the host's own order.
\<close>

definition ntohs_bytes :: "byte \<Rightarrow> byte \<Rightarrow> u16" where
  "ntohs_bytes a b = of_nat (256 * unat a + unat b)"

definition ntohl_bytes :: "byte \<Rightarrow> byte \<Rightarrow> byte \<Rightarrow> byte \<Rightarrow> u32" where
  "ntohl_bytes a b c d =
     of_nat (16777216 * unat a + 65536 * unat b + 256 * unat c + unat d)"

definition htons_bytes :: "u16 \<Rightarrow> bytes" where
  "htons_bytes w = [of_nat (unat w div 256), of_nat (unat w mod 256)]"

definition htonl_bytes :: "u32 \<Rightarrow> bytes" where
  "htonl_bytes w =
     [of_nat (unat w div 16777216), of_nat (unat w div 65536 mod 256),
      of_nat (unat w div 256 mod 256), of_nat (unat w mod 256)]"

lemma byte_lt: "unat (b :: byte) < 256"
  using unsigned_less [of b] by simp

lemma u16_lt: "unat (w :: u16) < 65536"
  using unsigned_less [of w] by simp

lemma u32_lt: "unat (w :: u32) < 4294967296"
  using unsigned_less [of w] by simp

lemma unat_of_nat_byte: "n < 256 \<Longrightarrow> unat (of_nat n :: byte) = n"
  by (simp add: unat_of_nat)

lemma unat_of_nat_u16: "n < 65536 \<Longrightarrow> unat (of_nat n :: u16) = n"
  by (simp add: unat_of_nat)

lemma unat_of_nat_u32: "n < 4294967296 \<Longrightarrow> unat (of_nat n :: u32) = n"
  by (simp add: unat_of_nat)

lemma base256_step:
  fixes n :: nat
  assumes "256 * q1 + r0 = n" and "256 * q2 + r1 = q1" and "256 * q3 + r2 = q2"
  shows "16777216 * q3 + 65536 * r2 + 256 * r1 + r0 = n"
  using assms by linarith

lemma base256_4:
  "16777216 * (n div 16777216) + 65536 * (n div 65536 mod 256) + 256 * (n div 256 mod 256)
     + n mod 256 = (n :: nat)"
proof -
  have *: "n div 256 div 256 = n div 65536" "n div 65536 div 256 = n div 16777216"
    using div_mult2_eq [of n 256 256] div_mult2_eq [of n 65536 256] by simp_all
  show ?thesis
    by (rule base256_step [of "n div 256" _ _ "n div 65536"])
      (simp_all only: * [symmetric] mult_div_mod_eq)
qed

lemma unat_ntohs_bytes: "unat (ntohs_bytes a b) = 256 * unat a + unat b"
proof -
  have "256 * unat a + unat b < 65536"
    using byte_lt [of a] byte_lt [of b] by linarith
  then show ?thesis
    unfolding ntohs_bytes_def by (rule unat_of_nat_u16)
qed

lemma length_htons_bytes [simp]: "length (htons_bytes w) = 2"
  by (simp add: htons_bytes_def)

lemma length_htonl_bytes [simp]: "length (htonl_bytes w) = 4"
  by (simp add: htonl_bytes_def)

lemma ntohs_htons [wire]:
  "htons_bytes w = [a, b] \<Longrightarrow> ntohs_bytes a b = w"
proof -
  assume eq: "htons_bytes w = [a, b]"
  have "unat w div 256 < 256" using u16_lt [of w] by simp
  then have "unat a = unat w div 256" "unat b = unat w mod 256"
    using eq by (auto simp: htons_bytes_def unat_of_nat_byte)
  then have "256 * unat a + unat b = unat w"
    by (simp only: mult_div_mod_eq)
  then show ?thesis
    by (simp only: ntohs_bytes_def of_nat_unat ucast_id)
qed

lemma ntohl_htonl [wire]:
  "htonl_bytes w = [a, b, c, d] \<Longrightarrow> ntohl_bytes a b c d = w"
proof -
  assume eq: "htonl_bytes w = [a, b, c, d]"
  have "unat w div 16777216 < 256" using u32_lt [of w] by simp
  then have "unat a = unat w div 16777216" "unat b = unat w div 65536 mod 256"
      "unat c = unat w div 256 mod 256" "unat d = unat w mod 256"
    using eq by (auto simp: htonl_bytes_def unat_of_nat_byte)
  then have "16777216 * unat a + 65536 * unat b + 256 * unat c + unat d = unat w"
    by (simp only: base256_4)
  then show ?thesis
    by (simp only: ntohl_bytes_def of_nat_unat ucast_id)
qed

section \<open>Reads and writes on a byte buffer\<close>

text \<open>
  Pointers into a buffer are offsets from its start. A read outside of the buffer is the
  fault \<open>OutOfBounds\<close>, so that memory safety is a property of the model.
\<close>

definition rd8 :: "bytes \<Rightarrow> nat \<Rightarrow> byte res" where
  "rd8 m i = (if i < length m then Inr (m ! i) else Inl OutOfBounds)"

definition rd16 :: "bytes \<Rightarrow> nat \<Rightarrow> u16 res" where
  "rd16 m i = (if i + 2 \<le> length m then Inr (ntohs_bytes (m ! i) (m ! (i + 1)))
               else Inl OutOfBounds)"

definition rd32 :: "bytes \<Rightarrow> nat \<Rightarrow> u32 res" where
  "rd32 m i = (if i + 4 \<le> length m
               then Inr (ntohl_bytes (m ! i) (m ! (i + 1)) (m ! (i + 2)) (m ! (i + 3)))
               else Inl OutOfBounds)"

text \<open>memcpy of \<open>bs\<close> to offset \<open>i\<close> of the buffer.\<close>

definition put_bytes :: "bytes \<Rightarrow> nat \<Rightarrow> bytes \<Rightarrow> bytes" where
  "put_bytes m i bs = take i m @ bs @ drop (i + length bs) m"

lemma rd8_ok: "i < length m \<Longrightarrow> rd8 m i = Inr (m ! i)"
  by (simp add: rd8_def)

lemma rd16_ok: "i + 2 \<le> length m \<Longrightarrow> \<exists>w. rd16 m i = Inr w"
  by (simp add: rd16_def)

lemma rd32_ok: "i + 4 \<le> length m \<Longrightarrow> \<exists>w. rd32 m i = Inr w"
  by (simp add: rd32_def)

lemma safe_rd8 [simp]: "i < length m \<Longrightarrow> safe (rd8 m i)"
  by (simp add: rd8_def)

lemma safe_rd16 [simp]: "i + 2 \<le> length m \<Longrightarrow> safe (rd16 m i)"
  by (simp add: rd16_def)

lemma safe_rd32 [simp]: "i + 4 \<le> length m \<Longrightarrow> safe (rd32 m i)"
  by (simp add: rd32_def)

lemma outcome_rd16: "i + 2 \<le> length m \<Longrightarrow> (\<And>w. rd16 m i = Inr w \<Longrightarrow> Q w) \<Longrightarrow> outcome E Q (rd16 m i)"
  by (simp add: rd16_def)

lemma outcome_rd32: "i + 4 \<le> length m \<Longrightarrow> (\<And>w. rd32 m i = Inr w \<Longrightarrow> Q w) \<Longrightarrow> outcome E Q (rd32 m i)"
  by (simp add: rd32_def)

lemma outcome_rd8: "i < length m \<Longrightarrow> (\<And>w. rd8 m i = Inr w \<Longrightarrow> Q w) \<Longrightarrow> outcome E Q (rd8 m i)"
  by (simp add: rd8_def)

lemma length_put_bytes [simp]:
  "i + length bs \<le> length m \<Longrightarrow> length (put_bytes m i bs) = length m"
  by (simp add: put_bytes_def)

lemma rd16_at [wire]: "rd16 (xs @ htons_bytes w @ ys) (length xs) = Inr w"
proof -
  obtain a b where ab: "htons_bytes w = [a, b]" by (simp add: htons_bytes_def)
  then show ?thesis
    by (simp add: rd16_def nth_append ntohs_htons [OF ab])
qed

lemma rd32_at [wire]: "rd32 (xs @ htonl_bytes w @ ys) (length xs) = Inr w"
proof -
  obtain a b c d where ab: "htonl_bytes w = [a, b, c, d]" by (simp add: htonl_bytes_def)
  then show ?thesis
    by (simp add: rd32_def nth_append ntohl_htonl [OF ab])
qed

lemma rd8_at [wire]: "rd8 (xs @ b # ys) (length xs) = Inr b"
  by (simp add: rd8_def)

text \<open>Reading depends only on the suffix that starts at the offset.\<close>

lemma rd16_shift: "rd16 (xs @ ys) (length xs + i) = rd16 ys i"
  by (simp add: rd16_def nth_append)

lemma rd32_shift: "rd32 (xs @ ys) (length xs + i) = rd32 ys i"
  by (simp add: rd32_def nth_append)

lemma rd8_shift: "rd8 (xs @ ys) (length xs + i) = rd8 ys i"
  by (simp add: rd8_def nth_append)

end
