(* ===== verification/Encoding.thy ===== *)
theory Encoding
  imports Vermont_Prelude
begin

text \<open>
  The byte encoding layer of ipfixlolib (src/src/common/ipfixlolib/encoding.c). A cursor
  \<open>char **p_pos\<close> with its limit \<open>char *p_end\<close> is a pair of offsets into the buffer
  it points into. A write returns the C return value, the buffer and the new cursor; a
  write that passes the check against \<open>p_end\<close> but not the size of the buffer is the
  fault \<open>HeapOverflow\<close>, a read outside of the buffer is \<open>OutOfBounds\<close>. The host is
  little endian where the code depends on it (the 128 bit swap, the extension bit).

  The locale \<open>codec\<close> states what a writer and a reader of one fixed width promise each
  other; it is interpreted for the octet, 16, 32 and 64 bit functions.
\<close>

section \<open>Byte strings of an integer\<close>

fun nat_bytes_le :: "nat \<Rightarrow> nat \<Rightarrow> bytes" where
  "nat_bytes_le 0 n = []"
| "nat_bytes_le (Suc k) n = of_nat (n mod 256) # nat_bytes_le k (n div 256)"

fun bytes_nat_le :: "bytes \<Rightarrow> nat" where
  "bytes_nat_le [] = 0"
| "bytes_nat_le (b # bs) = unat b + 256 * bytes_nat_le bs"

lemma length_nat_bytes_le [simp]: "length (nat_bytes_le k n) = k"
  by (induction k arbitrary: n) auto

lemma bytes_nat_le_bytes: "bytes_nat_le (nat_bytes_le k n) = n mod 256 ^ k"
proof (induction k arbitrary: n)
  case 0
  then show ?case by simp
next
  case (Suc k)
  have "n mod 256 ^ Suc k = 256 * (n div 256 mod 256 ^ k) + n mod 256"
    by (simp only: power_Suc mod_mult2_eq)
  then show ?case
    using Suc.IH [of "n div 256"] by (simp add: unat_of_nat_byte)
qed

lemma bytes_nat_le_lt: "bytes_nat_le bs < 256 ^ length bs"
proof (induction bs)
  case Nil
  then show ?case by simp
next
  case (Cons b bs)
  then have "bytes_nat_le bs + 1 \<le> 256 ^ length bs" by simp
  then have "256 * bytes_nat_le bs + 256 \<le> 256 * 256 ^ length bs" by linarith
  then show ?case using byte_lt [of b] by simp
qed

lemma nat_bytes_le_nat: "nat_bytes_le (length bs) (bytes_nat_le bs) = bs"
proof (induction bs)
  case Nil
  then show ?case by simp
next
  case (Cons b bs)
  have "(unat b + 256 * bytes_nat_le bs) mod 256 = unat b"
      "(unat b + 256 * bytes_nat_le bs) div 256 = bytes_nat_le bs"
    using byte_lt [of b] by simp_all
  then show ?case using Cons.IH by simp
qed

text \<open>The memory image of a 64 bit integer in network byte order, and its value.\<close>

definition htonll_bytes :: "u64 \<Rightarrow> bytes" where
  "htonll_bytes w = rev (nat_bytes_le 8 (unat w))"

definition ntohll_bytes :: "bytes \<Rightarrow> u64" where
  "ntohll_bytes bs = of_nat (bytes_nat_le (rev bs))"

lemma length_htonll_bytes [simp]: "length (htonll_bytes w) = 8"
  by (simp add: htonll_bytes_def)

lemma ntohll_htonll [wire]: "ntohll_bytes (htonll_bytes w) = w"
proof -
  have "unat w < 256 ^ 8" using unsigned_less [of w, where ?'a = nat] by simp
  then have "bytes_nat_le (nat_bytes_le 8 (unat w)) = unat w"
    by (simp only: bytes_nat_le_bytes mod_less)
  then show ?thesis
    by (simp only: ntohll_bytes_def htonll_bytes_def rev_rev_ident of_nat_unat ucast_id)
qed

section \<open>Byte swaps\<close>

text \<open>\<open>htobe64\<close> and \<open>be64toh\<close> of a little endian host.\<close>

definition be64 :: "u64 \<Rightarrow> u64" where
  "be64 w = of_nat (bytes_nat_le (rev (nat_bytes_le 8 (unat w))))"

definition htonll :: "u64 \<Rightarrow> u64" where
  "htonll number = be64 number"

definition ntohll :: "u64 \<Rightarrow> u64" where
  "ntohll number = be64 number"

text \<open>A 128 bit integer as its two 64 bit halves \<open>q[0]\<close>, \<open>q[1]\<close>.\<close>

definition be128toh :: "u64 \<times> u64 \<Rightarrow> u64 \<times> u64" where
  "be128toh u1 = (be64 (snd u1), be64 (fst u1))"

definition h128tobe :: "u64 \<times> u64 \<Rightarrow> u64 \<times> u64" where
  "h128tobe u1 = (be64 (snd u1), be64 (fst u1))"

lemma unat_be64: "unat (be64 w) = bytes_nat_le (rev (nat_bytes_le 8 (unat w)))"
proof -
  have "bytes_nat_le (rev (nat_bytes_le 8 (unat w))) < 2 ^ LENGTH(64)"
    using bytes_nat_le_lt [of "rev (nat_bytes_le 8 (unat w))"] by simp
  then show ?thesis
    unfolding be64_def unat_of_nat by (rule mod_less)
qed

lemma be64_involution [simp]: "be64 (be64 w) = w"
proof -
  let ?bs = "rev (nat_bytes_le 8 (unat w))"
  have "nat_bytes_le 8 (bytes_nat_le ?bs) = ?bs"
    using nat_bytes_le_nat [of ?bs] by simp
  then have "be64 (be64 w) = of_nat (bytes_nat_le (nat_bytes_le 8 (unat w)))"
    by (simp only: be64_def [of "be64 w"] unat_be64 rev_rev_ident)
  also have "\<dots> = w"
    using ntohll_htonll [of w] by (simp only: ntohll_bytes_def htonll_bytes_def rev_rev_ident)
  finally show ?thesis .
qed

section \<open>Writers\<close>

definition write_octet :: "bytes \<Rightarrow> nat \<Rightarrow> nat \<Rightarrow> byte \<Rightarrow> (int \<times> bytes \<times> nat) res" where
  "write_octet m p_pos p_end n =
     (if p_end < p_pos + 1 then Inr (-1, m, p_pos)
      else if length m < p_pos + 1 then Inl HeapOverflow
      else Inr (0, put_bytes m p_pos [n], p_pos + 1))"

definition write_unsigned16 :: "bytes \<Rightarrow> nat \<Rightarrow> nat \<Rightarrow> u16 \<Rightarrow> (int \<times> bytes \<times> nat) res" where
  "write_unsigned16 m p_pos p_end n =
     (if p_end < p_pos + 2 then Inr (-1, m, p_pos)
      else if length m < p_pos + 2 then Inl HeapOverflow
      else Inr (0, put_bytes m p_pos (htons_bytes n), p_pos + 2))"

definition write_unsigned32 :: "bytes \<Rightarrow> nat \<Rightarrow> nat \<Rightarrow> u32 \<Rightarrow> (int \<times> bytes \<times> nat) res" where
  "write_unsigned32 m p_pos p_end n =
     (if p_end < p_pos + 4 then Inr (-1, m, p_pos)
      else if length m < p_pos + 4 then Inl HeapOverflow
      else Inr (0, put_bytes m p_pos (htonl_bytes n), p_pos + 4))"

definition write_ipv4Address :: "bytes \<Rightarrow> nat \<Rightarrow> nat \<Rightarrow> u32 \<Rightarrow> (int \<times> bytes \<times> nat) res" where
  "write_ipv4Address m p_pos p_end n = write_unsigned32 m p_pos p_end n"

definition write_unsigned64 :: "bytes \<Rightarrow> nat \<Rightarrow> nat \<Rightarrow> u64 \<Rightarrow> (int \<times> bytes \<times> nat) res" where
  "write_unsigned64 m p_pos p_end n =
     (if p_end < p_pos + 8 then Inr (-1, m, p_pos)
      else if length m < p_pos + 8 then Inl HeapOverflow
      else Inr (0, put_bytes m p_pos (htonll_bytes n), p_pos + 8))"

text \<open>
  A float is its four bytes in host order. The code stores them in reverse at
  \<open>*p_base\<close> and leaves the cursor where it is.
\<close>

definition write_float32 :: "bytes \<Rightarrow> nat \<Rightarrow> nat \<Rightarrow> byte \<times> byte \<times> byte \<times> byte
    \<Rightarrow> (int \<times> bytes \<times> nat) res" where
  "write_float32 m p_base p_end f =
     (if p_end < p_base + 4 then Inr (-1, m, p_base)
      else if length m < p_base + 4 then Inl HeapOverflow
      else (case f of (f0, f1, f2, f3) \<Rightarrow>
              Inr (0, put_bytes m p_base [f3, f2, f1, f0], p_base)))"

definition write_boolean :: "bytes \<Rightarrow> nat \<Rightarrow> nat \<Rightarrow> byte \<Rightarrow> (int \<times> bytes \<times> nat) res" where
  "write_boolean m p_pos p_end b = write_octet m p_pos p_end b"

definition write_extension_and_fieldID ::
  "bytes \<Rightarrow> nat \<Rightarrow> nat \<Rightarrow> u16 \<Rightarrow> (int \<times> bytes \<times> nat) res" where
  "write_extension_and_fieldID m p_pos p_end fieldID =
     (if p_end < p_pos + 2 then Inr (-1, m, p_pos)
      else if length m < p_pos + 2 then Inl HeapOverflow
      else Inr (0, put_bytes m p_pos (htons_bytes fieldID), p_pos + 2))"

section \<open>Readers\<close>

text \<open>Each returns \<open>-1\<close> cast to its own width, and an unmoved cursor, at the limit.\<close>

definition read_octet :: "bytes \<Rightarrow> nat \<Rightarrow> nat \<Rightarrow> (byte \<times> nat) res" where
  "read_octet m p_pos p_end =
     (if p_end < p_pos + 1 then Inr (-1, p_pos)
      else res_bind (rd8 m p_pos) (\<lambda>n. Inr (n, p_pos + 1)))"

definition read_unsigned16 :: "bytes \<Rightarrow> nat \<Rightarrow> nat \<Rightarrow> (u16 \<times> nat) res" where
  "read_unsigned16 m p_pos p_end =
     (if p_end < p_pos + 2 then Inr (-1, p_pos)
      else res_bind (rd16 m p_pos) (\<lambda>n. Inr (n, p_pos + 2)))"

definition read_unsigned32 :: "bytes \<Rightarrow> nat \<Rightarrow> nat \<Rightarrow> (u32 \<times> nat) res" where
  "read_unsigned32 m p_pos p_end =
     (if p_end < p_pos + 4 then Inr (-1, p_pos)
      else res_bind (rd32 m p_pos) (\<lambda>n. Inr (n, p_pos + 4)))"

definition read_ipv4Address :: "bytes \<Rightarrow> nat \<Rightarrow> nat \<Rightarrow> (u32 \<times> nat) res" where
  "read_ipv4Address m p_pos p_end = read_unsigned32 m p_pos p_end"

definition read_unsigned64 :: "bytes \<Rightarrow> nat \<Rightarrow> nat \<Rightarrow> (u64 \<times> nat) res" where
  "read_unsigned64 m p_pos p_end =
     (if p_end < p_pos + 8 then Inr (-1, p_pos)
      else if length m < p_pos + 8 then Inl OutOfBounds
      else Inr (ntohll_bytes (take 8 (drop p_pos m)), p_pos + 8))"

text \<open>
  On failure the C function returns the float \<open>-1\<close>, whose bytes in host order are
  00 00 80 BF. The cursor never moves.
\<close>

definition read_float32 :: "bytes \<Rightarrow> nat \<Rightarrow> nat
    \<Rightarrow> ((byte \<times> byte \<times> byte \<times> byte) \<times> nat) res" where
  "read_float32 m p_base p_end =
     (if p_end < p_base + 4 then Inr ((0, 0, 0x80, 0xBF), p_base)
      else if length m < p_base + 4 then Inl OutOfBounds
      else Inr ((m ! (p_base + 3), m ! (p_base + 2), m ! (p_base + 1), m ! p_base), p_base))"

text \<open>
  \<open>read_octet_array\<close> copies \<open>data_length\<close> octets without a check against
  \<open>p_end\<close>, and its last statement \<open>p_pos += data_length\<close> moves the local copy of the
  argument, not the caller's cursor. The result is the length, the octets copied to
  \<open>p_output\<close> and the caller's cursor.
\<close>

definition read_octet_array :: "bytes \<Rightarrow> nat \<Rightarrow> nat \<Rightarrow> (nat \<times> bytes \<times> nat) res" where
  "read_octet_array m p_pos p_end =
     res_bind (read_octet m p_pos p_end) (\<lambda>(first_len, p1).
     res_bind (if unat first_len < 255 then Inr (unat first_len, p1)
               else res_bind (read_unsigned16 m p1 p_end) (\<lambda>(l, p2). Inr (unat l, p2)))
       (\<lambda>(data_length, p).
          if length m < p + data_length then Inl OutOfBounds
          else Inr (data_length, take data_length (drop p m), p)))"

definition VENDOR_SPECIFIC :: int where "VENDOR_SPECIFIC = 1"
definition NOT_VENDOR_SPECIFIC :: int where "NOT_VENDOR_SPECIFIC = 2"

text \<open>
  The two bytes are read as a host integer and not converted, before the cursor is
  checked: on a little endian host bit 15 is the top bit of the second byte.
\<close>

definition read_extension_bit :: "bytes \<Rightarrow> nat \<Rightarrow> nat \<Rightarrow> int res" where
  "read_extension_bit m p_pos p_end =
     res_bind (rd8 m p_pos) (\<lambda>lo. res_bind (rd8 m (p_pos + 1)) (\<lambda>hi.
       if p_end < p_pos + 2 then Inr (-1)
       else if (ntohs_bytes hi lo AND 0x8000) > 0 then Inr VENDOR_SPECIFIC
       else Inr NOT_VENDOR_SPECIFIC))"

definition read_fieldID :: "bytes \<Rightarrow> nat \<Rightarrow> nat \<Rightarrow> (u16 \<times> nat) res" where
  "read_fieldID m p_pos p_end =
     (if p_end < p_pos + 2 then Inr (-1, p_pos)
      else res_bind (rd16 m p_pos) (\<lambda>n. Inr (n, p_pos + 2)))"

section \<open>The contract of a fixed width codec\<close>

text \<open>A run of writes with one cursor, as the callers of the library do it.\<close>

fun write_seq :: "(bytes \<Rightarrow> nat \<Rightarrow> nat \<Rightarrow> 'v \<Rightarrow> (int \<times> bytes \<times> nat) res)
    \<Rightarrow> bytes \<Rightarrow> nat \<Rightarrow> nat \<Rightarrow> 'v list \<Rightarrow> (bytes \<times> nat) res" where
  "write_seq wr m p e [] = Inr (m, p)"
| "write_seq wr m p e (v # vs) =
     res_bind (wr m p e v) (\<lambda>(r, m', p'). write_seq wr m' p' e vs)"

fun read_seq :: "(bytes \<Rightarrow> nat \<Rightarrow> nat \<Rightarrow> ('v \<times> nat) res)
    \<Rightarrow> bytes \<Rightarrow> nat \<Rightarrow> nat \<Rightarrow> nat \<Rightarrow> ('v list \<times> nat) res" where
  "read_seq rd m p e 0 = Inr ([], p)"
| "read_seq rd m p e (Suc k) =
     res_bind (rd m p e) (\<lambda>(v, p').
       res_bind (read_seq rd m p' e k) (\<lambda>(vs, p''). Inr (v # vs, p'')))"

locale codec =
  fixes width :: nat
    and enc :: "'v \<Rightarrow> bytes"
    and wr :: "bytes \<Rightarrow> nat \<Rightarrow> nat \<Rightarrow> 'v \<Rightarrow> (int \<times> bytes \<times> nat) res"
    and rd :: "bytes \<Rightarrow> nat \<Rightarrow> nat \<Rightarrow> ('v \<times> nat) res"
  assumes length_enc: "length (enc v) = width"
    and wr_ok: "p + width \<le> e \<Longrightarrow> e \<le> length m \<Longrightarrow>
      wr m p e v = Inr (0, put_bytes m p (enc v), p + width)"
    and wr_full: "e < p + width \<Longrightarrow> wr m p e v = Inr (-1, m, p)"
    and rd_at: "length xs + width \<le> e \<Longrightarrow>
      rd (xs @ enc v @ ys) (length xs) e = Inr (v, length xs + width)"
begin

lemma write_seq_bytes:
  assumes "p + width * length vs \<le> e" and "e \<le> length m"
  shows "write_seq wr m p e vs =
    Inr (put_bytes m p (concat (map enc vs)), p + width * length vs)"
  using assms
proof (induction vs arbitrary: m p)
  case Nil
  then show ?case by (simp add: put_bytes_def)
next
  case (Cons v vs)
  have "put_bytes (put_bytes m p (enc v)) (p + width) (concat (map enc vs)) =
      put_bytes m p (enc v @ concat (map enc vs))"
    using Cons.prems by (simp add: put_bytes_def length_enc ac_simps)
  moreover have "length (put_bytes m p (enc v)) = length m"
    using Cons.prems by (simp add: length_enc)
  ultimately show ?case
    using Cons.prems Cons.IH [of "p + width" "put_bytes m p (enc v)"]
    by (simp add: wr_ok)
qed

lemma read_seq_bytes:
  assumes "length xs + width * length vs \<le> e"
  shows "read_seq rd (xs @ concat (map enc vs) @ ys) (length xs) e (length vs) =
    Inr (vs, length xs + width * length vs)"
  using assms
proof (induction vs arbitrary: xs)
  case Nil
  then show ?case by simp
next
  case (Cons v vs)
  have "read_seq rd ((xs @ enc v) @ concat (map enc vs) @ ys) (length (xs @ enc v)) e (length vs)
      = Inr (vs, length (xs @ enc v) + width * length vs)"
    using Cons.prems by (intro Cons.IH) (simp add: length_enc)
  moreover have "rd (xs @ enc v @ concat (map enc vs) @ ys) (length xs) e =
      Inr (v, length xs + width)"
    using Cons.prems by (intro rd_at) simp
  ultimately show ?case
    by (simp add: length_enc)
qed

lemma write_read_seq:
  assumes "p + width * length vs \<le> e" and "e \<le> length m"
  shows "res_bind (write_seq wr m p e vs) (\<lambda>(m', p'). read_seq rd m' p e (length vs)) =
    Inr (vs, p + width * length vs)"
proof -
  have len: "length (concat (map enc vs)) = width * length vs"
    by (induction vs) (simp_all add: length_enc)
  have "length (take p m) = p" using assms by simp
  then show ?thesis
    using read_seq_bytes [of "take p m" vs e "drop (p + width * length vs) m"] assms
    by (simp add: write_seq_bytes put_bytes_def len)
qed

end

interpretation octet: codec 1 "\<lambda>v. [v]" write_octet read_octet
proof unfold_locales
  fix xs ys :: bytes and e and v :: byte
  assume "length xs + 1 \<le> e"
  then show "read_octet (xs @ [v] @ ys) (length xs) e = Inr (v, length xs + 1)"
    by (simp add: read_octet_def rd8_at)
qed (auto simp: write_octet_def)

interpretation unsigned16: codec 2 htons_bytes write_unsigned16 read_unsigned16
proof unfold_locales
  fix xs ys :: bytes and e v
  assume "length xs + 2 \<le> e"
  then show "read_unsigned16 (xs @ htons_bytes v @ ys) (length xs) e = Inr (v, length xs + 2)"
    by (simp add: read_unsigned16_def rd16_at)
qed (auto simp: write_unsigned16_def)

interpretation unsigned32: codec 4 htonl_bytes write_unsigned32 read_unsigned32
proof unfold_locales
  fix xs ys :: bytes and e v
  assume "length xs + 4 \<le> e"
  then show "read_unsigned32 (xs @ htonl_bytes v @ ys) (length xs) e = Inr (v, length xs + 4)"
    by (simp add: read_unsigned32_def rd32_at)
qed (auto simp: write_unsigned32_def)

interpretation unsigned64: codec 8 htonll_bytes write_unsigned64 read_unsigned64
proof unfold_locales
  fix xs ys :: bytes and e v
  assume "length xs + 8 \<le> e"
  then show "read_unsigned64 (xs @ htonll_bytes v @ ys) (length xs) e = Inr (v, length xs + 8)"
    by (simp add: read_unsigned64_def ntohll_htonll)
qed (auto simp: write_unsigned64_def)

interpretation fieldID: codec 2 htons_bytes write_extension_and_fieldID read_fieldID
proof unfold_locales
  fix xs ys :: bytes and e v
  assume "length xs + 2 \<le> e"
  then show "read_fieldID (xs @ htons_bytes v @ ys) (length xs) e = Inr (v, length xs + 2)"
    by (simp add: read_fieldID_def rd16_at)
qed (auto simp: write_extension_and_fieldID_def)

section \<open>Properties\<close>

text \<open>
  C22: any number of 32-bit and of 64-bit values, written one after the other with the
  writers of the library into a buffer with room for them, are read back by its readers
  with the same values, both cursors ending behind the last value; a writer without room
  returns -1 and changes neither the buffer nor the cursor.
\<close>

theorem unsigned_write_read:
  assumes "p + 4 * length vs \<le> e" and "q + 8 * length ws \<le> e" and "e \<le> length m"
  shows "res_bind (write_seq write_unsigned32 m p e vs) (\<lambda>(m', p'). read_seq read_unsigned32 m' p e (length vs)) =
      Inr (vs, p + 4 * length vs) \<and>
    res_bind (write_seq write_unsigned64 m q e ws) (\<lambda>(m', p'). read_seq read_unsigned64 m' q e (length ws)) =
      Inr (ws, q + 8 * length ws) \<and>
    (\<forall>r v w. (e < r + 4 \<longrightarrow> write_unsigned32 m r e v = Inr (-1, m, r)) \<and>
       (e < r + 8 \<longrightarrow> write_unsigned64 m r e w = Inr (-1, m, r)))"
  using assms
  by (simp add: unsigned32.write_read_seq unsigned64.write_read_seq unsigned32.wr_full unsigned64.wr_full)

theorem unsigned_write_read_witness:
  "res_bind (write_seq write_unsigned32 (replicate 10 0) 1 10 [7, 0xFFFFFFFF])
     (\<lambda>(m', p'). read_seq read_unsigned32 m' 1 10 2) = Inr ([7, 0xFFFFFFFF], 9)"
  using unsigned_write_read [of 1 "[7, 0xFFFFFFFF]" 10 1 "[5]" "replicate 10 0"]
  by (simp add: numeral_2_eq_2)

end
