(* ===== verification/Exporter_Buffer.thy ===== *)
theory Exporter_Buffer
  imports Encoding
begin

text \<open>
  The send buffers of the exporter library (src/src/common/ipfixlolib/ipfixlolib.h and
  ipfixlolib.c): an IPFIX or NetFlow v9 message under construction as an array of iovecs,
  and the calls that add Data Sets to it.

  A pointer in an iovec is what it points to: the message header or an entry of the set
  header store of the same buffer, a template of the exporter, or application memory. The
  contents of application memory are given with the pointer, as the library requires that
  they stay in place until the message is sent. Fields that the code keeps in network byte
  order are represented by their value; the bytes appear when a buffer is serialised. A write
  beyond the iovec array is the fault \<open>HeapOverflow\<close>, a read beyond the memory an
  iovec points to, or of freed memory, the fault \<open>OutOfBounds\<close>.
\<close>

section \<open>Data structures\<close>

datatype export_protocol_version = NFV9_PROTOCOL | IPFIX_PROTOCOL

fun protocol_number :: "export_protocol_version \<Rightarrow> u16" where
  "protocol_number NFV9_PROTOCOL = 9"
| "protocol_number IPFIX_PROTOCOL = 10"

definition HEADER_USED_IOVEC_COUNT :: nat where "HEADER_USED_IOVEC_COUNT = 1"
definition IPFIX_MAX_SETS_PER_PACKET :: nat where "IPFIX_MAX_SETS_PER_PACKET = 128"
definition IPFIX_MAX_SENDBUFSIZE :: nat where "IPFIX_MAX_SENDBUFSIZE = 32 * 1024"
definition IPFIX_MTU_MAX :: nat where "IPFIX_MTU_MAX = 65535"

record ipfix_header =
  ih_version :: u16
  ih_length :: u16
  export_time :: u32
  ih_sequence_number :: u32
  ih_observation_domain_id :: u32

record nfv9_header =
  nh_version :: u16
  nh_count :: u16
  nh_sysUpTime :: u32
  unix_secs :: u32
  nh_sequence_number :: u32
  nh_source_id :: u32

record ipfix_set_header =
  set_hdr_id :: u16
  set_hdr_length :: u16

datatype iov_base = IovNull | IovHeader | IovSetHeader nat | IovData bytes | IovTemplate nat

record iovec =
  iov_base :: iov_base
  iov_len :: nat

record ipfix_set_manager =
  set_counter :: nat
  set_header_store :: "nat \<Rightarrow> ipfix_set_header"
  data_length :: u32

record ipfix_sendbuffer =
  entries :: "nat \<Rightarrow> iovec"
  current :: nat
  committed :: nat
  marker :: nat
  committed_data_length :: u32
  ipfix_message_header :: ipfix_header
  nfv9_message_header :: nfv9_header
  record_count :: u32
  set_manager :: ipfix_set_manager

definition zero_ipfix_header :: ipfix_header where
  "zero_ipfix_header = \<lparr>ih_version = 0, ih_length = 0, export_time = 0, ih_sequence_number = 0,
     ih_observation_domain_id = 0\<rparr>"

definition zero_nfv9_header :: nfv9_header where
  "zero_nfv9_header = \<lparr>nh_version = 0, nh_count = 0, nh_sysUpTime = 0, unix_secs = 0,
     nh_sequence_number = 0, nh_source_id = 0\<rparr>"

definition zero_set_header :: ipfix_set_header where
  "zero_set_header = \<lparr>set_hdr_id = 0, set_hdr_length = 0\<rparr>"

definition zero_set_manager :: ipfix_set_manager where
  "zero_set_manager = \<lparr>set_counter = 0, set_header_store = (\<lambda>_. zero_set_header), data_length = 0\<rparr>"

text \<open>\<open>sizeof(ipfix_header)\<close> and \<open>sizeof(nfv9_header)\<close>.\<close>

fun sizeof_header :: "export_protocol_version \<Rightarrow> nat" where
  "sizeof_header IPFIX_PROTOCOL = 16"
| "sizeof_header NFV9_PROTOCOL = 20"

definition sizeof_set_header :: nat where "sizeof_set_header = 4"

text \<open>The memory of a new buffer is what malloc returns, \<open>old\<close>; allocation succeeds.\<close>

definition ipfix_init_sendbuffer :: "ipfix_sendbuffer \<Rightarrow> export_protocol_version \<Rightarrow> ipfix_sendbuffer" where
  "ipfix_init_sendbuffer old p =
     (let b = old\<lparr>current := HEADER_USED_IOVEC_COUNT, committed := HEADER_USED_IOVEC_COUNT,
                  marker := HEADER_USED_IOVEC_COUNT, committed_data_length := 0, record_count := 0,
                  entries := (entries old)(0 := \<lparr>iov_base = IovHeader, iov_len = sizeof_header p\<rparr>),
                  set_manager := zero_set_manager\<rparr>
      in (case p of
            NFV9_PROTOCOL \<Rightarrow> b\<lparr>nfv9_message_header := zero_nfv9_header\<rparr>
          | IPFIX_PROTOCOL \<Rightarrow> b\<lparr>ipfix_message_header := zero_ipfix_header\<rparr>))"

definition ipfix_reset_sendbuffer :: "ipfix_sendbuffer \<Rightarrow> ipfix_sendbuffer" where
  "ipfix_reset_sendbuffer b =
     b\<lparr>current := HEADER_USED_IOVEC_COUNT, committed := HEADER_USED_IOVEC_COUNT,
       marker := HEADER_USED_IOVEC_COUNT, committed_data_length := 0, record_count := 0,
       ipfix_message_header := zero_ipfix_header, nfv9_message_header := zero_nfv9_header,
       set_manager := zero_set_manager\<rparr>"

section \<open>Data Sets\<close>

definition put_entry :: "nat \<Rightarrow> iovec \<Rightarrow> ipfix_sendbuffer \<Rightarrow> ipfix_sendbuffer res" where
  "put_entry i e b =
     (if i < IPFIX_MAX_SENDBUFSIZE then Inr (b\<lparr>entries := (entries b)(i := e)\<rparr>)
      else Inl HeapOverflow)"

definition put_set_header :: "nat \<Rightarrow> (ipfix_set_header \<Rightarrow> ipfix_set_header) \<Rightarrow> ipfix_sendbuffer
    \<Rightarrow> ipfix_sendbuffer res" where
  "put_set_header i f b =
     (if i < IPFIX_MAX_SETS_PER_PACKET
      then Inr (b\<lparr>set_manager := (set_manager b)\<lparr>set_header_store :=
              (set_header_store (set_manager b))(i := f (set_header_store (set_manager b) i))\<rparr>\<rparr>)
      else Inl HeapOverflow)"

definition ipfix_start_data_set :: "u16 \<Rightarrow> ipfix_sendbuffer \<Rightarrow> (int \<times> ipfix_sendbuffer) res" where
  "ipfix_start_data_set template_id b =
     (let cur = set_counter (set_manager b) in
      if current b \<noteq> committed b then Inr (-1, b)
      else if current b \<ge> IPFIX_MAX_SENDBUFSIZE - 1 then Inr (-1, b)
      else if cur + 1 \<ge> IPFIX_MAX_SETS_PER_PACKET then Inr (-1, b)
      else res_bind (put_set_header cur (\<lambda>h. h\<lparr>set_hdr_id := template_id\<rparr>) b) (\<lambda>b1.
        res_bind (put_entry (current b1) \<lparr>iov_base = IovSetHeader cur, iov_len = sizeof_set_header\<rparr> b1)
          (\<lambda>b2. let b3 = b2\<lparr>current := current b2 + 1\<rparr> in
            Inr (0, b3\<lparr>marker := current b3,
                       set_manager := (set_manager b3)\<lparr>data_length := 0\<rparr>\<rparr>))))"

definition ipfix_get_remaining_space :: "u16 \<Rightarrow> ipfix_sendbuffer \<Rightarrow> u16" where
  "ipfix_get_remaining_space max_message_size b =
     (let space = (ucast max_message_size - 16 - committed_data_length b :: u32);
          space1 = (if current b \<noteq> committed b
                    then space - of_nat sizeof_set_header - data_length (set_manager b)
                    else space);
          space2 = (if sint space1 < 0 then 0 else space1);
          space3 = (if sint space2 > int IPFIX_MTU_MAX then of_nat IPFIX_MTU_MAX else space2)
      in ucast space3)"

text \<open>\<open>dat\<close> is the memory from the pointer on, \<open>n\<close> the length passed.\<close>

definition ipfix_put_data_field :: "bytes \<Rightarrow> u32 \<Rightarrow> ipfix_sendbuffer \<Rightarrow> (int \<times> ipfix_sendbuffer) res" where
  "ipfix_put_data_field dat n b =
     (if current b = committed b then Inr (-1, b)
      else if current b \<ge> IPFIX_MAX_SENDBUFSIZE then Inr (-1, b)
      else res_bind (put_entry (current b) \<lparr>iov_base = IovData dat, iov_len = unat n\<rparr> b) (\<lambda>b1.
        Inr (0, b1\<lparr>current := current b1 + 1,
                   set_manager := (set_manager b1)\<lparr>data_length := data_length (set_manager b1) + n\<rparr>\<rparr>)))"

text \<open>The set length is stored in 16 bits. The result includes the increment of \<open>sn_increment\<close>.\<close>

definition ipfix_end_data_set :: "u16 \<Rightarrow> u32 \<Rightarrow> ipfix_sendbuffer \<Rightarrow> (int \<times> u32 \<times> ipfix_sendbuffer) res" where
  "ipfix_end_data_set number_of_records sn_inc b =
     (let cur = set_counter (set_manager b) in
      if current b = committed b then Inr (-1, sn_inc, b)
      else if cur + 1 \<ge> IPFIX_MAX_SETS_PER_PACKET then Inr (-1, sn_inc, b)
      else let record_length = (ucast (data_length (set_manager b) + of_nat sizeof_set_header) :: u16) in
        res_bind (put_set_header cur (\<lambda>h. h\<lparr>set_hdr_length := record_length\<rparr>) b) (\<lambda>b1.
          Inr (0, sn_inc + ucast number_of_records,
               b1\<lparr>committed_data_length := committed_data_length b1 + ucast record_length,
                  record_count := record_count b1 + ucast number_of_records,
                  set_manager := (set_manager b1)\<lparr>set_counter := set_counter (set_manager b1) + 1\<rparr>,
                  committed := current b1, marker := current b1\<rparr>)))"

text \<open>The clean-up loops over the entries from \<open>i\<close> to \<open>k\<close>.\<close>

definition null_iovec :: iovec where "null_iovec = \<lparr>iov_base = IovNull, iov_len = 0\<rparr>"

fun clear_entries :: "nat \<Rightarrow> nat \<Rightarrow> ipfix_sendbuffer \<Rightarrow> ipfix_sendbuffer res" where
  "clear_entries i 0 b = Inr b"
| "clear_entries i (Suc n) b =
     res_bind (put_entry i null_iovec b) (\<lambda>b1. clear_entries (i + 1) n b1)"

definition ipfix_cancel_data_set :: "ipfix_sendbuffer \<Rightarrow> (int \<times> ipfix_sendbuffer) res" where
  "ipfix_cancel_data_set b =
     (let cur = set_counter (set_manager b) in
      if current b = committed b then Inr (-1, b)
      else if cur + 1 \<ge> IPFIX_MAX_SETS_PER_PACKET then Inr (-1, b)
      else res_bind (put_set_header cur (\<lambda>h. h\<lparr>set_hdr_id := 0\<rparr>) b) (\<lambda>b1.
        let b2 = b1\<lparr>set_manager := (set_manager b1)\<lparr>data_length := 0\<rparr>\<rparr> in
        res_bind (clear_entries (committed b2) (current b2 - committed b2) b2) (\<lambda>b3.
          Inr (0, b3\<lparr>current := committed b3, marker := committed b3\<rparr>))))"

definition ipfix_set_data_field_marker :: "ipfix_sendbuffer \<Rightarrow> int \<times> ipfix_sendbuffer" where
  "ipfix_set_data_field_marker b = (0, b\<lparr>marker := current b\<rparr>)"

fun delete_entries :: "nat \<Rightarrow> nat \<Rightarrow> ipfix_sendbuffer \<Rightarrow> ipfix_sendbuffer res" where
  "delete_entries i 0 b = Inr b"
| "delete_entries i (Suc n) b =
     (let b1 = b\<lparr>set_manager := (set_manager b)\<lparr>data_length :=
            data_length (set_manager b) - of_nat (iov_len (entries b i))\<rparr>\<rparr> in
      res_bind (put_entry i null_iovec b1) (\<lambda>b2. delete_entries (i + 1) n b2))"

definition ipfix_delete_data_fields_upto_marker :: "ipfix_sendbuffer \<Rightarrow> (int \<times> ipfix_sendbuffer) res" where
  "ipfix_delete_data_fields_upto_marker b =
     (if current b = committed b then Inr (-1, b)
      else if marker b < current b
      then res_bind (delete_entries (marker b) (current b - marker b) b) (\<lambda>b1.
             Inr (0, b1\<lparr>current := marker b1\<rparr>))
      else Inr (0, b))"

section \<open>Serialisation\<close>

definition ipfix_header_bytes :: "ipfix_header \<Rightarrow> bytes" where
  "ipfix_header_bytes h = htons_bytes (ih_version h) @ htons_bytes (ih_length h) @
     htonl_bytes (export_time h) @ htonl_bytes (ih_sequence_number h) @
     htonl_bytes (ih_observation_domain_id h)"

definition nfv9_header_bytes :: "nfv9_header \<Rightarrow> bytes" where
  "nfv9_header_bytes h = htons_bytes (nh_version h) @ htons_bytes (nh_count h) @
     htonl_bytes (nh_sysUpTime h) @ htonl_bytes (unix_secs h) @ htonl_bytes (nh_sequence_number h) @
     htonl_bytes (nh_source_id h)"

definition set_header_bytes :: "ipfix_set_header \<Rightarrow> bytes" where
  "set_header_bytes h = htons_bytes (set_hdr_id h) @ htons_bytes (set_hdr_length h)"

text \<open>
  The memory an iovec points to. \<open>tmem\<close> gives the memory of the templates,
  \<open>None\<close> for a freed one.
\<close>

fun iov_memory :: "export_protocol_version \<Rightarrow> (nat \<Rightarrow> bytes option) \<Rightarrow> ipfix_sendbuffer \<Rightarrow> iov_base
    \<Rightarrow> bytes option" where
  "iov_memory p tmem b IovNull = Some []"
| "iov_memory p tmem b IovHeader =
     (case p of IPFIX_PROTOCOL \<Rightarrow> Some (ipfix_header_bytes (ipfix_message_header b))
      | NFV9_PROTOCOL \<Rightarrow> Some (nfv9_header_bytes (nfv9_message_header b)))"
| "iov_memory p tmem b (IovSetHeader k) =
     (if k < IPFIX_MAX_SETS_PER_PACKET then Some (set_header_bytes (set_header_store (set_manager b) k))
      else None)"
| "iov_memory p tmem b (IovData d) = Some d"
| "iov_memory p tmem b (IovTemplate i) = tmem i"

definition iovec_bytes :: "export_protocol_version \<Rightarrow> (nat \<Rightarrow> bytes option) \<Rightarrow> ipfix_sendbuffer \<Rightarrow> iovec
    \<Rightarrow> bytes res" where
  "iovec_bytes p tmem b e =
     (case iov_memory p tmem b (iov_base e) of
        None \<Rightarrow> Inl OutOfBounds
      | Some d \<Rightarrow> if iov_len e \<le> length d then Inr (take (iov_len e) d) else Inl OutOfBounds)"

text \<open>What \<open>sendmsg\<close>, \<open>writev\<close> and \<open>sctp_sendmsgv\<close> transmit for \<open>n\<close> iovecs.\<close>

fun iovecs_bytes :: "export_protocol_version \<Rightarrow> (nat \<Rightarrow> bytes option) \<Rightarrow> ipfix_sendbuffer \<Rightarrow> nat \<Rightarrow> nat
    \<Rightarrow> bytes res" where
  "iovecs_bytes p tmem b i 0 = Inr []"
| "iovecs_bytes p tmem b i (Suc n) =
     res_bind (iovec_bytes p tmem b (entries b i)) (\<lambda>x.
       res_bind (iovecs_bytes p tmem b (i + 1) n) (\<lambda>y. Inr (x @ y)))"

section \<open>The message under construction\<close>

text \<open>
  The abstract view of a buffer: the committed Data Sets, each with its id and the
  contents of its fields, and the open set, if any, with the number of its fields before
  the marker.
\<close>

type_synonym data_set = "u16 \<times> bytes list"
type_synonym open_set = "u16 \<times> bytes list \<times> nat"

definition fields_size :: "bytes list \<Rightarrow> nat" where
  "fields_size fs = sum_list (map length fs)"

definition sets_size :: "data_set list \<Rightarrow> nat" where
  "sets_size ss = sum_list (map (\<lambda>(i, fs). 4 + fields_size fs) ss)"

definition hdr_iov :: "nat \<Rightarrow> iovec" where
  "hdr_iov k = \<lparr>iov_base = IovSetHeader k, iov_len = 4\<rparr>"

definition data_iov :: "bytes \<Rightarrow> iovec" where
  "data_iov d = \<lparr>iov_base = IovData d, iov_len = length d\<rparr>"

fun set_iovs :: "nat \<Rightarrow> data_set list \<Rightarrow> iovec list" where
  "set_iovs k [] = []"
| "set_iovs k ((i, fs) # ss) = hdr_iov k # map data_iov fs @ set_iovs (Suc k) ss"

fun iovs_at :: "(nat \<Rightarrow> iovec) \<Rightarrow> nat \<Rightarrow> iovec list \<Rightarrow> bool" where
  "iovs_at f i [] = True"
| "iovs_at f i (x # xs) = (f i = x \<and> iovs_at f (Suc i) xs)"

definition open_rel :: "ipfix_sendbuffer \<Rightarrow> nat \<Rightarrow> open_set option \<Rightarrow> bool" where
  "open_rel b k op \<longleftrightarrow>
     (case op of
        None \<Rightarrow> current b = committed b \<and> marker b = committed b
      | Some (i, fs, mk) \<Rightarrow>
          iovs_at (entries b) (committed b) (hdr_iov k # map data_iov fs) \<and>
          current b = committed b + 1 + length fs \<and> marker b = committed b + 1 + mk \<and>
          mk \<le> length fs \<and> k + 1 < IPFIX_MAX_SETS_PER_PACKET \<and>
          set_hdr_id (set_header_store (set_manager b) k) = i \<and>
          data_length (set_manager b) = of_nat (fields_size fs))"

definition sets_rel :: "export_protocol_version \<Rightarrow> ipfix_sendbuffer \<Rightarrow> data_set list \<Rightarrow> bool" where
  "sets_rel p b ss \<longleftrightarrow>
     entries b 0 = \<lparr>iov_base = IovHeader, iov_len = sizeof_header p\<rparr> \<and>
     committed b = 1 + length (set_iovs 0 ss) \<and>
     iovs_at (entries b) 1 (set_iovs 0 ss) \<and>
     (\<forall>k < length ss. set_header_store (set_manager b) k =
        \<lparr>set_hdr_id = fst (ss ! k), set_hdr_length = of_nat (4 + fields_size (snd (ss ! k)))\<rparr>) \<and>
     set_counter (set_manager b) = length ss \<and> length ss < IPFIX_MAX_SETS_PER_PACKET \<and>
     committed_data_length b = of_nat (sets_size ss)"

definition sb_rel :: "export_protocol_version \<Rightarrow> ipfix_sendbuffer \<Rightarrow> data_set list \<Rightarrow> open_set option \<Rightarrow> bool" where
  "sb_rel p b ss op \<longleftrightarrow> sets_rel p b ss \<and> open_rel b (length ss) op \<and> current b \<le> IPFIX_MAX_SENDBUFSIZE"

lemmas sb_defs = sb_rel_def sets_rel_def open_rel_def

lemma ucast_of_nat_u16: "ucast (of_nat n :: u32) = (of_nat n :: u16)"
  by (simp add: unsigned_of_nat word_of_nat_eq_iff take_bit_take_bit)

lemma ucast_of_nat_u32: "n < 65536 \<Longrightarrow> ucast (of_nat n :: u16) = (of_nat n :: u32)"
  by (simp add: unsigned_of_nat take_bit_nat_eq_self)

lemma iovs_at_append: "iovs_at f i (xs @ ys) \<longleftrightarrow> iovs_at f i xs \<and> iovs_at f (i + length xs) ys"
  by (induction xs arbitrary: i) auto

lemma iovs_at_upd: "j < i \<or> i + length xs \<le> j \<Longrightarrow> iovs_at (f(j := e)) i xs = iovs_at f i xs"
  by (induction xs arbitrary: i) auto

lemma set_iovs_append:
  "set_iovs k (ss @ [(i, fs)]) = set_iovs k ss @ hdr_iov (k + length ss) # map data_iov fs"
  by (induction ss arbitrary: k) auto

lemma sets_size_append: "sets_size (ss @ [(i, fs)]) = sets_size ss + 4 + fields_size fs"
  by (simp add: sets_size_def)

lemma fields_size_append: "fields_size (fs @ [d]) = fields_size fs + length d"
  by (simp add: fields_size_def)

lemma init_sb_rel: "sb_rel p (ipfix_init_sendbuffer old p) [] None"
  by (cases p) (simp_all add: sb_defs ipfix_init_sendbuffer_def HEADER_USED_IOVEC_COUNT_def
      zero_set_manager_def IPFIX_MAX_SETS_PER_PACKET_def IPFIX_MAX_SENDBUFSIZE_def sets_size_def)

lemma reset_sb_rel: "sb_rel p b ss op \<Longrightarrow> sb_rel p (ipfix_reset_sendbuffer b) [] None"
  by (simp add: sb_defs ipfix_reset_sendbuffer_def HEADER_USED_IOVEC_COUNT_def
      zero_set_manager_def IPFIX_MAX_SETS_PER_PACKET_def IPFIX_MAX_SENDBUFSIZE_def sets_size_def)

lemma start_sb_rel:
  assumes "sb_rel p b ss None" and "current b < IPFIX_MAX_SENDBUFSIZE - 1"
    and "length ss + 1 < IPFIX_MAX_SETS_PER_PACKET"
  shows "\<exists>b'. ipfix_start_data_set i b = Inr (0, b') \<and> sb_rel p b' ss (Some (i, [], 0)) \<and>
    current b' = current b + 1"
  using assms
  by (auto simp: sb_defs ipfix_start_data_set_def put_set_header_def put_entry_def hdr_iov_def Let_def
      sizeof_set_header_def fields_size_def iovs_at_upd)

lemma put_sb_rel:
  assumes "sb_rel p b ss (Some (i, fs, mk))" and "current b < IPFIX_MAX_SENDBUFSIZE"
    and "length d < 2 ^ 32"
  shows "\<exists>b'. ipfix_put_data_field d (of_nat (length d)) b = Inr (0, b') \<and>
    sb_rel p b' ss (Some (i, fs @ [d], mk)) \<and> current b' = current b + 1"
  using assms
  by (auto simp: sb_defs ipfix_put_data_field_def put_entry_def fields_size_append iovs_at_append iovs_at_upd
      data_iov_def [of d] unat_of_nat_u32)

lemma marker_sb_rel:
  assumes "sb_rel p b ss (Some (i, fs, mk))"
  shows "\<exists>b'. ipfix_set_data_field_marker b = (0, b') \<and> sb_rel p b' ss (Some (i, fs, length fs))"
  using assms by (auto simp: sb_defs ipfix_set_data_field_marker_def)

lemma end_sb_rel:
  assumes "sb_rel p b ss (Some (i, fs, mk))" and "4 + fields_size fs < 65536"
  shows "\<exists>b'. ipfix_end_data_set n sn b = Inr (0, sn + ucast n, b') \<and> sb_rel p b' (ss @ [(i, fs)]) None \<and>
    record_count b' = record_count b + ucast n \<and> current b' = current b"
proof -
  let ?n = "4 + fields_size fs"
  have dl: "data_length (set_manager b) + of_nat sizeof_set_header = of_nat ?n"
    using assms(1) by (simp add: sb_defs sizeof_set_header_def)
  have o: "current b \<noteq> committed b" "set_counter (set_manager b) = length ss"
      "length ss + 1 < IPFIX_MAX_SETS_PER_PACKET"
    using assms(1) by (simp_all add: sb_defs)
  have l: "(ucast (of_nat ?n :: u32) :: u16) = of_nat ?n" by (rule ucast_of_nat_u16)
  have l2: "(ucast (of_nat ?n :: u16) :: u32) = of_nat ?n" using assms(2) by (rule ucast_of_nat_u32)
  let ?b1 = "b\<lparr>set_manager := (set_manager b)\<lparr>set_header_store := (set_header_store (set_manager b))
      (length ss := (set_header_store (set_manager b) (length ss))\<lparr>set_hdr_length := of_nat ?n\<rparr>)\<rparr>\<rparr>"
  let ?b' = "?b1\<lparr>committed_data_length := committed_data_length b + of_nat ?n,
      record_count := record_count b + ucast n,
      set_manager := (set_manager ?b1)\<lparr>set_counter := length ss + 1\<rparr>,
      committed := current b, marker := current b\<rparr>"
  have "ipfix_end_data_set n sn b = Inr (0, sn + ucast n, ?b')"
    using o by (simp add: ipfix_end_data_set_def put_set_header_def Let_def dl l l2 del: of_nat_add of_nat_numeral)
  moreover have "sb_rel p ?b' (ss @ [(i, fs)]) None"
    using assms(1)
    by (auto simp: sb_defs set_iovs_append sets_size_append iovs_at_append nth_append less_Suc_eq)
  ultimately show ?thesis by simp
qed

lemma clear_entries_spec:
  "i + n \<le> IPFIX_MAX_SENDBUFSIZE \<Longrightarrow>
     \<exists>f. clear_entries i n b = Inr (b\<lparr>entries := f\<rparr>) \<and> (\<forall>j < i. f j = entries b j)"
proof (induction n arbitrary: i b)
  case 0
  then show ?case by (simp, intro exI [of _ "entries b"]) simp
next
  case (Suc n)
  from Suc.IH [of "i + 1" "b\<lparr>entries := (entries b)(i := null_iovec)\<rparr>"] Suc.prems obtain f
    where "clear_entries (i + 1) n (b\<lparr>entries := (entries b)(i := null_iovec)\<rparr>) = Inr (b\<lparr>entries := f\<rparr>)"
      "\<forall>j < i + 1. f j = ((entries b)(i := null_iovec)) j" by auto
  with Suc.prems show ?case by (auto simp: put_entry_def)
qed

lemma iovs_at_cong: "(\<forall>j < i + length xs. f j = g j) \<Longrightarrow> iovs_at f i xs = iovs_at g i xs"
  by (induction xs arbitrary: i) auto

lemma cancel_sb_rel:
  assumes "sb_rel p b ss (Some (i, fs, mk))"
  shows "\<exists>b'. ipfix_cancel_data_set b = Inr (0, b') \<and> sb_rel p b' ss None \<and>
    committed_data_length b' = committed_data_length b"
proof -
  let ?b2 = "b\<lparr>set_manager := (set_manager b)\<lparr>set_header_store := (set_header_store (set_manager b))
      (length ss := (set_header_store (set_manager b) (length ss))\<lparr>set_hdr_id := 0\<rparr>),
      data_length := 0\<rparr>\<rparr>"
  have "committed b + (current b - committed b) \<le> IPFIX_MAX_SENDBUFSIZE"
    using assms by (simp add: sb_defs)
  from clear_entries_spec [OF this, of ?b2] obtain f
    where c: "clear_entries (committed b) (current b - committed b) ?b2 = Inr (?b2\<lparr>entries := f\<rparr>)"
      and f: "\<forall>j < committed b. f j = entries b j" by auto
  have "iovs_at f 1 (set_iovs 0 ss) = iovs_at (entries b) 1 (set_iovs 0 ss)"
    using assms f by (intro iovs_at_cong) (auto simp: sb_defs)
  with assms c f show ?thesis
    by (auto simp: sb_defs ipfix_cancel_data_set_def put_set_header_def Let_def)
qed

lemma delete_entries_spec:
  assumes "i + length fs \<le> IPFIX_MAX_SENDBUFSIZE" and "iovs_at (entries b) i (map data_iov fs)"
  shows "\<exists>f. delete_entries i (length fs) b = Inr (b\<lparr>entries := f, set_manager := (set_manager b)\<lparr>data_length :=
      data_length (set_manager b) - of_nat (fields_size fs)\<rparr>\<rparr>) \<and> (\<forall>j < i. f j = entries b j)"
  using assms
proof (induction fs arbitrary: i b)
  case Nil
  then show ?case by (simp add: fields_size_def, intro exI [of _ "entries b"]) simp
next
  case (Cons d fs)
  let ?b1 = "b\<lparr>set_manager := (set_manager b)\<lparr>data_length := data_length (set_manager b) - of_nat (length d)\<rparr>,
    entries := (entries b)(i := null_iovec)\<rparr>"
  have "iovs_at (entries ?b1) (i + 1) (map data_iov fs)"
    using Cons.prems by (simp add: iovs_at_upd)
  from Cons.IH [OF _ this] Cons.prems(1) obtain f
    where "delete_entries (i + 1) (length fs) ?b1 = Inr (?b1\<lparr>entries := f, set_manager := (set_manager ?b1)\<lparr>data_length :=
        data_length (set_manager ?b1) - of_nat (fields_size fs)\<rparr>\<rparr>)" "\<forall>j < i + 1. f j = entries ?b1 j"
    by auto
  with Cons.prems show ?case
    by (auto simp: put_entry_def data_iov_def fields_size_def Let_def diff_diff_eq)
qed

lemma delete_sb_rel:
  assumes "sb_rel p b ss (Some (i, fs, mk))"
  shows "\<exists>b'. ipfix_delete_data_fields_upto_marker b = Inr (0, b') \<and> sb_rel p b' ss (Some (i, take mk fs, mk))"
proof (cases "mk < length fs")
  case False
  then have "take mk fs = fs" "marker b = current b" using assms by (simp_all add: sb_defs)
  with assms show ?thesis by (auto simp: ipfix_delete_data_fields_upto_marker_def) (simp add: sb_defs)
next
  case True
  have fs: "map data_iov fs = map data_iov (take mk fs) @ map data_iov (drop mk fs)"
    by (simp flip: map_append)
  have at: "iovs_at (entries b) (Suc (committed b)) (map data_iov (take mk fs))"
      "iovs_at (entries b) (marker b) (map data_iov (drop mk fs))"
    using assms True by (auto simp: sb_defs fs iovs_at_append)
  have sz: "marker b + length (drop mk fs) \<le> IPFIX_MAX_SENDBUFSIZE" "current b - marker b = length (drop mk fs)"
    using assms True by (auto simp: sb_defs)
  from delete_entries_spec [OF sz(1) at(2)] obtain f
    where d: "delete_entries (marker b) (current b - marker b) b = Inr (b\<lparr>entries := f, set_manager :=
        (set_manager b)\<lparr>data_length := data_length (set_manager b) - of_nat (fields_size (drop mk fs))\<rparr>\<rparr>)"
      and f: "\<forall>j < marker b. f j = entries b j" unfolding sz(2) by blast
  have "fields_size fs = fields_size (take mk fs) + fields_size (drop mk fs)"
    by (simp add: fields_size_def flip: sum_list_append map_append)
  moreover have "iovs_at f 1 (set_iovs 0 ss) = iovs_at (entries b) 1 (set_iovs 0 ss)"
      "iovs_at f (Suc (committed b)) (map data_iov (take mk fs)) =
       iovs_at (entries b) (Suc (committed b)) (map data_iov (take mk fs))"
    by (intro iovs_at_cong; use assms f True in \<open>auto simp: sb_defs\<close>)+
  ultimately show ?thesis
    using assms d f True at
    by (auto simp: sb_defs ipfix_delete_data_fields_upto_marker_def)
qed

section \<open>What is transmitted\<close>

definition set_bytes :: "data_set \<Rightarrow> bytes" where
  "set_bytes = (\<lambda>(i, fs). htons_bytes i @ htons_bytes (of_nat (4 + fields_size fs)) @ concat fs)"

lemma iovecs_bytes_add:
  "iovecs_bytes p tm b i (m + n) = res_bind (iovecs_bytes p tm b i m) (\<lambda>x.
     res_bind (iovecs_bytes p tm b (i + m) n) (\<lambda>y. Inr (x @ y)))"
proof (induction m arbitrary: i)
  case 0
  show ?case by (cases "iovecs_bytes p tm b i n") simp_all
next
  case (Suc m)
  then show ?case by (simp add: res_bind_assoc)
qed

lemma data_iovs_bytes:
  "iovs_at (entries b) i (map data_iov fs) \<Longrightarrow> iovecs_bytes p tm b i (length fs) = Inr (concat fs)"
proof (induction fs arbitrary: i)
  case Nil
  then show ?case by simp
next
  case (Cons d fs)
  then have "iovec_bytes p tm b (entries b i) = Inr d"
    by (simp add: iovec_bytes_def data_iov_def)
  with Cons show ?case by simp
qed

lemma set_iovs_bytes:
  assumes "iovs_at (entries b) i (set_iovs k ss)" and "k + length ss \<le> IPFIX_MAX_SETS_PER_PACKET"
    and "\<forall>j < length ss. set_header_store (set_manager b) (k + j) =
      \<lparr>set_hdr_id = fst (ss ! j), set_hdr_length = of_nat (4 + fields_size (snd (ss ! j)))\<rparr>"
  shows "iovecs_bytes p tm b i (length (set_iovs k ss)) = Inr (concat (map set_bytes ss))"
  using assms
proof (induction k ss arbitrary: i rule: set_iovs.induct)
  case (1 k)
  then show ?case by simp
next
  case (2 k sid fs ss)
  have h: "set_header_store (set_manager b) k = \<lparr>set_hdr_id = sid, set_hdr_length = of_nat (4 + fields_size fs)\<rparr>"
    using "2.prems"(3) by force
  have "iovec_bytes p tm b (entries b i) = Inr (htons_bytes sid @ htons_bytes (of_nat (4 + fields_size fs)))"
    using "2.prems"(1,2) by (simp add: iovec_bytes_def hdr_iov_def h set_header_bytes_def)
  moreover have "iovecs_bytes p tm b (Suc i) (length fs) = Inr (concat fs)"
    using "2.prems"(1) by (intro data_iovs_bytes) (simp add: iovs_at_append)
  moreover have "iovecs_bytes p tm b (Suc i + length fs) (length (set_iovs (Suc k) ss)) = Inr (concat (map set_bytes ss))"
  proof (rule "2.IH")
    show "\<forall>j < length ss. set_header_store (set_manager b) (Suc k + j) =
        \<lparr>set_hdr_id = fst (ss ! j), set_hdr_length = of_nat (4 + fields_size (snd (ss ! j)))\<rparr>"
      using "2.prems"(3) by (metis Suc_less_eq add_Suc_shift length_Cons nth_Cons_Suc)
  qed (use "2.prems"(1,2) in \<open>simp_all add: iovs_at_append\<close>)
  ultimately show ?case
    by (simp add: iovecs_bytes_add set_bytes_def)
qed

definition header_bytes :: "export_protocol_version \<Rightarrow> ipfix_sendbuffer \<Rightarrow> bytes" where
  "header_bytes p b = (case p of IPFIX_PROTOCOL \<Rightarrow> ipfix_header_bytes (ipfix_message_header b)
     | NFV9_PROTOCOL \<Rightarrow> nfv9_header_bytes (nfv9_message_header b))"

lemma length_header_bytes: "length (header_bytes p b) = sizeof_header p"
  by (cases p) (simp_all add: header_bytes_def ipfix_header_bytes_def nfv9_header_bytes_def)

lemma sb_rel_bytes:
  assumes "sb_rel p b ss op"
  shows "iovecs_bytes p tm b 0 (committed b) = Inr (header_bytes p b @ concat (map set_bytes ss))"
proof -
  have "iovec_bytes p tm b (entries b 0) = Inr (header_bytes p b)"
    using assms length_header_bytes [of p b]
    by (cases p) (simp_all add: sb_defs iovec_bytes_def header_bytes_def)
  moreover have "iovecs_bytes p tm b 1 (length (set_iovs 0 ss)) = Inr (concat (map set_bytes ss))"
    using assms by (intro set_iovs_bytes) (auto simp: sb_defs)
  ultimately show ?thesis
    using assms by (simp add: sb_defs)
qed

lemma length_set_bytes: "length (set_bytes (i, fs)) = 4 + fields_size fs"
  by (simp add: set_bytes_def fields_size_def length_concat)

lemma length_sets_bytes: "length (concat (map set_bytes ss)) = sets_size ss"
  by (induction ss) (auto simp: sets_size_def length_set_bytes)

text \<open>The signed 32-bit comparison in \<open>ipfix_get_remaining_space\<close>.\<close>

lemma sint_of_int_u32: "- (2 ^ 31) \<le> x \<Longrightarrow> x < 2 ^ 31 \<Longrightarrow> sint (word_of_int x :: u32) = x"
  by (simp add: signed_of_int signed_take_bit_int_eq_self)

definition open_size :: "open_set option \<Rightarrow> nat" where
  "open_size op = (case op of None \<Rightarrow> 0 | Some (i, fs, mk) \<Rightarrow> 4 + fields_size fs)"

lemma remaining_space:
  assumes "sb_rel p b ss op" and "sets_size ss + open_size op < 2 ^ 30"
  shows "unat (ipfix_get_remaining_space mx b) = unat mx - (16 + sets_size ss + open_size op)"
proof -
  define x where "x = int (unat mx) - 16 - int (sets_size ss) - int (open_size op)"
  have mx: "unat mx < 65536" by (rule u16_lt)
  have sp: "(if current b \<noteq> committed b
       then ucast mx - 16 - committed_data_length b - of_nat sizeof_set_header - data_length (set_manager b)
       else ucast mx - 16 - committed_data_length b) = (of_int x :: u32)"
    using assms(1)
    by (cases op) (auto simp: sb_defs open_size_def sizeof_set_header_def x_def algebra_simps)
  obtain k where k: "unat mx = k" "k < 65536" using mx by blast
  have x: "x = int k - 16 - int (sets_size ss) - int (open_size op)" by (simp only: x_def k)
  have sx: "sint (of_int x :: u32) = x"
    using k(2) assms(2) by (intro sint_of_int_u32) (simp_all add: x)
  have "\<not> x > 65535" using k(2) by (simp add: x)
  with sp have "ipfix_get_remaining_space mx b = ucast (if x < 0 then 0 else (of_int x :: u32))"
    using sx by (simp add: ipfix_get_remaining_space_def Let_def sp IPFIX_MTU_MAX_def)
  also have "\<dots> = (of_nat (nat x) :: u16)"
  proof (cases "x < 0")
    case False
    then have "(of_int x :: u32) = of_nat (nat x)" by simp
    with False show ?thesis by (simp add: ucast_of_nat_u16 del: of_nat_nat)
  qed simp
  finally show ?thesis
    using k by (simp add: unat_of_nat_u16 x)
qed

section \<open>The calls of an application\<close>

datatype buf_op = StartSet u16 | PutField bytes | EndSet u16 | CancelSet | SetMarker | DeleteToMarker

fun buf_step :: "buf_op \<Rightarrow> ipfix_sendbuffer \<Rightarrow> (int \<times> ipfix_sendbuffer) res" where
  "buf_step (StartSet i) b = ipfix_start_data_set i b"
| "buf_step (PutField d) b = ipfix_put_data_field d (of_nat (length d)) b"
| "buf_step (EndSet n) b = res_bind (ipfix_end_data_set n 0 b) (\<lambda>(r, sn, b'). Inr (r, b'))"
| "buf_step CancelSet b = ipfix_cancel_data_set b"
| "buf_step SetMarker b = Inr (ipfix_set_data_field_marker b)"
| "buf_step DeleteToMarker b = ipfix_delete_data_fields_upto_marker b"

text \<open>The contract: what each call does to the list of sets and the open set.\<close>

definition iovs_used :: "data_set list \<Rightarrow> open_set option \<Rightarrow> nat" where
  "iovs_used ss op = 1 + length (set_iovs 0 ss) +
     (case op of None \<Rightarrow> 0 | Some (i, fs, mk) \<Rightarrow> 1 + length fs)"

fun abs_step :: "buf_op \<Rightarrow> data_set list \<times> open_set option \<Rightarrow> int \<times> data_set list \<times> open_set option" where
  "abs_step (StartSet i) (ss, None) =
     (if iovs_used ss None < IPFIX_MAX_SENDBUFSIZE - 1 \<and> length ss + 1 < IPFIX_MAX_SETS_PER_PACKET
      then (0, ss, Some (i, [], 0)) else (-1, ss, None))"
| "abs_step (PutField d) (ss, Some (i, fs, mk)) =
     (if iovs_used ss (Some (i, fs, mk)) < IPFIX_MAX_SENDBUFSIZE
      then (0, ss, Some (i, fs @ [d], mk)) else (-1, ss, Some (i, fs, mk)))"
| "abs_step (EndSet n) (ss, Some (i, fs, mk)) = (0, ss @ [(i, fs)], None)"
| "abs_step CancelSet (ss, Some (i, fs, mk)) = (0, ss, None)"
| "abs_step SetMarker (ss, Some (i, fs, mk)) = (0, ss, Some (i, fs, length fs))"
| "abs_step SetMarker (ss, None) = (0, ss, None)"
| "abs_step DeleteToMarker (ss, Some (i, fs, mk)) = (0, ss, Some (i, take mk fs, mk))"
| "abs_step _ x = (-1, x)"

text \<open>The lengths the application must respect: a field's length is 32 bits wide, a set's 16.\<close>

fun op_fits :: "buf_op \<Rightarrow> data_set list \<times> open_set option \<Rightarrow> bool" where
  "op_fits (PutField d) x = (length d < 2 ^ 32)"
| "op_fits (EndSet n) (ss, Some (i, fs, mk)) = (4 + fields_size fs < 65536)"
| "op_fits _ x = True"

lemma sb_rel_used: "sb_rel p b ss op \<Longrightarrow> current b = iovs_used ss op"
  by (cases op) (auto simp: sb_defs iovs_used_def)

lemma buf_step_refines:
  assumes "sb_rel p b ss op" and "op_fits a (ss, op)" and "abs_step a (ss, op) = (r, ss', op')"
  shows "\<exists>b'. buf_step a b = Inr (r, b') \<and> sb_rel p b' ss' op'"
proof -
  note used = sb_rel_used [OF assms(1)]
  show ?thesis
  proof (cases "(a, (ss, op))" rule: abs_step.cases)
    case (1 i ss0)
    then show ?thesis
      using assms used start_sb_rel [of p b ss i]
      by (auto simp: ipfix_start_data_set_def sb_defs Let_def split: if_splits)
  next
    case (2 d ss0 i fs mk)
    then show ?thesis
      using assms used put_sb_rel [of p b ss i fs mk d]
      by (auto simp: ipfix_put_data_field_def sb_defs split: if_splits)
  next
    case (3 n ss0 i fs mk)
    then show ?thesis using assms end_sb_rel [of p b ss i fs mk n 0] by auto
  next
    case (4 ss0 i fs mk)
    then show ?thesis using assms cancel_sb_rel [of p b ss i fs mk] by auto
  next
    case (5 ss0 i fs mk)
    then show ?thesis using assms marker_sb_rel [of p b ss i fs mk] by auto
  next
    case (6 ss0)
    then show ?thesis using assms by (auto simp: ipfix_set_data_field_marker_def sb_defs)
  next
    case (7 ss0 i fs mk)
    then show ?thesis using assms delete_sb_rel [of p b ss i fs mk] by auto
  qed (use assms in \<open>auto simp: ipfix_start_data_set_def ipfix_put_data_field_def ipfix_end_data_set_def
      ipfix_cancel_data_set_def ipfix_delete_data_fields_upto_marker_def sb_defs Let_def\<close>)
qed

fun buf_run :: "buf_op list \<Rightarrow> ipfix_sendbuffer \<Rightarrow> (int list \<times> ipfix_sendbuffer) res" where
  "buf_run [] b = Inr ([], b)"
| "buf_run (a # as) b = res_bind (buf_step a b) (\<lambda>(r, b1).
     res_bind (buf_run as b1) (\<lambda>(rs, b2). Inr (r # rs, b2)))"

fun abs_run :: "buf_op list \<Rightarrow> data_set list \<times> open_set option
    \<Rightarrow> int list \<times> data_set list \<times> open_set option" where
  "abs_run [] x = ([], x)"
| "abs_run (a # as) x =
     (let (r, x1) = abs_step a x; (rs, x2) = abs_run as x1 in (r # rs, x2))"

fun run_fits :: "buf_op list \<Rightarrow> data_set list \<times> open_set option \<Rightarrow> bool" where
  "run_fits [] x = True"
| "run_fits (a # as) x = (op_fits a x \<and> run_fits as (snd (abs_step a x)))"

lemma buf_run_refines:
  assumes "sb_rel p b ss op" and "run_fits as (ss, op)" and "abs_run as (ss, op) = (rs, ss', op')"
  shows "\<exists>b'. buf_run as b = Inr (rs, b') \<and> sb_rel p b' ss' op'"
  using assms
proof (induction as arbitrary: b ss op rs)
  case Nil
  then show ?case by simp
next
  case (Cons a as)
  obtain r ss1 op1 where st: "abs_step a (ss, op) = (r, ss1, op1)" by (metis prod_cases3)
  obtain rs1 where run: "abs_run as (ss1, op1) = (rs1, ss', op')" and rs: "rs = r # rs1"
    using Cons.prems(3) st by (auto split: prod.splits)
  from buf_step_refines [OF Cons.prems(1) _ st] Cons.prems(2) obtain b1
    where b1: "buf_step a b = Inr (r, b1)" "sb_rel p b1 ss1 op1" by auto
  from Cons.IH [OF b1(2) _ run] Cons.prems(2) st obtain b'
    where "buf_run as b1 = Inr (rs1, b')" "sb_rel p b' ss' op'" by auto
  with b1 show ?case by (simp add: rs)
qed

section \<open>Properties\<close>

text \<open>
  C8: any sequence of calls that add to, mark, undo, cancel and end Data Sets, on a fresh
  buffer and with whatever misuse (calls out of order, too many sets or fields), stays
  inside the buffer's arrays, returns the codes of the contract, and leaves in the buffer
  exactly the sets of the contract: what is transmitted is the message header followed by
  each committed set with its id, its length and the contents of its fields, in order; sets
  that were cancelled and fields deleted back to the marker leave no trace.
\<close>

theorem data_sets_refine:
  assumes "run_fits as ([], None)" and "abs_run as ([], None) = (rs, ss, op)"
  shows "\<exists>b. buf_run as (ipfix_init_sendbuffer old p) = Inr (rs, b) \<and>
    iovecs_bytes p tmem b 0 (committed b) = Inr (header_bytes p b @ concat (map set_bytes ss)) \<and>
    committed_data_length b = of_nat (sets_size ss)"
proof -
  obtain b where "buf_run as (ipfix_init_sendbuffer old p) = Inr (rs, b)" and rel: "sb_rel p b ss op"
    using buf_run_refines [OF init_sb_rel assms] by auto
  with sb_rel_bytes [OF rel] show ?thesis by (auto simp: sb_defs)
qed

theorem data_sets_refine_witness:
  "\<exists>b. buf_run [PutField [9], StartSet 256, PutField [1, 2], SetMarker, PutField [3], DeleteToMarker, EndSet 1,
        StartSet 257, PutField [4], CancelSet] (ipfix_init_sendbuffer undefined IPFIX_PROTOCOL) =
       Inr ([-1, 0, 0, 0, 0, 0, 0, 0, 0, 0], b) \<and>
     iovecs_bytes IPFIX_PROTOCOL (\<lambda>_. None) b 0 (committed b) =
       Inr (header_bytes IPFIX_PROTOCOL b @ [1, 0, 0, 6, 1, 2]) \<and> committed_data_length b = 6"
  using data_sets_refine [of "[PutField [9], StartSet 256, PutField [1, 2], SetMarker, PutField [3], DeleteToMarker,
      EndSet 1, StartSet 257, PutField [4], CancelSet]" "[-1, 0, 0, 0, 0, 0, 0, 0, 0, 0]" "[(256, [[1, 2]])]" None
      undefined IPFIX_PROTOCOL "\<lambda>_. None"]
  by (simp add: iovs_used_def IPFIX_MAX_SENDBUFSIZE_def IPFIX_MAX_SETS_PER_PACKET_def set_bytes_def
      fields_size_def sets_size_def htons_bytes_def)



end
