(* ===== verification/Exporter_Template.thy ===== *)
theory Exporter_Template
  imports Exporter_Buffer
begin

text \<open>
  The exporter and its templates (src/src/common/ipfixlolib/ipfixlolib.h and
  ipfixlolib.c): the array of templates, each a state and the bytes of its Template Set as
  they go out on the wire, the calls that build, end, remove and free a template, and the
  refill of the template send buffers.

  \<open>template_fields\<close> is the allocated block, \<open>None\<close> when it is freed. The field
  \<open>transmitted\<close> of the exporter records what was handed to the sockets and files of the
  collectors, in order. The address of a collector is its family (IPv6 or not), the textual
  address and the port, \<open>None\<close> when it is all zero; \<open>basename\<close> is \<open>None\<close> when the
  pointer is not to an allocated block.
\<close>

section \<open>Data structures\<close>

datatype template_state = T_UNUSED | T_UNCLEAN | T_COMMITED | T_SENT | T_WITHDRAWN | T_TOBEDELETED
datatype collector_state = C_UNUSED | C_NEW | C_DISCONNECTED | C_CONNECTED
datatype ipfix_transport_protocol = DATAFILE | SCTP | UDP | TCP | DTLS_OVER_UDP | DTLS_OVER_SCTP | ZMQ
datatype mtu_mode = IPFIX_MTU_FIXED | IPFIX_MTU_DISCOVER

definition IPFIX_MAX_COLLECTORS :: nat where "IPFIX_MAX_COLLECTORS = 16"
definition IPFIX_MAX_TEMPLATES :: nat where "IPFIX_MAX_TEMPLATES = 16"
definition IPFIX_DEFAULT_TEMPLATE_TIMER :: u32 where "IPFIX_DEFAULT_TEMPLATE_TIMER = 20"
definition IPFIX_DEFAULT_SCTP_RECONNECT_TIMER :: u32 where "IPFIX_DEFAULT_SCTP_RECONNECT_TIMER = 300"
definition IPFIX_DEFAULT_SCTP_DATA_LIFETIME :: u32 where "IPFIX_DEFAULT_SCTP_DATA_LIFETIME = 0"
definition IPFIX_MTU_CONSERVATIVE_DEFAULT :: u16 where "IPFIX_MTU_CONSERVATIVE_DEFAULT = 1400"
definition IPFIX_ENTERPRISE_BIT :: u16 where "IPFIX_ENTERPRISE_BIT = 0x8000"

record ipfix_lo_template =
  tstate :: template_state
  template_id :: u16
  field_count :: u16
  fields_added :: u16
  fields_length :: nat
  max_fields_length :: nat
  template_fields :: "bytes option"

record ipfix_receiving_collector =
  ipaddress :: string
  port_number :: u16
  col_protocol :: ipfix_transport_protocol
  data_socket :: int
  addr :: "(bool \<times> string \<times> u16) option"
  last_reconnect_attempt_time :: u32
  cstate :: collector_state
  messages_sent :: u32
  basename :: "string option"
  fh :: int
  filenum :: int
  bytes_written :: u64
  maxfilesize :: u32
  col_mtu_mode :: mtu_mode
  mtu :: u16
  vrf_name :: string

record ipfix_exporter =
  export_protocol :: export_protocol_version
  sequence_number :: u32
  sn_increment :: u32
  observation_domain_id :: u32
  start_time_ms :: int
  max_message_size :: u16
  template_sendbuffer :: ipfix_sendbuffer
  sctp_template_sendbuffer :: ipfix_sendbuffer
  data_sendbuffer :: ipfix_sendbuffer
  collector_arr :: "ipfix_receiving_collector list"
  last_template_transmission_time :: u32
  template_transmission_timer :: u32
  sctp_lifetime :: u32
  sctp_reconnect_timer :: u32
  template_arr :: "ipfix_lo_template list"
  transmitted :: "(nat \<times> bytes) list"

section \<open>Template management\<close>

fun find_index :: "('a \<Rightarrow> bool) \<Rightarrow> 'a list \<Rightarrow> nat \<Rightarrow> nat option" where
  "find_index P [] i = None"
| "find_index P (x # xs) i = (if P x then Some i else find_index P xs (i + 1))"

definition ipfix_find_template :: "u16 \<Rightarrow> ipfix_lo_template list \<Rightarrow> nat option" where
  "ipfix_find_template tid ts = find_index (\<lambda>t. tstate t \<noteq> T_UNUSED \<and> template_id t = tid) ts 0"

definition ipfix_get_free_template_slot :: "ipfix_lo_template list \<Rightarrow> nat option" where
  "ipfix_get_free_template_slot ts = find_index (\<lambda>t. tstate t = T_UNUSED) ts 0"

definition ipfix_deinit_template :: "ipfix_lo_template \<Rightarrow> int \<times> ipfix_lo_template" where
  "ipfix_deinit_template t =
     (if tstate t = T_UNUSED then (-1, t)
      else (0, t\<lparr>tstate := T_UNUSED, template_fields := None\<rparr>))"

text \<open>Access to the block of a template; the writers of the encoding library work on it.\<close>

definition on_fields :: "(bytes \<Rightarrow> bytes res) \<Rightarrow> ipfix_lo_template \<Rightarrow> ipfix_lo_template res" where
  "on_fields f t =
     (case template_fields t of
        None \<Rightarrow> Inl OutOfBounds
      | Some m \<Rightarrow> res_bind (f m) (\<lambda>m'. Inr (t\<lparr>template_fields := Some m'\<rparr>)))"

definition withdrawal_bytes :: "bytes \<Rightarrow> bytes res" where
  "withdrawal_bytes m =
     (let p_end = 8 in
      res_bind (write_unsigned16 m 2 p_end 8) (\<lambda>(r, m1, p1).
        res_bind (write_unsigned16 m1 (p1 + 2) p_end 0) (\<lambda>(r, m2, p2). Inr m2)))"

definition remove_template_arr :: "u16 \<Rightarrow> ipfix_lo_template list \<Rightarrow> (int \<times> ipfix_lo_template list) res" where
  "remove_template_arr tid ts =
     (case ipfix_find_template tid ts of
        None \<Rightarrow> Inr (-1, ts)
      | Some i \<Rightarrow>
          if tstate (ts ! i) = T_SENT
          then res_bind (on_fields withdrawal_bytes (ts ! i)) (\<lambda>t.
                 Inr (0, ts[i := t\<lparr>fields_length := 8, field_count := 0, fields_added := 0,
                                   tstate := T_WITHDRAWN\<rparr>]))
          else Inr (0, ts[i := snd (ipfix_deinit_template (ts ! i))]))"

text \<open>The part of \<open>ipfix_start_template\<close> behind the choice of the slot.\<close>

definition template_header :: "export_protocol_version \<Rightarrow> u16 \<Rightarrow> u16 \<Rightarrow> bytes \<Rightarrow> bytes res" where
  "template_header p tid fc m =
     (let p_end = length m in
      res_bind (write_unsigned16 m 0 p_end (case p of NFV9_PROTOCOL \<Rightarrow> 0 | IPFIX_PROTOCOL \<Rightarrow> 2)) (\<lambda>(r, m1, p1).
        res_bind (write_unsigned16 m1 p1 p_end 0) (\<lambda>(r, m2, p2).
          res_bind (write_unsigned16 m2 p2 p_end tid) (\<lambda>(r, m3, p3).
            res_bind (write_unsigned16 m3 p3 p_end fc) (\<lambda>(r, m4, p4). Inr m4)))))"

definition init_template :: "(nat \<Rightarrow> byte) \<Rightarrow> export_protocol_version \<Rightarrow> u16 \<Rightarrow> u16 \<Rightarrow> ipfix_lo_template res" where
  "init_template mem p tid fc =
     (let n = 8 * unat fc + 8 in
      on_fields (template_header p tid fc)
        \<lparr>tstate = T_UNCLEAN, template_id = tid, field_count = fc, fields_added = 0,
         fields_length = 8, max_fields_length = n, template_fields = Some (map mem [0..<n])\<rparr>)"

definition ipfix_enterprise_flag_set :: "u16 \<Rightarrow> bool" where
  "ipfix_enterprise_flag_set i \<longleftrightarrow> i AND IPFIX_ENTERPRISE_BIT = IPFIX_ENTERPRISE_BIT"

definition field_specifier :: "nat \<Rightarrow> nat \<Rightarrow> u16 \<Rightarrow> u16 \<Rightarrow> bool \<Rightarrow> u32 \<Rightarrow> bytes \<Rightarrow> bytes res" where
  "field_specifier p_pos p_end typ l enterprise_specific eid m =
     res_bind (write_extension_and_fieldID m p_pos p_end typ) (\<lambda>(r, m1, p1).
       res_bind (write_unsigned16 m1 p1 p_end l) (\<lambda>(r, m2, p2).
         if enterprise_specific
         then res_bind (write_unsigned32 m2 p2 p_end eid) (\<lambda>(r, m3, p3). Inr m3)
         else Inr m2))"

definition put_template_field_arr :: "u16 \<Rightarrow> u16 \<Rightarrow> u16 \<Rightarrow> u32 \<Rightarrow> ipfix_lo_template list
    \<Rightarrow> (int \<times> ipfix_lo_template list) res" where
  "put_template_field_arr tid typ l eid ts =
     (let es = (eid \<noteq> 0 \<or> ipfix_enterprise_flag_set typ);
          typ' = (if es then typ OR IPFIX_ENTERPRISE_BIT else typ)
      in (case ipfix_find_template tid ts of
            None \<Rightarrow> Inr (-1, ts)
          | Some i \<Rightarrow>
              let t = ts ! i in
              if fields_added t \<ge> field_count t then Inr (-1, ts)
              else res_bind (on_fields (field_specifier (fields_length t) (max_fields_length t) typ' l es eid) t)
                (\<lambda>t'. Inr (0, ts[i := t'\<lparr>fields_length := fields_length t' + (if es then 8 else 4),
                                         fields_added := fields_added t' + 1\<rparr>]))))"

definition end_template_arr :: "u16 \<Rightarrow> ipfix_lo_template list \<Rightarrow> (int \<times> ipfix_lo_template list) res" where
  "end_template_arr tid ts =
     (case ipfix_find_template tid ts of
        None \<Rightarrow> Inr (-1, ts)
      | Some i \<Rightarrow>
          let t = ts ! i in
          if fields_added t \<noteq> field_count t
          then Inr (-1, ts[i := snd (ipfix_deinit_template t)])
          else let n = fields_length t;
                   t1 = t\<lparr>template_fields := map_option (take n) (template_fields t), max_fields_length := n\<rparr>
               in res_bind (on_fields (\<lambda>m. res_bind (write_unsigned16 m 2 n (of_nat n)) (\<lambda>(r, m', p). Inr m')) t1)
                    (\<lambda>t2. Inr (0, ts[i := t2\<lparr>tstate := T_COMMITED\<rparr>])))"

text \<open>The calls on the exporter. A new template is due for UDP collectors at once.\<close>

definition ipfix_remove_template :: "u16 \<Rightarrow> ipfix_exporter \<Rightarrow> (int \<times> ipfix_exporter) res" where
  "ipfix_remove_template tid ex =
     res_bind (remove_template_arr tid (template_arr ex)) (\<lambda>(r, ts). Inr (r, ex\<lparr>template_arr := ts\<rparr>))"

definition ipfix_put_template_field :: "u16 \<Rightarrow> u16 \<Rightarrow> u16 \<Rightarrow> u32 \<Rightarrow> ipfix_exporter
    \<Rightarrow> (int \<times> ipfix_exporter) res" where
  "ipfix_put_template_field tid typ l eid ex =
     res_bind (put_template_field_arr tid typ l eid (template_arr ex)) (\<lambda>(r, ts).
       Inr (r, ex\<lparr>template_arr := ts\<rparr>))"

definition ipfix_end_template :: "u16 \<Rightarrow> ipfix_exporter \<Rightarrow> (int \<times> ipfix_exporter) res" where
  "ipfix_end_template tid ex =
     res_bind (end_template_arr tid (template_arr ex)) (\<lambda>(r, ts).
       Inr (r, if r = 0 then ex\<lparr>template_arr := ts, last_template_transmission_time := 0\<rparr>
               else ex\<lparr>template_arr := ts\<rparr>))"

section \<open>The template send buffers\<close>

definition push_template :: "nat \<Rightarrow> ipfix_lo_template \<Rightarrow> ipfix_sendbuffer \<Rightarrow> ipfix_sendbuffer res" where
  "push_template i t b =
     res_bind (put_entry (current b) \<lparr>iov_base = IovTemplate i, iov_len = fields_length t\<rparr> b) (\<lambda>b1.
       Inr (b1\<lparr>current := current b1 + 1,
               committed_data_length := committed_data_length b1 + of_nat (fields_length t),
               record_count := record_count b1 + 1\<rparr>))"

text \<open>
  The loop of \<open>ipfix_update_template_sendbuffer\<close> over the templates from index
  \<open>i\<close> on: the return value, the templates, the buffer for UDP and files and the one
  for SCTP.
\<close>

definition buffer_full :: "ipfix_sendbuffer \<Rightarrow> bool" where
  "buffer_full b \<longleftrightarrow> current b \<ge> IPFIX_MAX_SENDBUFSIZE - 2"

fun update_loop :: "nat \<Rightarrow> ipfix_lo_template list \<Rightarrow> ipfix_sendbuffer \<Rightarrow> ipfix_sendbuffer
    \<Rightarrow> (int \<times> ipfix_lo_template list \<times> ipfix_sendbuffer \<times> ipfix_sendbuffer) res" where
  "update_loop i [] tb sb = Inr (0, [], tb, sb)"
| "update_loop i (t # ts) tb sb =
     (let continue = (\<lambda>t' tb' sb'. res_bind (update_loop (i + 1) ts tb' sb') (\<lambda>(r, ts', tb2, sb2).
            Inr (r, t' # ts', tb2, sb2)));
          stop = Inr (-1, t # ts, tb, sb)
      in (case tstate t of
            T_TOBEDELETED \<Rightarrow> continue (snd (ipfix_deinit_template t)) tb sb
          | T_COMMITED \<Rightarrow>
              if buffer_full sb then stop
              else if buffer_full tb then stop
              else res_bind (push_template i t sb) (\<lambda>sb1. res_bind (push_template i t tb) (\<lambda>tb1.
                     continue (t\<lparr>tstate := T_SENT\<rparr>) tb1 sb1))
          | T_SENT \<Rightarrow>
              if buffer_full tb then stop
              else res_bind (push_template i t tb) (\<lambda>tb1. continue t tb1 sb)
          | T_WITHDRAWN \<Rightarrow>
              if buffer_full sb then stop
              else res_bind (push_template i t sb) (\<lambda>sb1. continue (t\<lparr>tstate := T_TOBEDELETED\<rparr>) tb sb1)
          | T_UNUSED \<Rightarrow> continue t tb sb
          | T_UNCLEAN \<Rightarrow> continue t tb sb))"

definition ipfix_update_template_sendbuffer :: "ipfix_exporter \<Rightarrow> (int \<times> ipfix_exporter) res" where
  "ipfix_update_template_sendbuffer ex =
     res_bind (update_loop 0 (template_arr ex) (ipfix_reset_sendbuffer (template_sendbuffer ex))
         (ipfix_reset_sendbuffer (sctp_template_sendbuffer ex))) (\<lambda>(r, ts, tb, sb).
       Inr (r, ex\<lparr>template_arr := ts, template_sendbuffer := tb, sctp_template_sendbuffer := sb\<rparr>))"

section \<open>Memory safety of the template calls\<close>

definition template_inv :: "ipfix_lo_template \<Rightarrow> bool" where
  "template_inv t \<longleftrightarrow> tstate t = T_UNUSED \<or>
     (\<exists>m. template_fields t = Some m \<and> length m = max_fields_length t \<and> 8 \<le> fields_length t \<and>
        fields_added t \<le> field_count t \<and>
        fields_length t + 8 * (unat (field_count t) - unat (fields_added t)) \<le> max_fields_length t)"

definition templates_inv :: "ipfix_lo_template list \<Rightarrow> bool" where
  "templates_inv ts \<longleftrightarrow> (\<forall>t \<in> set ts. template_inv t)"

lemma find_index_Some:
  "find_index P xs i = Some k \<Longrightarrow> i \<le> k \<and> k < i + length xs \<and> P (xs ! (k - i))"
proof (induction xs arbitrary: i)
  case Nil
  then show ?case by simp
next
  case (Cons x xs)
  show ?case
  proof (cases "P x")
    case True
    with Cons.prems show ?thesis by simp
  next
    case False
    with Cons.IH [of "Suc i"] Cons.prems show ?thesis
      by (auto simp: nth_Cons' Suc_diff_Suc)
  qed
qed

lemma find_template_Some:
  assumes "ipfix_find_template tid ts = Some i"
  shows "i < length ts" "tstate (ts ! i) \<noteq> T_UNUSED" "template_id (ts ! i) = tid"
  using find_index_Some [OF assms [unfolded ipfix_find_template_def]] by auto

lemma write_unsigned16_in:
  "p + 2 \<le> e \<Longrightarrow> e \<le> length m \<Longrightarrow> write_unsigned16 m p e v = Inr (0, put_bytes m p (htons_bytes v), p + 2)"
  by (rule unsigned16.wr_ok)

lemma write_unsigned32_in:
  "p + 4 \<le> e \<Longrightarrow> e \<le> length m \<Longrightarrow> write_unsigned32 m p e v = Inr (0, put_bytes m p (htonl_bytes v), p + 4)"
  by (rule unsigned32.wr_ok)

lemma write_fieldID_in:
  "p + 2 \<le> e \<Longrightarrow> e \<le> length m \<Longrightarrow>
     write_extension_and_fieldID m p e v = Inr (0, put_bytes m p (htons_bytes v), p + 2)"
  by (rule fieldID.wr_ok)

lemmas writers_in = write_unsigned16_in write_unsigned32_in write_fieldID_in

lemma put_bytes_append:
  "length xs = i \<Longrightarrow> length ys = length bs \<Longrightarrow> put_bytes (xs @ ys @ zs) i bs = xs @ bs @ zs"
  by (simp add: put_bytes_def)

lemma templates_inv_update: "templates_inv ts \<Longrightarrow> template_inv t \<Longrightarrow> templates_inv (ts[i := t])"
  using set_update_subset_insert [of ts i t] by (auto simp: templates_inv_def)

lemma templates_inv_nth: "templates_inv ts \<Longrightarrow> i < length ts \<Longrightarrow> template_inv (ts ! i)"
  by (simp add: templates_inv_def)

lemma template_inv_used:
  assumes "template_inv t" and "tstate t \<noteq> T_UNUSED"
  obtains m where "template_fields t = Some m" "length m = max_fields_length t" "8 \<le> fields_length t"
    "unat (fields_added t) \<le> unat (field_count t)"
    "fields_length t + 8 * (unat (field_count t) - unat (fields_added t)) \<le> max_fields_length t"
  using assms by (auto simp: template_inv_def word_le_nat_alt)

lemma deinit_inv: "template_inv (snd (ipfix_deinit_template t))"
  by (simp add: template_inv_def ipfix_deinit_template_def)

lemma remove_template_arr_inv:
  assumes "templates_inv ts"
  shows "outcome (\<lambda>_. False) (\<lambda>(r, ts'). templates_inv ts' \<and> length ts' = length ts) (remove_template_arr tid ts)"
proof (cases "ipfix_find_template tid ts")
  case None
  then show ?thesis using assms by (simp add: remove_template_arr_def)
next
  case (Some i)
  note i = find_template_Some [OF Some]
  show ?thesis
  proof (cases "tstate (ts ! i) = T_SENT")
    case False
    then show ?thesis
      using Some assms by (simp add: remove_template_arr_def templates_inv_update deinit_inv)
  next
    case True
    obtain m where m: "template_fields (ts ! i) = Some m" "length m = max_fields_length (ts ! i)"
        "8 \<le> max_fields_length (ts ! i)"
      using template_inv_used [OF templates_inv_nth [OF assms i(1)] i(2)] by (metis le_trans le_add1)
    then have "withdrawal_bytes m = Inr (put_bytes (put_bytes m 2 (htons_bytes 8)) 6 (htons_bytes 0))"
      by (simp add: withdrawal_bytes_def writers_in)
    then show ?thesis
      using Some True m assms
      by (simp add: remove_template_arr_def on_fields_def)
        (rule templates_inv_update, assumption, simp add: template_inv_def)
  qed
qed

lemma put_put:
  "q = p + length a \<Longrightarrow> p + length a \<le> length m \<Longrightarrow> put_bytes (put_bytes m p a) q b = put_bytes m p (a @ b)"
  by (cases a) (auto simp: put_bytes_def min_def ac_simps)

lemma field_specifier_in:
  assumes "pos + (if es then 8 else 4) \<le> e" and "e \<le> length m"
  shows "field_specifier pos e typ l es eid m =
    Inr (put_bytes m pos (htons_bytes typ @ htons_bytes l @ (if es then htonl_bytes eid else [])))"
proof (cases es)
  case True
  have "put_bytes (put_bytes (put_bytes m pos (htons_bytes typ)) (pos + 2) (htons_bytes l)) (pos + 2 + 2) (htonl_bytes eid) =
      put_bytes m pos (htons_bytes typ @ htons_bytes l @ htonl_bytes eid)"
    using assms True by (simp add: put_put)
  then show ?thesis
    using assms True by (simp add: field_specifier_def write_unsigned16_in write_unsigned32_in write_fieldID_in del: add_2_eq_Suc add_2_eq_Suc')
next
  case False
  have "put_bytes (put_bytes m pos (htons_bytes typ)) (pos + 2) (htons_bytes l) =
      put_bytes m pos (htons_bytes typ @ htons_bytes l)"
    using assms False by (simp add: put_put)
  then show ?thesis
    using assms False by (simp add: field_specifier_def writers_in del: add_2_eq_Suc add_2_eq_Suc')
qed

lemma put_template_field_arr_inv:
  assumes "templates_inv ts"
  shows "outcome (\<lambda>_. False) (\<lambda>(r, ts'). templates_inv ts' \<and> length ts' = length ts)
    (put_template_field_arr tid typ l eid ts)"
proof (cases "ipfix_find_template tid ts")
  case None
  then show ?thesis using assms by (simp add: put_template_field_arr_def)
next
  case (Some i)
  note i = find_template_Some [OF Some]
  let ?t = "ts ! i"
  show ?thesis
  proof (cases "fields_added ?t \<ge> field_count ?t")
    case True
    then show ?thesis using Some assms by (simp add: put_template_field_arr_def Let_def)
  next
    case False
    obtain m where m: "template_fields ?t = Some m" "length m = max_fields_length ?t" "8 \<le> fields_length ?t"
        "fields_length ?t + 8 * (unat (field_count ?t) - unat (fields_added ?t)) \<le> max_fields_length ?t"
      using template_inv_used [OF templates_inv_nth [OF assms i(1)] i(2)] by metis
    have lt: "unat (fields_added ?t) < unat (field_count ?t)" using False by (simp add: word_le_nat_alt not_le)
    then have u: "unat (fields_added ?t + 1) = unat (fields_added ?t) + 1"
      using u16_lt [of "field_count ?t"] by (simp add: unat_word_ariths)
    have sp: "fields_length ?t + 8 \<le> max_fields_length ?t" using m(4) lt by linarith
    define es where "es = (eid \<noteq> 0 \<or> ipfix_enterprise_flag_set typ)"
    define bs where "bs = htons_bytes (if es then typ OR IPFIX_ENTERPRISE_BIT else typ) @ htons_bytes l @
      (if es then htonl_bytes eid else [])"
    have f: "field_specifier (fields_length ?t) (max_fields_length ?t) (if es then typ OR IPFIX_ENTERPRISE_BIT else typ)
        l es eid m = Inr (put_bytes m (fields_length ?t) bs)"
      unfolding bs_def using sp m(2) by (intro field_specifier_in) auto
    have "length bs \<le> 8" by (simp add: bs_def)
    define n :: nat where "n = (if es then 8 else 4)"
    let ?t' = "?t\<lparr>template_fields := Some (put_bytes m (fields_length ?t) bs),
      fields_length := fields_length ?t + n, fields_added := fields_added ?t + 1\<rparr>"
    have "n \<le> 8" by (simp add: n_def)
    have "template_inv ?t'"
      unfolding template_inv_def using m lt u sp \<open>length bs \<le> 8\<close> \<open>n \<le> 8\<close>
      by (auto simp: word_le_nat_alt)
    moreover have "put_template_field_arr tid typ l eid ts = Inr (0, ts[i := ?t'])"
      unfolding put_template_field_arr_def Let_def es_def [symmetric] n_def [symmetric]
      using Some False m(1) f by (simp add: on_fields_def)
    ultimately show ?thesis using assms by (simp add: templates_inv_update)
  qed
qed

lemma end_template_arr_inv:
  assumes "templates_inv ts"
  shows "outcome (\<lambda>_. False) (\<lambda>(r, ts'). templates_inv ts' \<and> length ts' = length ts) (end_template_arr tid ts)"
proof (cases "ipfix_find_template tid ts")
  case None
  then show ?thesis using assms by (simp add: end_template_arr_def)
next
  case (Some i)
  note i = find_template_Some [OF Some]
  let ?t = "ts ! i"
  show ?thesis
  proof (cases "fields_added ?t = field_count ?t")
    case False
    then show ?thesis using Some assms by (simp add: end_template_arr_def Let_def templates_inv_update deinit_inv)
  next
    case True
    obtain m where m: "template_fields ?t = Some m" "length m = max_fields_length ?t" "8 \<le> fields_length ?t"
        "fields_length ?t \<le> max_fields_length ?t"
      using template_inv_used [OF templates_inv_nth [OF assms i(1)] i(2)] by (metis le_add1 le_trans)
    let ?m = "put_bytes (take (fields_length ?t) m) 2 (htons_bytes (of_nat (fields_length ?t)))"
    let ?t' = "?t\<lparr>max_fields_length := fields_length ?t, template_fields := Some ?m, tstate := T_COMMITED\<rparr>"
    have "end_template_arr tid ts = Inr (0, ts[i := ?t'])"
      using Some True m by (simp add: end_template_arr_def Let_def on_fields_def writers_in)
    moreover have "template_inv ?t'"
      unfolding template_inv_def using m True by auto
    ultimately show ?thesis using assms by (simp add: templates_inv_update)
  qed
qed

section \<open>The bytes of a template\<close>

text \<open>A field of a template as it is passed to \<open>ipfix_put_template_field\<close>: type, length, enterprise number.\<close>

type_synonym tfield = "u16 \<times> u16 \<times> u32"

definition spec_bytes :: "tfield \<Rightarrow> bytes" where
  "spec_bytes = (\<lambda>(typ, l, eid).
     if eid \<noteq> 0 \<or> ipfix_enterprise_flag_set typ
     then htons_bytes (typ OR IPFIX_ENTERPRISE_BIT) @ htons_bytes l @ htonl_bytes eid
     else htons_bytes typ @ htons_bytes l)"

definition template_set_id :: "export_protocol_version \<Rightarrow> u16" where
  "template_set_id p = (case p of NFV9_PROTOCOL \<Rightarrow> 0 | IPFIX_PROTOCOL \<Rightarrow> 2)"

definition template_set_bytes :: "export_protocol_version \<Rightarrow> nat \<Rightarrow> u16 \<Rightarrow> u16 \<Rightarrow> tfield list \<Rightarrow> bytes" where
  "template_set_bytes p n tid fc fs =
     htons_bytes (template_set_id p) @ htons_bytes (of_nat n) @ htons_bytes tid @ htons_bytes fc @
     concat (map spec_bytes fs)"

lemma length_spec_bytes: "length (spec_bytes f) \<le> 8" "4 \<le> length (spec_bytes f)"
  by (auto simp: spec_bytes_def split: prod.split)

lemma length_specs: "length (concat (map spec_bytes fs)) \<le> 8 * length fs"
  by (induction fs) (use length_spec_bytes(1) in \<open>auto intro: add_mono\<close>)

text \<open>A template to which the fields \<open>fs\<close> have been added so far.\<close>

definition building :: "export_protocol_version \<Rightarrow> u16 \<Rightarrow> u16 \<Rightarrow> tfield list \<Rightarrow> ipfix_lo_template \<Rightarrow> bool" where
  "building p tid fc fs t \<longleftrightarrow>
     tstate t = T_UNCLEAN \<and> template_id t = tid \<and> field_count t = fc \<and>
     fields_added t = of_nat (length fs) \<and> length fs \<le> unat fc \<and>
     fields_length t = length (template_set_bytes p 0 tid fc fs) \<and>
     max_fields_length t = 8 * unat fc + 8 \<and>
     (\<exists>rest. template_fields t = Some (template_set_bytes p 0 tid fc fs @ rest) \<and>
        length (template_set_bytes p 0 tid fc fs @ rest) = max_fields_length t)"

lemma put_bytes_0: "length ys = length bs \<Longrightarrow> put_bytes (ys @ zs) 0 bs = bs @ zs"
  by (simp add: put_bytes_def)

lemma template_header_bytes:
  assumes "8 \<le> length m"
  shows "template_header p tid fc m = Inr (template_set_bytes p 0 tid fc [] @ drop 8 m)"
proof -
  have "put_bytes (put_bytes (put_bytes (put_bytes m 0 (htons_bytes a)) (0 + 2) (htons_bytes b)) (0 + 2 + 2) (htons_bytes c))
      (0 + 2 + 2 + 2) (htons_bytes d) = put_bytes m 0 (htons_bytes a @ htons_bytes b @ htons_bytes c @ htons_bytes d)"
    for a b c d
    using assms by (simp add: put_put)
  then show ?thesis
    using assms unfolding template_header_def Let_def template_set_bytes_def template_set_id_def
    by (simp add: write_unsigned16_in del: add_2_eq_Suc add_2_eq_Suc' add_0 add_0_left) (simp add: put_bytes_def)
qed

lemma building_init:
  "\<exists>t. init_template mem p tid fc = Inr t \<and> building p tid fc [] t"
proof -
  let ?m = "map mem [0..<8 * unat fc + 8]"
  have "template_header p tid fc ?m = Inr (template_set_bytes p 0 tid fc [] @ drop 8 ?m)"
    by (rule template_header_bytes) simp
  then show ?thesis
    by (simp add: init_template_def on_fields_def building_def Let_def) (simp add: template_set_bytes_def)
qed

lemma put_template_field_arr_step:
  assumes "ipfix_find_template tid ts = Some i" and "building p tid fc fs (ts ! i)" and "length fs < unat fc"
  shows "\<exists>t'. put_template_field_arr tid typ l eid ts = Inr (0, ts[i := t']) \<and>
    building p tid fc (fs @ [(typ, l, eid)]) t'"
proof -
  let ?t = "ts ! i"
  let ?b = "template_set_bytes p 0 tid fc fs"
  obtain rest where t: "tstate ?t = T_UNCLEAN" "template_id ?t = tid" "field_count ?t = fc"
      "fields_added ?t = of_nat (length fs)" "fields_length ?t = length ?b" "max_fields_length ?t = 8 * unat fc + 8"
      "template_fields ?t = Some (?b @ rest)" "length (?b @ rest) = 8 * unat fc + 8"
    using assms(2) by (auto simp: building_def)
  define es where "es = (eid \<noteq> 0 \<or> ipfix_enterprise_flag_set typ)"
  define bs where "bs = spec_bytes (typ, l, eid)"
  have bs: "bs = htons_bytes (if es then typ OR IPFIX_ENTERPRISE_BIT else typ) @ htons_bytes l @
      (if es then htonl_bytes eid else [])"
    by (simp add: bs_def spec_bytes_def es_def)
  have lbs: "length bs = (if es then 8 else 4)" by (simp add: bs)
  have "length ?b \<le> 8 + 8 * length fs"
    using length_specs [of fs] by (simp add: template_set_bytes_def)
  then have sp: "length ?b + 8 \<le> 8 * unat fc + 8" using assms(3) by linarith
  have n: "length fs < 65535" using assms(3) u16_lt [of fc] by simp
  have "\<not> fc \<le> of_nat (length fs)"
    using assms(3) n by (simp add: word_le_nat_alt unat_of_nat)
  have f: "field_specifier (length ?b) (8 * unat fc + 8) (if es then typ OR IPFIX_ENTERPRISE_BIT else typ)
      l es eid (?b @ rest) = Inr (put_bytes (?b @ rest) (length ?b) bs)"
    unfolding bs using sp t(8) by (intro field_specifier_in) auto
  have pb: "put_bytes (?b @ rest) (length ?b) bs = ?b @ bs @ drop (length bs) rest"
    by (simp add: put_bytes_def)
  have app: "?b @ bs = template_set_bytes p 0 tid fc (fs @ [(typ, l, eid)])"
    by (simp add: template_set_bytes_def bs_def)
  have lrest: "length bs \<le> length rest" using sp t(8) lbs by (simp split: if_splits)
  let ?t' = "?t\<lparr>template_fields := Some (?b @ bs @ drop (length bs) rest),
    fields_length := length ?b + length bs, fields_added := of_nat (length fs) + 1\<rparr>"
  have "put_template_field_arr tid typ l eid ts = Inr (0, ts[i := ?t'])"
    unfolding put_template_field_arr_def Let_def es_def [symmetric] lbs [symmetric]
    using assms(1) t \<open>\<not> fc \<le> of_nat (length fs)\<close> f pb by (simp add: on_fields_def)
  moreover have "building p tid fc (fs @ [(typ, l, eid)]) ?t'"
    unfolding building_def app [symmetric] using t assms(3) lrest by simp
  ultimately show ?thesis by blast
qed

lemma end_template_arr_step:
  assumes "ipfix_find_template tid ts = Some i" and "building p tid fc fs (ts ! i)" and "length fs = unat fc"
  shows "\<exists>t'. end_template_arr tid ts = Inr (0, ts[i := t']) \<and> tstate t' = T_COMMITED \<and> template_id t' = tid \<and>
    (let n = length (template_set_bytes p 0 tid fc fs) in
       fields_length t' = n \<and> template_fields t' = Some (template_set_bytes p n tid fc fs))"
proof -
  let ?t = "ts ! i"
  let ?b = "template_set_bytes p 0 tid fc fs"
  obtain rest where t: "template_id ?t = tid" "field_count ?t = fc"
      "fields_added ?t = of_nat (length fs)" "fields_length ?t = length ?b"
      "template_fields ?t = Some (?b @ rest)"
    using assms(2) by (auto simp: building_def)
  have fa: "fields_added ?t = field_count ?t" using t assms(3) by simp
  have lb: "8 \<le> length ?b" by (simp add: template_set_bytes_def)
  let ?m = "put_bytes ?b 2 (htons_bytes (of_nat (length ?b)))"
  have "?m = template_set_bytes p (length ?b) tid fc fs"
    by (simp add: put_bytes_def template_set_bytes_def)
  let ?t' = "?t\<lparr>max_fields_length := length ?b, template_fields := Some ?m, tstate := T_COMMITED\<rparr>"
  have "end_template_arr tid ts = Inr (0, ts[i := ?t'])"
    using assms(1) fa t lb by (simp add: end_template_arr_def Let_def on_fields_def writers_in)
  then show ?thesis
    using t \<open>?m = _\<close> by (intro exI [of _ ?t']) (simp add: Let_def)
qed

lemma find_index_first:
  "find_index P xs i = Some (i + k) \<longleftrightarrow> k < length xs \<and> P (xs ! k) \<and> (\<forall>j < k. \<not> P (xs ! j))"
proof (induction xs arbitrary: i k)
  case Nil
  then show ?case by simp
next
  case (Cons x xs)
  show ?case
  proof (cases k)
    case 0
    have "find_index P xs (i + 1) \<noteq> Some i" using find_index_Some [of P xs "i + 1" i] by auto
    with 0 show ?thesis by auto
  next
    case (Suc m)
    with Cons.IH [of "i + 1" m] show ?thesis by (auto simp: less_Suc_eq_0_disj)
  qed
qed

lemma find_template_update:
  assumes "ipfix_find_template tid ts = Some i" and "tstate t \<noteq> T_UNUSED" and "template_id t = tid"
  shows "ipfix_find_template tid (ts[i := t]) = Some i"
  using assms unfolding ipfix_find_template_def find_index_first [where i = 0 and k = i, simplified] by simp

text \<open>The fields of a template, one call of \<open>ipfix_put_template_field\<close> after the other.\<close>

fun put_fields :: "u16 \<Rightarrow> tfield list \<Rightarrow> ipfix_lo_template list \<Rightarrow> ipfix_lo_template list res" where
  "put_fields tid [] ts = Inr ts"
| "put_fields tid ((typ, l, eid) # fs) ts =
     res_bind (put_template_field_arr tid typ l eid ts) (\<lambda>(r, ts'). put_fields tid fs ts')"

lemma put_fields_building:
  assumes "ipfix_find_template tid ts = Some i" and "building p tid fc gs (ts ! i)"
    and "length gs + length fs \<le> unat fc"
  shows "\<exists>t'. put_fields tid fs ts = Inr (ts[i := t']) \<and> building p tid fc (gs @ fs) t'"
  using assms
proof (induction fs arbitrary: ts gs)
  case Nil
  then show ?case by (intro exI [of _ "ts ! i"]) simp
next
  case (Cons f fs)
  obtain ty l eid where f: "f = (ty, l, eid)" by (cases f)
  obtain t' where t': "put_template_field_arr tid ty l eid ts = Inr (0, ts[i := t'])"
      "building p tid fc (gs @ [f]) t'"
    using put_template_field_arr_step [OF Cons.prems(1,2), of ty l eid] Cons.prems(3) f by auto
  have i: "i < length ts" using find_template_Some [OF Cons.prems(1)] by simp
  have "ipfix_find_template tid (ts[i := t']) = Some i"
    using t'(2) Cons.prems(1) by (intro find_template_update) (auto simp: building_def)
  moreover have "building p tid fc (gs @ [f]) (ts[i := t'] ! i)" using t'(2) i by simp
  ultimately show ?case
    using Cons.IH [of "ts[i := t']" "gs @ [f]"] Cons.prems(3) t'(1) f by simp
qed

section \<open>The contents of the template send buffers\<close>

definition tiov :: "nat \<times> nat \<Rightarrow> iovec" where
  "tiov = (\<lambda>(j, n). \<lparr>iov_base = IovTemplate j, iov_len = n\<rparr>)"

text \<open>A buffer that holds the given templates: indices and numbers of bytes.\<close>

definition tbuf :: "export_protocol_version \<Rightarrow> ipfix_sendbuffer \<Rightarrow> (nat \<times> nat) list \<Rightarrow> bool" where
  "tbuf p b js \<longleftrightarrow>
     entries b 0 = \<lparr>iov_base = IovHeader, iov_len = sizeof_header p\<rparr> \<and>
     current b = 1 + length js \<and> iovs_at (entries b) 1 (map tiov js) \<and>
     committed_data_length b = of_nat (sum_list (map snd js)) \<and> record_count b = of_nat (length js)"

text \<open>UDP collectors and files get every active template, SCTP collectors the changes.\<close>

fun udp_items :: "nat \<Rightarrow> ipfix_lo_template list \<Rightarrow> (nat \<times> nat) list" where
  "udp_items i [] = []"
| "udp_items i (t # ts) =
     (if tstate t = T_COMMITED \<or> tstate t = T_SENT then [(i, fields_length t)] else []) @ udp_items (i + 1) ts"

fun sctp_items :: "nat \<Rightarrow> ipfix_lo_template list \<Rightarrow> (nat \<times> nat) list" where
  "sctp_items i [] = []"
| "sctp_items i (t # ts) =
     (if tstate t = T_COMMITED \<or> tstate t = T_WITHDRAWN then [(i, fields_length t)] else []) @ sctp_items (i + 1) ts"

definition next_template :: "ipfix_lo_template \<Rightarrow> ipfix_lo_template" where
  "next_template t =
     (case tstate t of
        T_COMMITED \<Rightarrow> t\<lparr>tstate := T_SENT\<rparr>
      | T_WITHDRAWN \<Rightarrow> t\<lparr>tstate := T_TOBEDELETED\<rparr>
      | T_TOBEDELETED \<Rightarrow> t\<lparr>tstate := T_UNUSED, template_fields := None\<rparr>
      | _ \<Rightarrow> t)"

lemma push_template_tbuf:
  assumes "tbuf p b js" and "current b < IPFIX_MAX_SENDBUFSIZE"
  shows "\<exists>b'. push_template i t b = Inr b' \<and> tbuf p b' (js @ [(i, fields_length t)]) \<and>
    ipfix_message_header b' = ipfix_message_header b"
  using assms
  by (auto simp: tbuf_def push_template_def put_entry_def iovs_at_append iovs_at_upd tiov_def)

lemma reset_tbuf:
  "entries b 0 = \<lparr>iov_base = IovHeader, iov_len = sizeof_header p\<rparr> \<Longrightarrow> tbuf p (ipfix_reset_sendbuffer b) []"
  by (simp add: tbuf_def ipfix_reset_sendbuffer_def HEADER_USED_IOVEC_COUNT_def)

lemma update_loop_tbuf:
  assumes "tbuf p tb js" and "tbuf p sb ks" and "length js + length ts < IPFIX_MAX_SENDBUFSIZE - 3"
    and "length ks + length ts < IPFIX_MAX_SENDBUFSIZE - 3"
  shows "\<exists>tb' sb'. update_loop i ts tb sb = Inr (0, map next_template ts, tb', sb') \<and>
    tbuf p tb' (js @ udp_items i ts) \<and> tbuf p sb' (ks @ sctp_items i ts) \<and>
    ipfix_message_header tb' = ipfix_message_header tb \<and> ipfix_message_header sb' = ipfix_message_header sb"
  using assms
proof (induction ts arbitrary: i tb sb js ks)
  case Nil
  then show ?case by simp
next
  case (Cons t ts)
  have cur: "current tb = 1 + length js" "current sb = 1 + length ks"
    using Cons.prems(1,2) by (simp_all add: tbuf_def)
  have nf: "\<not> buffer_full tb" "\<not> buffer_full sb"
    using Cons.prems(3,4) by (simp_all add: buffer_full_def cur)
  have lt: "current tb < IPFIX_MAX_SENDBUFSIZE" "current sb < IPFIX_MAX_SENDBUFSIZE"
    using Cons.prems(3,4) by (simp_all add: cur)
  obtain tb1 where tb1: "push_template i t tb = Inr tb1" "tbuf p tb1 (js @ [(i, fields_length t)])"
      "ipfix_message_header tb1 = ipfix_message_header tb"
    using push_template_tbuf [OF Cons.prems(1) lt(1)] by blast
  obtain sb1 where sb1: "push_template i t sb = Inr sb1" "tbuf p sb1 (ks @ [(i, fields_length t)])"
      "ipfix_message_header sb1 = ipfix_message_header sb"
    using push_template_tbuf [OF Cons.prems(2) lt(2)] by blast
  note IH = Cons.IH [of tb js sb ks "i + 1"] Cons.IH [of tb1 _ sb ks "i + 1", OF tb1(2)]
    Cons.IH [of tb js sb1 _ "i + 1", OF _ sb1(2)] Cons.IH [of tb1 _ sb1 _ "i + 1", OF tb1(2) sb1(2)]
  show ?case
  proof (cases "tstate t")
    case T_UNUSED
    with IH(1) Cons.prems show ?thesis by (auto simp: next_template_def)
  next
    case T_UNCLEAN
    with IH(1) Cons.prems show ?thesis by (auto simp: next_template_def)
  next
    case T_COMMITED
    with IH(4) Cons.prems tb1 sb1 nf show ?thesis by (auto simp: next_template_def)
  next
    case T_SENT
    with IH(2) Cons.prems tb1 nf show ?thesis by (auto simp: next_template_def)
  next
    case T_WITHDRAWN
    with IH(3) Cons.prems sb1 nf show ?thesis by (auto simp: next_template_def)
  next
    case T_TOBEDELETED
    with IH(1) Cons.prems show ?thesis by (auto simp: next_template_def ipfix_deinit_template_def)
  qed
qed

lemma next_template_inv: "template_inv t \<Longrightarrow> template_inv (next_template t)"
  by (auto simp: template_inv_def next_template_def split: template_state.split)

text \<open>The send buffers of an exporter start with the iovec of the message header.\<close>

definition buffers_ready :: "ipfix_exporter \<Rightarrow> bool" where
  "buffers_ready ex \<longleftrightarrow>
     entries (template_sendbuffer ex) 0 = \<lparr>iov_base = IovHeader, iov_len = sizeof_header (export_protocol ex)\<rparr> \<and>
     entries (sctp_template_sendbuffer ex) 0 =
       \<lparr>iov_base = IovHeader, iov_len = sizeof_header (export_protocol ex)\<rparr>"

lemma update_template_sendbuffer:
  assumes "buffers_ready ex" and "length (template_arr ex) \<le> IPFIX_MAX_TEMPLATES"
  shows "\<exists>tb sb. ipfix_update_template_sendbuffer ex =
      Inr (0, ex\<lparr>template_arr := map next_template (template_arr ex), template_sendbuffer := tb,
        sctp_template_sendbuffer := sb\<rparr>) \<and>
    tbuf (export_protocol ex) tb (udp_items 0 (template_arr ex)) \<and>
    tbuf (export_protocol ex) sb (sctp_items 0 (template_arr ex)) \<and>
    ipfix_message_header tb = zero_ipfix_header \<and> ipfix_message_header sb = zero_ipfix_header"
proof -
  let ?tb = "ipfix_reset_sendbuffer (template_sendbuffer ex)"
  let ?sb = "ipfix_reset_sendbuffer (sctp_template_sendbuffer ex)"
  have r: "tbuf (export_protocol ex) ?tb []" "tbuf (export_protocol ex) ?sb []"
    using assms(1) by (simp_all add: buffers_ready_def reset_tbuf)
  have n: "length ([] :: (nat \<times> nat) list) + length (template_arr ex) < IPFIX_MAX_SENDBUFSIZE - 3"
    using assms(2) by (simp add: IPFIX_MAX_TEMPLATES_def IPFIX_MAX_SENDBUFSIZE_def)
  obtain tb' sb' where u: "update_loop 0 (template_arr ex) ?tb ?sb = Inr (0, map next_template (template_arr ex), tb', sb')"
      "tbuf (export_protocol ex) tb' ([] @ udp_items 0 (template_arr ex))"
      "tbuf (export_protocol ex) sb' ([] @ sctp_items 0 (template_arr ex))"
      "ipfix_message_header tb' = ipfix_message_header ?tb" "ipfix_message_header sb' = ipfix_message_header ?sb"
    using update_loop_tbuf [OF r n n] by blast
  then show ?thesis
    by (intro exI [of _ tb'] exI [of _ sb'])
      (simp add: ipfix_update_template_sendbuffer_def ipfix_reset_sendbuffer_def)
qed

text \<open>
  C10: with at most 16 templates the refill of the template buffers never fails; afterwards the
  buffer for UDP collectors and files holds exactly the committed and the already sent
  templates, the buffer for SCTP collectors exactly the newly committed and the withdrawn ones,
  a committed template counts as sent and a withdrawn one is freed at the next refill.
\<close>

theorem update_sendbuffer_contents:
  assumes "buffers_ready ex" and "length (template_arr ex) \<le> IPFIX_MAX_TEMPLATES"
  shows "\<exists>ex'. ipfix_update_template_sendbuffer ex = Inr (0, ex') \<and>
    template_arr ex' = map next_template (template_arr ex) \<and>
    tbuf (export_protocol ex) (template_sendbuffer ex') (udp_items 0 (template_arr ex)) \<and>
    tbuf (export_protocol ex) (sctp_template_sendbuffer ex') (sctp_items 0 (template_arr ex))"
  using update_template_sendbuffer [OF assms] by auto

theorem update_sendbuffer_contents_witness:
  "\<exists>ex ex'. map tstate (template_arr ex) = [T_COMMITED, T_SENT, T_WITHDRAWN] \<and>
     ipfix_update_template_sendbuffer ex = Inr (0, ex') \<and>
     map tstate (template_arr ex') = [T_SENT, T_SENT, T_TOBEDELETED] \<and>
     tbuf IPFIX_PROTOCOL (template_sendbuffer ex') [(0, 12), (1, 12)] \<and>
     tbuf IPFIX_PROTOCOL (sctp_template_sendbuffer ex') [(0, 12), (2, 12)]"
proof -
  let ?t = "\<lambda>s. \<lparr>tstate = s, template_id = 256, field_count = 1, fields_added = 1, fields_length = 12,
     max_fields_length = 12, template_fields = Some []\<rparr>"
  let ?ex = "\<lparr>export_protocol = IPFIX_PROTOCOL, sequence_number = 0, sn_increment = 0, observation_domain_id = 1,
     start_time_ms = 0, max_message_size = 1400, template_sendbuffer = ipfix_init_sendbuffer undefined IPFIX_PROTOCOL,
     sctp_template_sendbuffer = ipfix_init_sendbuffer undefined IPFIX_PROTOCOL,
     data_sendbuffer = ipfix_init_sendbuffer undefined IPFIX_PROTOCOL,
     collector_arr = [], last_template_transmission_time = 0, template_transmission_timer = 20,
     sctp_lifetime = 0, sctp_reconnect_timer = 300, template_arr = [?t T_COMMITED, ?t T_SENT, ?t T_WITHDRAWN],
     transmitted = []\<rparr>"
  have "buffers_ready ?ex" by (simp add: buffers_ready_def ipfix_init_sendbuffer_def Let_def)
  moreover have "length (template_arr ?ex) \<le> IPFIX_MAX_TEMPLATES" by (simp add: IPFIX_MAX_TEMPLATES_def)
  ultimately obtain ex' where e: "ipfix_update_template_sendbuffer ?ex = Inr (0, ex')"
      "template_arr ex' = map next_template (template_arr ?ex)"
      "tbuf (export_protocol ?ex) (template_sendbuffer ex') (udp_items 0 (template_arr ?ex))"
      "tbuf (export_protocol ?ex) (sctp_template_sendbuffer ex') (sctp_items 0 (template_arr ?ex))"
    using update_sendbuffer_contents [of ?ex] by blast
  then have "tbuf IPFIX_PROTOCOL (template_sendbuffer ex') [(0, 12), (1, 12)]"
      "tbuf IPFIX_PROTOCOL (sctp_template_sendbuffer ex') [(0, 12), (2, 12)]"
      "map tstate (template_arr ex') = [T_SENT, T_SENT, T_TOBEDELETED]"
    by (simp_all add: next_template_def numeral_2_eq_2)
  moreover have "map tstate (template_arr ?ex) = [T_COMMITED, T_SENT, T_WITHDRAWN]" by simp
  ultimately show ?thesis using e(1) by (intro exI [where x = ?ex] exI [where x = ex']) simp
qed

end
