(* ===== verification/Exporter_Send.thy ===== *)
theory Exporter_Send
  imports Exporter_Template
begin

text \<open>
  Collectors and transmission of the exporter library (src/src/common/ipfixlolib/ipfixlolib.c):
  adding and removing collectors, the message header, the transmission of templates and data,
  the start of a template, and the life of an exporter.

  The operating system is the parameter \<open>os\<close> of a call: the clock, name conversion,
  sockets and files answer as they like, and may answer differently to every call and, within
  a call, at every step (the collector's index and the number of the system call are passed
  along). Allocation succeeds. The compile-time configuration is the default one: with SCTP,
  without DTLS and without RAWDIR. Freeing a pointer that is not to an allocated block is a
  fault.
\<close>

section \<open>The operating system\<close>

type_synonym moment = "nat \<times> nat"

datatype open_result = Opened int | OpenExists | OpenFailed
datatype recv_result = RecvFailed | RecvNothing | RecvUserData | RecvAssocChange bool | RecvOther

record os_env =
  time_of :: "moment \<Rightarrow> int"
  gettimeofday :: "moment \<Rightarrow> (int \<times> int) option"
  inet_pton :: "bool \<Rightarrow> string \<Rightarrow> bool"
  open_socket :: "moment \<Rightarrow> ipfix_transport_protocol \<Rightarrow> int"
  ip_mtu :: "moment \<Rightarrow> int \<Rightarrow> int"
  select_readable :: "moment \<Rightarrow> int \<Rightarrow> int"
  so_error :: "moment \<Rightarrow> int \<Rightarrow> int option"
  recv_notification :: "moment \<Rightarrow> int \<Rightarrow> recv_result"
  sctp_established :: "moment \<Rightarrow> int \<Rightarrow> bool option"
  sendmsg :: "moment \<Rightarrow> int \<Rightarrow> bytes \<Rightarrow> int \<times> bool"
  writev :: "moment \<Rightarrow> int \<Rightarrow> bytes \<Rightarrow> int"
  open_file :: "moment \<Rightarrow> string \<Rightarrow> open_result"
  iov_max :: nat

definition dangling_free :: fault where
  "dangling_free = Exception ''free of a pointer that is not allocated''"

definition on_collector :: "nat \<Rightarrow> (ipfix_receiving_collector \<Rightarrow> ipfix_receiving_collector)
    \<Rightarrow> ipfix_exporter \<Rightarrow> ipfix_exporter" where
  "on_collector i f ex = ex\<lparr>collector_arr := (collector_arr ex)[i := f (collector_arr ex ! i)]\<rparr>"

section \<open>Message header\<close>

definition millis :: "int \<times> int \<Rightarrow> int" where
  "millis tv = fst tv * 1000 + snd tv div 1000"

fun iov_len_sum :: "ipfix_sendbuffer \<Rightarrow> nat \<Rightarrow> nat \<Rightarrow> u16" where
  "iov_len_sum b i 0 = 0"
| "iov_len_sum b i (Suc n) = of_nat (iov_len (entries b i)) + iov_len_sum b (i + 1) n"

definition total_length :: "ipfix_sendbuffer \<Rightarrow> u16" where
  "total_length b =
     (if committed_data_length b \<noteq> 0 then ucast (committed_data_length b + 16)
      else iov_len_sum b 1 (current b - 1) + 16)"

definition ipfix_update_header :: "os_env \<Rightarrow> moment \<Rightarrow> ipfix_exporter \<Rightarrow> ipfix_receiving_collector
    \<Rightarrow> ipfix_sendbuffer \<Rightarrow> ipfix_sendbuffer" where
  "ipfix_update_header os k ex col b =
     (let now = (case gettimeofday os k of None \<Rightarrow> (0, 0) | Some tv \<Rightarrow> tv)
      in (case export_protocol ex of
            NFV9_PROTOCOL \<Rightarrow>
              b\<lparr>nfv9_message_header :=
                \<lparr>nh_version = protocol_number NFV9_PROTOCOL, nh_count = ucast (record_count b),
                 nh_sysUpTime = word_of_int (millis now - start_time_ms ex),
                 unix_secs = word_of_int (fst now), nh_sequence_number = messages_sent col,
                 nh_source_id = observation_domain_id ex\<rparr>\<rparr>
          | IPFIX_PROTOCOL \<Rightarrow>
              b\<lparr>ipfix_message_header :=
                \<lparr>ih_version = protocol_number IPFIX_PROTOCOL, ih_length = total_length b,
                 export_time = word_of_int (fst now), ih_sequence_number = sequence_number ex,
                 ih_observation_domain_id = observation_domain_id ex\<rparr>\<rparr>))"

section \<open>Data files\<close>

fun digits :: "nat \<Rightarrow> nat \<Rightarrow> string" where
  "digits 0 n = []"
| "digits (Suc w) n = digits w (n div 10) @ [char_of (48 + n mod 10)]"

text \<open>
  \<open>sprintf(filename, "%s%010d", basename, filenum)\<close>: the file numbers are not negative
  and have at most ten digits.
\<close>

definition file_name :: "string \<Rightarrow> nat \<Rightarrow> string" where
  "file_name base n = base @ digits 10 n"

partial_function (option) new_file_loop :: "(string \<Rightarrow> open_result) \<Rightarrow> string \<Rightarrow> nat \<Rightarrow> (int \<times> nat) option" where
  "new_file_loop opn base n =
     (case opn (file_name base n) of
        Opened f \<Rightarrow> Some (f, n)
      | OpenFailed \<Rightarrow> Some (-1, n)
      | OpenExists \<Rightarrow> new_file_loop opn base (n + 1))"

definition ipfix_new_file :: "os_env \<Rightarrow> moment \<Rightarrow> ipfix_receiving_collector \<Rightarrow> ipfix_receiving_collector res" where
  "ipfix_new_file os k col =
     (case basename col of
        None \<Rightarrow> Inl OutOfBounds
      | Some base \<Rightarrow>
          (case new_file_loop (open_file os k) base (nat (filenum col + 1)) of
             None \<Rightarrow> Inl Diverges
           | Some (f, n) \<Rightarrow> Inr (col\<lparr>fh := f, filenum := int n, bytes_written := 0\<rparr>)))"

section \<open>Collectors\<close>

definition get_free_collector_slot :: "ipfix_exporter \<Rightarrow> nat option" where
  "get_free_collector_slot ex = find_index (\<lambda>c. cstate c = C_UNUSED) (collector_arr ex) 0"

definition remove_collector :: "ipfix_receiving_collector \<Rightarrow> ipfix_receiving_collector res" where
  "remove_collector col =
     (if col_protocol col = DATAFILE
      then (case basename col of
              None \<Rightarrow> Inl dangling_free
            | Some base \<Rightarrow> Inr (col\<lparr>data_socket := -1, basename := None, cstate := C_UNUSED\<rparr>))
      else Inr (col\<lparr>data_socket := -1, cstate := C_UNUSED\<rparr>))"

definition remove_collector_at :: "nat \<Rightarrow> ipfix_exporter \<Rightarrow> ipfix_exporter res" where
  "remove_collector_at i ex =
     res_bind (remove_collector (collector_arr ex ! i)) (\<lambda>col. Inr (on_collector i (\<lambda>_. col) ex))"

definition ipfix_remove_collector :: "string \<Rightarrow> u16 \<Rightarrow> ipfix_exporter \<Rightarrow> (int \<times> ipfix_exporter) res" where
  "ipfix_remove_collector coll_ip_addr coll_port ex =
     (case find_index (\<lambda>c. ipaddress c = coll_ip_addr \<and> port_number c = coll_port) (collector_arr ex) 0 of
        None \<Rightarrow> Inr (-1, ex)
      | Some i \<Rightarrow> res_bind (remove_collector_at i ex) (\<lambda>ex'. Inr (0, ex')))"

text \<open>The largest message for the UDP collectors: the MTU without IP and UDP header, in 16 bits.\<close>

definition collector_maxsize :: "ipfix_receiving_collector \<Rightarrow> u16 \<Rightarrow> u16" where
  "collector_maxsize col m =
     (if cstate col \<noteq> C_UNUSED \<and> (col_protocol col = UDP \<or> col_protocol col = DTLS_OVER_UDP)
      then let maxsize = (if col_protocol col = UDP then mtu col - (20 + 8) else 0)
           in (if m > maxsize then maxsize else m)
      else m)"

definition update_exporter_max_message_size :: "ipfix_exporter \<Rightarrow> ipfix_exporter" where
  "update_exporter_max_message_size ex =
     ex\<lparr>max_message_size := fold collector_maxsize (collector_arr ex) (max_message_size ex)\<rparr>"

definition update_collector_mtu :: "os_env \<Rightarrow> moment \<Rightarrow> nat \<Rightarrow> ipfix_exporter \<Rightarrow> (int \<times> ipfix_exporter) res" where
  "update_collector_mtu os k i ex =
     (let col = collector_arr ex ! i in
      if col_protocol col = UDP \<and> col_mtu_mode col = IPFIX_MTU_DISCOVER
      then let m = ip_mtu os k (data_socket col) in
        if m < 0 then res_bind (remove_collector_at i ex) (\<lambda>ex'. Inr (-1, ex'))
        else Inr (0, update_exporter_max_message_size (on_collector i (\<lambda>c. c\<lparr>mtu := word_of_int m\<rparr>) ex))
      else Inr (0, ex))"

definition add_collector_datafile :: "os_env \<Rightarrow> nat \<Rightarrow> string \<Rightarrow> u32 \<Rightarrow> ipfix_exporter
    \<Rightarrow> (int \<times> ipfix_exporter) res" where
  "add_collector_datafile os i base maxsize ex =
     (let col = (collector_arr ex ! i)\<lparr>ipaddress := [], port_number := 0, data_socket := -1,
            col_protocol := DATAFILE, addr := None, last_reconnect_attempt_time := 0,
            basename := Some base, filenum := -1, maxfilesize := maxsize\<rparr>
      in res_bind (ipfix_new_file os (i, 0) col) (\<lambda>col'.
           Inr (0, on_collector i (\<lambda>_. col'\<lparr>cstate := C_CONNECTED\<rparr>) ex)))"

text \<open>The auxiliary configuration of UDP is the MTU, if given; 0 is the default.\<close>

definition set_mtu_config :: "u16 option \<Rightarrow> ipfix_receiving_collector \<Rightarrow> ipfix_receiving_collector" where
  "set_mtu_config aux col =
     (case aux of
        None \<Rightarrow> col\<lparr>col_mtu_mode := IPFIX_MTU_DISCOVER, mtu := of_nat IPFIX_MTU_MAX\<rparr>
      | Some m \<Rightarrow>
          if m > 0 then col\<lparr>col_mtu_mode := IPFIX_MTU_FIXED, mtu := m\<rparr>
          else col\<lparr>col_mtu_mode := IPFIX_MTU_DISCOVER, mtu := of_nat IPFIX_MTU_MAX\<rparr>)"

fun valid_transport_protocol :: "ipfix_transport_protocol \<Rightarrow> bool" where
  "valid_transport_protocol DTLS_OVER_UDP = False"
| "valid_transport_protocol DTLS_OVER_SCTP = False"
| "valid_transport_protocol SCTP = True"
| "valid_transport_protocol TCP = False"
| "valid_transport_protocol UDP = True"
| "valid_transport_protocol DATAFILE = True"
| "valid_transport_protocol ZMQ = False"

definition ipfix_init_send_socket :: "os_env \<Rightarrow> moment \<Rightarrow> ipfix_transport_protocol \<Rightarrow> int" where
  "ipfix_init_send_socket os k proto =
     (if proto \<in> {UDP, DTLS_OVER_UDP, SCTP, DTLS_OVER_SCTP} then open_socket os k proto else -1)"

definition add_collector_remaining_protocols :: "os_env \<Rightarrow> nat \<Rightarrow> u16 option \<Rightarrow> ipfix_exporter
    \<Rightarrow> (int \<times> ipfix_exporter) res" where
  "add_collector_remaining_protocols os i aux ex =
     (let udp = (col_protocol (collector_arr ex ! i) = UDP);
          ex1 = (if udp then on_collector i (set_mtu_config aux) ex else ex);
          sock = ipfix_init_send_socket os (i, 0) (col_protocol (collector_arr ex ! i));
          ex2 = on_collector i (\<lambda>c. c\<lparr>data_socket := sock\<rparr>) ex1
      in if sock < 0 then Inr (-1, ex2)
         else let ex3 = on_collector i (\<lambda>c. c\<lparr>cstate := (if udp then C_CONNECTED else C_NEW)\<rparr>) ex2
           in res_bind (update_collector_mtu os (i, 1) i ex3) (\<lambda>(r, ex4).
                if r \<noteq> 0 then Inr (-1, ex4)
                else Inr (0, on_collector i (\<lambda>c. c\<lparr>last_reconnect_attempt_time := word_of_int (time_of os (i, 2))\<rparr>)
                       (update_exporter_max_message_size ex4))))"

text \<open>\<open>ipaddress\<close> holds 39, \<open>vrf_name\<close> 15 characters.\<close>

definition ipfix_add_collector :: "os_env \<Rightarrow> string \<Rightarrow> u16 \<Rightarrow> ipfix_transport_protocol \<Rightarrow> u16 option \<Rightarrow> string
    \<Rightarrow> ipfix_exporter \<Rightarrow> (int \<times> ipfix_exporter) res" where
  "ipfix_add_collector os coll_ip_addr coll_port proto aux vrf ex =
     (if \<not> valid_transport_protocol proto then Inr (-1, ex)
      else case get_free_collector_slot ex of
        None \<Rightarrow> Inr (-1, ex)
      | Some i \<Rightarrow>
          if proto = DATAFILE then add_collector_datafile os i coll_ip_addr (ucast coll_port) ex
          else let v6 = (CHR '':'' \<in> set coll_ip_addr);
                   ex1 = on_collector i (\<lambda>c. c\<lparr>ipaddress := take 39 coll_ip_addr, port_number := coll_port,
                     col_protocol := proto, vrf_name := take 15 vrf,
                     addr := Some (v6, [], coll_port)\<rparr>) ex
            in if \<not> inet_pton os v6 coll_ip_addr then Inr (-1, ex1)
               else add_collector_remaining_protocols os i aux
                 (on_collector i (\<lambda>c. c\<lparr>addr := Some (v6, coll_ip_addr, coll_port)\<rparr>) ex1))"

section \<open>SCTP connections\<close>

definition sctp_lost :: "ipfix_receiving_collector \<Rightarrow> int \<times> ipfix_receiving_collector" where
  "sctp_lost col = (-1, col\<lparr>data_socket := -1, cstate := C_DISCONNECTED\<rparr>)"

text \<open>The part of \<open>sctp_reconnect\<close> behind the creation of the socket.\<close>

definition sctp_handshake :: "os_env \<Rightarrow> moment \<Rightarrow> ipfix_receiving_collector \<Rightarrow> int \<times> ipfix_receiving_collector" where
  "sctp_handshake os k col =
     (let s = data_socket col; ret = select_readable os k s in
      if ret = 0 then (-1, col\<lparr>cstate := C_NEW\<rparr>)
      else if ret < 0 then sctp_lost col
      else case so_error os k s of
        None \<Rightarrow> sctp_lost col
      | Some e \<Rightarrow>
          if e \<noteq> 0 then sctp_lost col
          else case recv_notification os k s of
            RecvFailed \<Rightarrow> sctp_lost col
          | RecvNothing \<Rightarrow> sctp_lost col
          | RecvUserData \<Rightarrow> sctp_lost col
          | RecvOther \<Rightarrow> sctp_lost col
          | RecvAssocChange comm_up \<Rightarrow>
              if \<not> comm_up then sctp_lost col
              else case sctp_established os k s of
                None \<Rightarrow> sctp_lost col
              | Some est \<Rightarrow> if est then (0, col\<lparr>cstate := C_CONNECTED\<rparr>) else sctp_lost col)"

definition sctp_reconnect :: "os_env \<Rightarrow> moment \<Rightarrow> ipfix_receiving_collector \<Rightarrow> int \<times> ipfix_receiving_collector" where
  "sctp_reconnect os k col =
     (let col1 = col\<lparr>last_reconnect_attempt_time := word_of_int (time_of os k)\<rparr>;
          col2 = (if cstate col1 = C_CONNECTED then col1\<lparr>data_socket := -1\<rparr> else col1)
      in if data_socket col2 < 0
         then let col3 = col2\<lparr>data_socket := open_socket os k SCTP\<rparr>
           in if data_socket col3 < 0 then (-1, col3\<lparr>cstate := C_DISCONNECTED\<rparr>)
              else sctp_handshake os k (col3\<lparr>cstate := C_NEW\<rparr>)
         else sctp_handshake os k col2)"

section \<open>Transmission\<close>

definition tmem :: "ipfix_exporter \<Rightarrow> nat \<Rightarrow> bytes option" where
  "tmem ex i = (if i < length (template_arr ex) then template_fields (template_arr ex ! i) else None)"

definition log_send :: "nat \<Rightarrow> int \<Rightarrow> bytes \<Rightarrow> ipfix_exporter \<Rightarrow> ipfix_exporter" where
  "log_send i r bs ex = (if r = -1 then ex else ex\<lparr>transmitted := transmitted ex @ [(i, bs)]\<rparr>)"

definition message_sent :: "nat \<Rightarrow> ipfix_exporter \<Rightarrow> ipfix_exporter" where
  "message_sent i ex = on_collector i (\<lambda>c. c\<lparr>messages_sent := messages_sent c + 1\<rparr>) ex"

definition IPFIX_MAX_PACKETSIZE :: nat where "IPFIX_MAX_PACKETSIZE = 65536"

text \<open>The copy of the iovecs into one buffer on the stack.\<close>

fun gather :: "export_protocol_version \<Rightarrow> (nat \<Rightarrow> bytes option) \<Rightarrow> ipfix_sendbuffer \<Rightarrow> nat \<Rightarrow> nat \<Rightarrow> bytes
    \<Rightarrow> bytes option res" where
  "gather p tm b i 0 acc = Inr (Some acc)"
| "gather p tm b i (Suc n) acc =
     (if length acc + iov_len (entries b i) > IPFIX_MAX_PACKETSIZE then Inr None
      else res_bind (iovec_bytes p tm b (entries b i)) (\<lambda>x. gather p tm b (i + 1) n (acc @ x)))"

definition sctp_sendmsgv :: "os_env \<Rightarrow> moment \<Rightarrow> int \<Rightarrow> ipfix_exporter \<Rightarrow> ipfix_sendbuffer \<Rightarrow> nat
    \<Rightarrow> (int \<times> bytes) res" where
  "sctp_sendmsgv os k s ex b v_len =
     (if v_len \<le> iov_max os
      then res_bind (iovecs_bytes (export_protocol ex) (tmem ex) b 0 v_len) (\<lambda>bs. Inr (fst (sendmsg os k s bs), bs))
      else res_bind (gather (export_protocol ex) (tmem ex) b 0 v_len []) (\<lambda>r.
             case r of None \<Rightarrow> Inr (-1, []) | Some bs \<Rightarrow> Inr (fst (sendmsg os k s bs), bs)))"

definition ipfix_write_sendbuffer_to_datafile :: "os_env \<Rightarrow> nat \<Rightarrow> nat \<Rightarrow> ipfix_sendbuffer \<Rightarrow> ipfix_exporter
    \<Rightarrow> (bool \<times> ipfix_exporter) res" where
  "ipfix_write_sendbuffer_to_datafile os ph i b ex =
     (let col = collector_arr ex ! i in
      res_bind (if bytes_written col > 0 \<and>
                   bytes_written col + ucast (ih_length (ipfix_message_header b)) > ucast (maxfilesize col) * 1024
                then ipfix_new_file os (i, ph) col else Inr col) (\<lambda>col1.
        let ex1 = on_collector i (\<lambda>_. col1) ex in
        if fh col1 < 0 then Inr (False, ex1)
        else if ih_length (ipfix_message_header b) = 0 then Inr (False, ex1)
        else res_bind (iovecs_bytes (export_protocol ex) (tmem ex) b 0 (current b)) (\<lambda>bs.
          let nwritten = (if col_protocol col1 = UDP then fst (sendmsg os (i, ph) (fh col1) bs)
                          else writev os (i, ph) (fh col1) bs)
          in if nwritten < 0 then Inr (False, ex1)
             else Inr (True, log_send i nwritten (take (nat nwritten) bs)
                    (on_collector i (\<lambda>c. c\<lparr>bytes_written := bytes_written c + word_of_int nwritten\<rparr>) ex1)))))"

definition send_templates_udp :: "os_env \<Rightarrow> int \<Rightarrow> bool \<Rightarrow> nat \<Rightarrow> ipfix_exporter \<Rightarrow> ipfix_exporter res" where
  "send_templates_udp os now expired i ex =
     (if expired \<and> committed_data_length (template_sendbuffer ex) > 0
      then let col = collector_arr ex ! i;
               b = ipfix_update_header os (i, 0) ex col (template_sendbuffer ex);
               ex1 = ex\<lparr>last_template_transmission_time := word_of_int now, template_sendbuffer := b\<rparr>
        in res_bind (iovecs_bytes (export_protocol ex1) (tmem ex1) b 0 (current b)) (\<lambda>bs.
             Inr (message_sent i (log_send i (fst (sendmsg os (i, 1) (data_socket col) bs)) bs ex1)))
      else Inr ex)"

text \<open>The SCTP branch from the label \<open>C_CONNECTED\<close> on.\<close>

definition send_templates_sctp_connected :: "os_env \<Rightarrow> nat \<Rightarrow> ipfix_exporter \<Rightarrow> ipfix_exporter res" where
  "send_templates_sctp_connected os i ex =
     (if committed_data_length (sctp_template_sendbuffer ex) > 0
      then let col = collector_arr ex ! i;
               b = ipfix_update_header os (i, 1) ex col (sctp_template_sendbuffer ex);
               ex1 = ex\<lparr>sctp_template_sendbuffer := b\<rparr>
        in res_bind (sctp_sendmsgv os (i, 2) (data_socket col) ex1 b (current b)) (\<lambda>(r, bs).
             Inr (message_sent i
               (if r = -1 then on_collector i (\<lambda>c. snd (sctp_reconnect os (i, 3) c)) ex1
                else log_send i r bs ex1)))
      else Inr (message_sent i ex))"

definition send_templates_sctp :: "os_env \<Rightarrow> int \<Rightarrow> nat \<Rightarrow> ipfix_exporter \<Rightarrow> ipfix_exporter res" where
  "send_templates_sctp os now i ex =
     (let col = collector_arr ex ! i;
          reconnect = send_templates_sctp_connected os i
            (on_collector i (\<lambda>c. snd (sctp_reconnect os (i, 0) c)) ex)
      in (case cstate col of
            C_DISCONNECTED \<Rightarrow>
              if sctp_reconnect_timer ex = 0 then remove_collector_at i ex
              else if now - uint (last_reconnect_attempt_time col) \<le> uint (sctp_reconnect_timer ex) then Inr ex
              else reconnect
          | C_NEW \<Rightarrow> reconnect
          | C_CONNECTED \<Rightarrow> send_templates_sctp_connected os i ex
          | C_UNUSED \<Rightarrow> Inr ex))"

definition send_templates_file :: "os_env \<Rightarrow> nat \<Rightarrow> ipfix_exporter \<Rightarrow> ipfix_exporter res" where
  "send_templates_file os i ex =
     (if committed_data_length (template_sendbuffer ex) > 0
      then let b = ipfix_update_header os (i, 0) ex (collector_arr ex ! i) (template_sendbuffer ex)
        in res_bind (ipfix_write_sendbuffer_to_datafile os 1 i b (ex\<lparr>template_sendbuffer := b\<rparr>)) (\<lambda>(ok, ex1).
             Inr (message_sent i ex1))
      else Inr ex)"

definition send_templates_to :: "os_env \<Rightarrow> int \<Rightarrow> bool \<Rightarrow> nat \<Rightarrow> ipfix_exporter \<Rightarrow> (int \<times> ipfix_exporter) res" where
  "send_templates_to os now expired i ex =
     (let col = collector_arr ex ! i; next = (\<lambda>ex'. Inr (0, ex')) in
      if cstate col = C_UNUSED then next ex
      else case col_protocol col of
        UDP \<Rightarrow> res_bind (send_templates_udp os now expired i ex) next
      | SCTP \<Rightarrow> res_bind (send_templates_sctp os now i ex) next
      | DATAFILE \<Rightarrow> res_bind (send_templates_file os i ex) next
      | _ \<Rightarrow> Inr (-1, ex))"

fun send_templates_loop :: "os_env \<Rightarrow> int \<Rightarrow> bool \<Rightarrow> nat \<Rightarrow> nat \<Rightarrow> ipfix_exporter \<Rightarrow> (int \<times> ipfix_exporter) res" where
  "send_templates_loop os now expired i 0 ex = Inr (1, ex)"
| "send_templates_loop os now expired i (Suc n) ex =
     res_bind (send_templates_to os now expired i ex) (\<lambda>(r, ex').
       if r < 0 then Inr (-1, ex') else send_templates_loop os now expired (i + 1) n ex')"

definition ipfix_send_templates :: "os_env \<Rightarrow> ipfix_exporter \<Rightarrow> (int \<times> ipfix_exporter) res" where
  "ipfix_send_templates os ex =
     (let now = time_of os (length (collector_arr ex), 0);
          expired = (now - uint (last_template_transmission_time ex) > uint (template_transmission_timer ex))
      in res_bind (ipfix_update_template_sendbuffer ex) (\<lambda>(r, ex1).
           send_templates_loop os now expired 0 (length (collector_arr ex1)) ex1))"

text \<open>The body of the loop of \<open>ipfix_send_data\<close> for the collector \<open>i\<close>.\<close>

definition send_data_to :: "os_env \<Rightarrow> nat \<Rightarrow> ipfix_exporter \<Rightarrow> ipfix_exporter res" where
  "send_data_to os i ex =
     (let col = collector_arr ex ! i;
          b = ipfix_update_header os (i, 10) ex col (data_sendbuffer ex);
          ex1 = ex\<lparr>data_sendbuffer := b\<rparr>
      in if cstate col \<noteq> C_CONNECTED then Inr ex1
         else res_bind
           (case col_protocol col of
              UDP \<Rightarrow> res_bind (iovecs_bytes (export_protocol ex1) (tmem ex1) b 0 (current b)) (\<lambda>bs.
                let (r, emsgsize) = sendmsg os (i, 11) (data_socket col) bs in
                if r = -1 \<and> emsgsize
                then res_bind (update_collector_mtu os (i, 12) i ex1) (\<lambda>(r', ex2). Inr ex2)
                else Inr (log_send i r bs ex1))
            | SCTP \<Rightarrow> res_bind (sctp_sendmsgv os (i, 11) (data_socket col) ex1 b (committed b)) (\<lambda>(r, bs).
                Inr (if r = -1 then on_collector i (\<lambda>c. snd (sctp_reconnect os (i, 12) c)) ex1
                     else log_send i r bs ex1))
            | DATAFILE \<Rightarrow> res_bind (ipfix_write_sendbuffer_to_datafile os 11 i b ex1) (\<lambda>(ok, ex2). Inr ex2)
            | _ \<Rightarrow> Inr ex1)
           (\<lambda>ex2. Inr (message_sent i ex2)))"

fun send_data_loop :: "os_env \<Rightarrow> nat \<Rightarrow> nat \<Rightarrow> ipfix_exporter \<Rightarrow> ipfix_exporter res" where
  "send_data_loop os i 0 ex = Inr ex"
| "send_data_loop os i (Suc n) ex = res_bind (send_data_to os i ex) (send_data_loop os (i + 1) n)"

definition ipfix_send_data :: "os_env \<Rightarrow> ipfix_exporter \<Rightarrow> (int \<times> ipfix_exporter) res" where
  "ipfix_send_data os ex =
     res_bind
       (if committed_data_length (data_sendbuffer ex) > 0
        then res_bind (send_data_loop os 0 (length (collector_arr ex)) ex) (\<lambda>ex1.
               Inr (ex1\<lparr>sequence_number := sequence_number ex1 + sn_increment ex1, sn_increment := 0\<rparr>))
        else Inr ex)
       (\<lambda>ex2. Inr (0, ex2\<lparr>data_sendbuffer := ipfix_reset_sendbuffer (data_sendbuffer ex2)\<rparr>))"

definition ipfix_send :: "os_env \<Rightarrow> ipfix_exporter \<Rightarrow> (int \<times> ipfix_exporter) res" where
  "ipfix_send os ex =
     res_bind (ipfix_send_templates os ex) (\<lambda>(r1, ex1).
       res_bind (ipfix_send_data os ex1) (\<lambda>(r2, ex2).
         Inr (if r1 < 0 \<or> r2 < 0 then -1 else 0, ex2)))"

section \<open>Starting a template\<close>

text \<open>\<open>mem\<close> is the contents of the allocated block.\<close>

definition ipfix_start_template :: "os_env \<Rightarrow> (nat \<Rightarrow> byte) \<Rightarrow> u16 \<Rightarrow> u16 \<Rightarrow> ipfix_exporter
    \<Rightarrow> (int \<times> ipfix_exporter) res" where
  "ipfix_start_template os mem tid fc ex =
     (if \<not> tid > 255 then Inr (-1, ex)
      else
        let deinit = (\<lambda>i ex. ex\<lparr>template_arr := (template_arr ex)[i := snd (ipfix_deinit_template (template_arr ex ! i))]\<rparr>);
            start = (\<lambda>i ex. res_bind (init_template mem (export_protocol ex) tid fc) (\<lambda>t.
              Inr (0, ex\<lparr>template_arr := (template_arr ex)[i := t]\<rparr>)));
            withdraw = (\<lambda>i ex. res_bind (ipfix_send_templates os ex) (\<lambda>(r, ex'). start i (deinit i ex')))
        in (case ipfix_find_template tid (template_arr ex) of
              Some i \<Rightarrow>
                (case tstate (template_arr ex ! i) of
                   T_SENT \<Rightarrow> res_bind (ipfix_remove_template (template_id (template_arr ex ! i)) ex) (\<lambda>(r, ex'). withdraw i ex')
                 | T_WITHDRAWN \<Rightarrow> withdraw i ex
                 | T_UNUSED \<Rightarrow> start i ex
                 | _ \<Rightarrow> start i (deinit i ex))
            | None \<Rightarrow>
                (case ipfix_get_free_template_slot (template_arr ex) of
                   None \<Rightarrow> Inr (-1, ex)
                 | Some i \<Rightarrow> start i ex)))"

section \<open>The life of an exporter\<close>

definition ipfix_start_optionstemplate :: "u16 \<Rightarrow> u16 \<Rightarrow> u16 \<Rightarrow> ipfix_exporter \<Rightarrow> int \<times> ipfix_exporter" where
  "ipfix_start_optionstemplate tid scope_length option_length ex = (-1, ex)"

definition ipfix_set_template_transmission_timer :: "u32 \<Rightarrow> ipfix_exporter \<Rightarrow> int \<times> ipfix_exporter" where
  "ipfix_set_template_transmission_timer timer ex = (0, ex\<lparr>template_transmission_timer := timer\<rparr>)"

definition ipfix_set_sctp_lifetime :: "u32 \<Rightarrow> ipfix_exporter \<Rightarrow> int \<times> ipfix_exporter" where
  "ipfix_set_sctp_lifetime lifetime ex = (0, ex\<lparr>sctp_lifetime := lifetime\<rparr>)"

definition ipfix_set_sctp_reconnect_timer :: "u32 \<Rightarrow> ipfix_exporter \<Rightarrow> int \<times> ipfix_exporter" where
  "ipfix_set_sctp_reconnect_timer timer ex = (0, ex\<lparr>sctp_reconnect_timer := timer\<rparr>)"

text \<open>
  The memory that malloc returns is a parameter: \<open>mc\<close>, \<open>mt\<close> and \<open>mb\<close> are the
  contents of the arrays and buffers before they are initialised, \<open>ms\<close> that of the start
  time, which stays when the clock fails. The pointer \<open>basename\<close>
  in it is not to an allocated block.
\<close>

definition ipfix_init_collector_array :: "(nat \<Rightarrow> ipfix_receiving_collector) \<Rightarrow> nat \<Rightarrow> ipfix_receiving_collector list" where
  "ipfix_init_collector_array mc n =
     map (\<lambda>i. (mc i)\<lparr>cstate := C_UNUSED, ipaddress := [], port_number := 0, col_protocol := DATAFILE,
                   data_socket := -1, last_reconnect_attempt_time := 0, messages_sent := 0,
                   basename := None\<rparr>) [0..<n]"

definition ipfix_init_template_array :: "(nat \<Rightarrow> ipfix_lo_template) \<Rightarrow> nat \<Rightarrow> ipfix_lo_template list" where
  "ipfix_init_template_array mt n = map (\<lambda>i. (mt i)\<lparr>tstate := T_UNUSED\<rparr>) [0..<n]"

definition ipfix_init_exporter :: "os_env \<Rightarrow> (nat \<Rightarrow> ipfix_sendbuffer) \<Rightarrow> (nat \<Rightarrow> ipfix_receiving_collector)
    \<Rightarrow> (nat \<Rightarrow> ipfix_lo_template) \<Rightarrow> int \<Rightarrow> export_protocol_version \<Rightarrow> u32 \<Rightarrow> ipfix_exporter" where
  "ipfix_init_exporter os mb mc mt ms p odid =
     \<lparr>export_protocol = p, sequence_number = 0, sn_increment = 0, observation_domain_id = odid,
      start_time_ms = (case gettimeofday os (0, 0) of None \<Rightarrow> ms | Some tv \<Rightarrow> millis tv),
      max_message_size = IPFIX_MTU_CONSERVATIVE_DEFAULT,
      template_sendbuffer = ipfix_init_sendbuffer (mb 1) p,
      sctp_template_sendbuffer = ipfix_init_sendbuffer (mb 2) p,
      data_sendbuffer = ipfix_init_sendbuffer (mb 0) p,
      collector_arr = ipfix_init_collector_array mc IPFIX_MAX_COLLECTORS,
      last_template_transmission_time = 0,
      template_transmission_timer = IPFIX_DEFAULT_TEMPLATE_TIMER,
      sctp_lifetime = IPFIX_DEFAULT_SCTP_DATA_LIFETIME,
      sctp_reconnect_timer = IPFIX_DEFAULT_SCTP_RECONNECT_TIMER,
      template_arr = ipfix_init_template_array mt IPFIX_MAX_TEMPLATES,
      transmitted = []\<rparr>"

fun withdraw_sent :: "nat \<Rightarrow> nat \<Rightarrow> ipfix_exporter \<Rightarrow> ipfix_exporter res" where
  "withdraw_sent i 0 ex = Inr ex"
| "withdraw_sent i (Suc n) ex =
     (if tstate (template_arr ex ! i) = T_SENT
      then res_bind (ipfix_remove_template (template_id (template_arr ex ! i)) ex) (\<lambda>(r, ex').
             withdraw_sent (i + 1) n ex')
      else withdraw_sent (i + 1) n ex)"

definition ipfix_deinit_template_array :: "os_env \<Rightarrow> ipfix_exporter \<Rightarrow> ipfix_exporter res" where
  "ipfix_deinit_template_array os ex =
     res_bind (withdraw_sent 0 (length (template_arr ex)) ex) (\<lambda>ex1.
       res_bind (ipfix_send_templates os ex1) (\<lambda>(r, ex2).
         Inr (ex2\<lparr>template_arr := []\<rparr>)))"

fun remove_collectors :: "nat \<Rightarrow> nat \<Rightarrow> ipfix_exporter \<Rightarrow> ipfix_exporter res" where
  "remove_collectors i 0 ex = Inr ex"
| "remove_collectors i (Suc n) ex =
     (if cstate (collector_arr ex ! i) \<noteq> C_UNUSED
      then res_bind (remove_collector_at i ex) (remove_collectors (i + 1) n)
      else remove_collectors (i + 1) n ex)"

text \<open>The exporter at the moment it is freed; the arrays are released.\<close>

definition ipfix_deinit_exporter :: "os_env \<Rightarrow> ipfix_exporter \<Rightarrow> (int \<times> ipfix_exporter) res" where
  "ipfix_deinit_exporter os ex =
     res_bind (ipfix_deinit_template_array os ex) (\<lambda>ex1.
       res_bind (remove_collectors 0 (length (collector_arr ex1)) ex1) (\<lambda>ex2.
         Inr (0, ex2\<lparr>collector_arr := []\<rparr>)))"

end
