(* ===== verification/Exporter_Safety.thy ===== *)
theory Exporter_Safety
  imports Exporter_Send
begin

text \<open>
  Memory safety of the exporter library: what a transmission leaves unchanged, that every call
  on an exporter keeps its invariant and stays inside the allocated memory, and that the
  transmission of templates and data cannot fail inside the library.
\<close>

section \<open>What a transmission may change\<close>

text \<open>Two buffers that differ in the message headers only.\<close>

definition same_body :: "ipfix_sendbuffer \<Rightarrow> ipfix_sendbuffer \<Rightarrow> bool" where
  "same_body b b' \<longleftrightarrow> b' = b\<lparr>ipfix_message_header := ipfix_message_header b',
     nfv9_message_header := nfv9_message_header b'\<rparr>"

definition msgs :: "nat \<Rightarrow> ipfix_exporter \<Rightarrow> bytes list" where
  "msgs i ex = map snd (filter (\<lambda>(j, bs). j = i) (transmitted ex))"

text \<open>
  A collector in use has a supported protocol, and a file collector the name of its files; a
  file collector has no address.
\<close>

definition col_inv :: "ipfix_receiving_collector \<Rightarrow> bool" where
  "col_inv c \<longleftrightarrow>
     (cstate c = C_UNUSED \<or> valid_transport_protocol (col_protocol c) \<and>
        (col_protocol c = DATAFILE \<longrightarrow> basename c \<noteq> None)) \<and>
     (col_protocol c = DATAFILE \<longrightarrow> ipaddress c = [])"

definition cols_inv :: "ipfix_exporter \<Rightarrow> bool" where
  "cols_inv ex \<longleftrightarrow> (\<forall>c \<in> set (collector_arr ex). col_inv c)"

text \<open>
  A step of a transmission to the collectors \<open>J\<close>: templates, sequence numbers and the
  contents of the buffers stay, the other collectors and what they received stay, and the
  collectors stay well-formed.
\<close>

definition send_step :: "nat set \<Rightarrow> ipfix_exporter \<Rightarrow> ipfix_exporter \<Rightarrow> bool" where
  "send_step J ex ex' \<longleftrightarrow>
     export_protocol ex' = export_protocol ex \<and> sequence_number ex' = sequence_number ex \<and>
     sn_increment ex' = sn_increment ex \<and> observation_domain_id ex' = observation_domain_id ex \<and>
     start_time_ms ex' = start_time_ms ex \<and> template_arr ex' = template_arr ex \<and>
     same_body (template_sendbuffer ex) (template_sendbuffer ex') \<and>
     same_body (sctp_template_sendbuffer ex) (sctp_template_sendbuffer ex') \<and>
     same_body (data_sendbuffer ex) (data_sendbuffer ex') \<and>
     length (collector_arr ex') = length (collector_arr ex) \<and>
     (\<forall>j. j \<notin> J \<longrightarrow> collector_arr ex' ! j = collector_arr ex ! j \<and> msgs j ex' = msgs j ex) \<and>
     (cols_inv ex \<longrightarrow> cols_inv ex')"

lemma same_body_refl: "same_body b b"
  by (simp add: same_body_def)

lemma same_body_trans: "same_body a b \<Longrightarrow> same_body b c \<Longrightarrow> same_body a c"
  unfolding same_body_def
  by (metis (no_types, lifting) ipfix_sendbuffer.select_convs(6,7) ipfix_sendbuffer.surjective ipfix_sendbuffer.update_convs(6,7))

lemma same_body_eqs:
  assumes "same_body b b'"
  shows "entries b' = entries b" "current b' = current b" "committed b' = committed b" "marker b' = marker b"
    "committed_data_length b' = committed_data_length b" "record_count b' = record_count b" "set_manager b' = set_manager b"
  using assms unfolding same_body_def by (metis ipfix_sendbuffer.ext_inject ipfix_sendbuffer.surjective
      ipfix_sendbuffer.update_convs(6,7))+

lemma update_header_body: "same_body b (ipfix_update_header os k ex col b)"
  by (simp add: same_body_def ipfix_update_header_def Let_def split: export_protocol_version.split)

lemma send_step_refl: "send_step J ex ex"
  by (simp add: send_step_def same_body_refl)

lemma send_step_trans: "send_step J a b \<Longrightarrow> send_step K b c \<Longrightarrow> send_step (J \<union> K) a c"
  unfolding send_step_def by (auto intro: same_body_trans)

lemma send_stepD:
  assumes "send_step J ex ex'"
  shows "export_protocol ex' = export_protocol ex" "template_arr ex' = template_arr ex"
    "same_body (template_sendbuffer ex) (template_sendbuffer ex')"
    "same_body (sctp_template_sendbuffer ex) (sctp_template_sendbuffer ex')"
    "same_body (data_sendbuffer ex) (data_sendbuffer ex')"
    "length (collector_arr ex') = length (collector_arr ex)" "cols_inv ex \<Longrightarrow> cols_inv ex'"
    "sequence_number ex' = sequence_number ex" "sn_increment ex' = sn_increment ex"
    "observation_domain_id ex' = observation_domain_id ex"
  using assms by (simp_all add: send_step_def)

lemma send_step_other: "send_step J ex ex' \<Longrightarrow> j \<notin> J \<Longrightarrow>
    collector_arr ex' ! j = collector_arr ex ! j \<and> msgs j ex' = msgs j ex"
  by (simp add: send_step_def)

lemma send_step_on_collector:
  assumes "col_inv (collector_arr ex ! i) \<Longrightarrow> col_inv (f (collector_arr ex ! i))"
  shows "send_step {i} ex (on_collector i f ex)"
proof -
  have "cols_inv (on_collector i f ex)" if "cols_inv ex"
  proof (cases "i < length (collector_arr ex)")
    case True
    with that assms have "col_inv (f (collector_arr ex ! i))" by (simp add: cols_inv_def)
    with that show ?thesis
      using set_update_subset_insert [of "collector_arr ex" i] by (auto simp: cols_inv_def on_collector_def)
  qed (use that in \<open>simp add: cols_inv_def on_collector_def list_update_beyond\<close>)
  then show ?thesis
    by (simp add: send_step_def on_collector_def same_body_refl msgs_def)
qed

lemma send_step_message_sent: "send_step {i} ex (message_sent i ex)"
  unfolding message_sent_def by (rule send_step_on_collector) (simp add: col_inv_def)

lemma send_step_log: "send_step {i} ex (log_send i r bs ex)"
  by (simp add: send_step_def log_send_def same_body_refl msgs_def cols_inv_def)

lemma send_step_template_header:
  "same_body (template_sendbuffer ex) b \<Longrightarrow>
     send_step J ex (ex\<lparr>last_template_transmission_time := t, template_sendbuffer := b\<rparr>)"
  "same_body (template_sendbuffer ex) b \<Longrightarrow> send_step J ex (ex\<lparr>template_sendbuffer := b\<rparr>)"
  "same_body (sctp_template_sendbuffer ex) b \<Longrightarrow> send_step J ex (ex\<lparr>sctp_template_sendbuffer := b\<rparr>)"
  "same_body (data_sendbuffer ex) b \<Longrightarrow> send_step J ex (ex\<lparr>data_sendbuffer := b\<rparr>)"
  by (simp_all add: send_step_def same_body_refl msgs_def cols_inv_def)

lemma send_step_trans1: "send_step J a b \<Longrightarrow> send_step J b c \<Longrightarrow> send_step J a c"
  using send_step_trans [of J a b J c] by simp

lemma sctp_handshake_inv: "col_protocol c = SCTP \<Longrightarrow> col_inv (snd (sctp_handshake os k c))"
  by (simp add: sctp_handshake_def sctp_lost_def col_inv_def Let_def split: option.split recv_result.split)

lemma sctp_reconnect_inv: "col_protocol c = SCTP \<Longrightarrow> col_inv (snd (sctp_reconnect os k c))"
  by (simp add: sctp_reconnect_def Let_def sctp_handshake_inv) (simp add: col_inv_def)

lemma remove_collector_ok:
  "col_inv c \<Longrightarrow> cstate c \<noteq> C_UNUSED \<or> col_protocol c \<noteq> DATAFILE \<Longrightarrow>
     \<exists>c'. remove_collector c = Inr c' \<and> cstate c' = C_UNUSED \<and> col_inv c'"
  by (auto simp: remove_collector_def col_inv_def)

lemma remove_collector_at_ok:
  assumes "cols_inv ex" and "i < length (collector_arr ex)"
    and "cstate (collector_arr ex ! i) \<noteq> C_UNUSED \<or> col_protocol (collector_arr ex ! i) \<noteq> DATAFILE"
  shows "\<exists>ex'. remove_collector_at i ex = Inr ex' \<and> send_step {i} ex ex' \<and>
    cstate (collector_arr ex' ! i) = C_UNUSED"
proof -
  have "col_inv (collector_arr ex ! i)" using assms by (simp add: cols_inv_def)
  then obtain c' where c': "remove_collector (collector_arr ex ! i) = Inr c'" "cstate c' = C_UNUSED" "col_inv c'"
    using remove_collector_ok assms(3) by blast
  have "send_step {i} ex (on_collector i (\<lambda>_. c') ex)"
    by (rule send_step_on_collector) (rule c'(3))
  with c' assms(2) show ?thesis by (simp add: remove_collector_at_def on_collector_def)
qed

section \<open>Data files\<close>

text \<open>The environment's part: the names of the files do not all exist.\<close>

definition files_end :: "os_env \<Rightarrow> bool" where
  "files_end os \<longleftrightarrow> (\<forall>k base n. \<exists>m \<ge> n. open_file os k (file_name base m) \<noteq> OpenExists)"

lemma new_file_loop_first:
  assumes "opn (file_name base (n + d)) \<noteq> OpenExists" and "\<forall>j < d. opn (file_name base (n + j)) = OpenExists"
  shows "new_file_loop opn base n =
    Some (case opn (file_name base (n + d)) of Opened f \<Rightarrow> f | _ \<Rightarrow> -1, n + d)"
  using assms
proof (induction d arbitrary: n)
  case 0
  then show ?case by (subst new_file_loop.simps) (simp split: open_result.splits)
next
  case (Suc d)
  have "opn (file_name base n) = OpenExists" using Suc.prems(2) by force
  moreover have "new_file_loop opn base (n + 1) =
      Some (case opn (file_name base (n + 1 + d)) of Opened f \<Rightarrow> f | _ \<Rightarrow> -1, n + 1 + d)"
    using Suc.prems by (intro Suc.IH) (auto simp: add.assoc)
  ultimately show ?case by (subst new_file_loop.simps) simp
qed

lemma new_file_loop_total:
  assumes "files_end os"
  shows "\<exists>f n'. new_file_loop (open_file os k) base n = Some (f, n') \<and> n \<le> n'"
proof -
  let ?P = "\<lambda>d. open_file os k (file_name base (n + d)) \<noteq> OpenExists"
  obtain m where "m \<ge> n" "open_file os k (file_name base m) \<noteq> OpenExists"
    using assms unfolding files_end_def by blast
  then have "?P (m - n)" by simp
  then have "?P (LEAST d. ?P d)" by (rule LeastI [of ?P])
  moreover have "\<forall>j < (LEAST d. ?P d). \<not> ?P j" by (intro allI impI) (rule not_less_Least)
  ultimately show ?thesis using new_file_loop_first [of "open_file os k" base n "LEAST d. ?P d"] by auto
qed

lemma ipfix_new_file_ok:
  assumes "files_end os" and "basename col = Some base"
  shows "\<exists>f n. ipfix_new_file os k col = Inr (col\<lparr>fh := f, filenum := int n, bytes_written := 0\<rparr>)"
proof -
  obtain f n where "new_file_loop (open_file os k) base (nat (filenum col + 1)) = Some (f, n)"
    using new_file_loop_total [OF assms(1)] by blast
  then show ?thesis using assms(2) by (auto simp: ipfix_new_file_def)
qed

section \<open>Serialising the buffers\<close>

definition readable :: "(nat \<Rightarrow> bytes option) \<Rightarrow> (nat \<times> nat) list \<Rightarrow> bool" where
  "readable tm js \<longleftrightarrow> (\<forall>(j, n) \<in> set js. \<exists>m. tm j = Some m \<and> n \<le> length m)"

definition items_bytes :: "(nat \<Rightarrow> bytes option) \<Rightarrow> (nat \<times> nat) list \<Rightarrow> bytes" where
  "items_bytes tm js = concat (map (\<lambda>(j, n). take n (the (tm j))) js)"

lemma tiovs_bytes:
  "iovs_at (entries b) i (map tiov js) \<Longrightarrow> readable tm js \<Longrightarrow>
     iovecs_bytes p tm b i (length js) = Inr (items_bytes tm js)"
proof (induction js arbitrary: i)
  case Nil
  then show ?case by (simp add: items_bytes_def)
next
  case (Cons x js)
  obtain j n where x: "x = (j, n)" by (cases x)
  obtain m where "tm j = Some m" "n \<le> length m" using Cons.prems(2) x by (auto simp: readable_def)
  then have "iovec_bytes p tm b (entries b i) = Inr (take n m)"
    using Cons.prems(1) x by (simp add: iovec_bytes_def tiov_def)
  moreover have "iovecs_bytes p tm b (Suc i) (length js) = Inr (items_bytes tm js)"
    using Cons by (simp add: readable_def)
  ultimately show ?case using \<open>tm j = Some m\<close> x by (simp add: items_bytes_def)
qed

lemma tbuf_bytes:
  assumes "tbuf p b js" and "readable tm js"
  shows "iovecs_bytes p tm b 0 (current b) = Inr (header_bytes p b @ items_bytes tm js)"
proof -
  have "iovec_bytes p tm b (entries b 0) = Inr (header_bytes p b)"
    using assms length_header_bytes [of p b]
    by (cases p) (simp_all add: tbuf_def iovec_bytes_def header_bytes_def)
  then show ?thesis
    using assms tiovs_bytes [of b 1 js tm p] by (simp add: tbuf_def)
qed

lemma length_items_bytes: "readable tm js \<Longrightarrow> length (items_bytes tm js) = sum_list (map snd js)"
  by (induction js) (auto simp: items_bytes_def readable_def min_def)

lemma sb_rel_readable:
  assumes "sb_rel p b ss op"
  shows "\<exists>bs. iovecs_bytes p tm b 0 (current b) = Inr bs"
proof (cases op)
  case None
  then show ?thesis using assms sb_rel_bytes [OF assms] by (auto simp: sb_rel_def open_rel_def)
next
  case (Some o')
  obtain i fs mk where o': "op = Some (i, fs, mk)" using Some by (cases o') auto
  have r: "iovs_at (entries b) (committed b) (hdr_iov (length ss) # map data_iov fs)"
      "current b = committed b + Suc (length fs)" "length ss < IPFIX_MAX_SETS_PER_PACKET"
    using assms o' by (simp_all add: sb_rel_def open_rel_def)
  have "\<exists>h. iovec_bytes p tm b (entries b (committed b)) = Inr h"
    using r(1,3) by (simp add: iovec_bytes_def hdr_iov_def set_header_bytes_def)
  moreover have "iovecs_bytes p tm b (Suc (committed b)) (length fs) = Inr (concat fs)"
    using r(1) by (intro data_iovs_bytes) simp
  ultimately show ?thesis
    using sb_rel_bytes [OF assms, of tm] unfolding r(2) iovecs_bytes_add by auto
qed

lemma same_body_tbuf: "same_body b b' \<Longrightarrow> tbuf p b js \<Longrightarrow> tbuf p b' js"
  by (simp add: tbuf_def same_body_eqs)

lemma same_body_sb_rel:
  assumes "same_body b b'"
  shows "sb_rel p b' ss op = sb_rel p b ss op"
  unfolding sb_defs same_body_eqs [OF assms] ..

text \<open>Copying the iovecs into one buffer transmits the same bytes.\<close>

lemma gather_bytes:
  assumes "iovecs_bytes p tm b i n = Inr bs" and "length acc + length bs \<le> IPFIX_MAX_PACKETSIZE"
  shows "gather p tm b i n acc = Inr (Some (acc @ bs))"
  using assms
proof (induction n arbitrary: i bs acc)
  case 0
  then show ?case by simp
next
  case (Suc n)
  from Suc.prems(1) obtain x y where xy: "iovec_bytes p tm b (entries b i) = Inr x"
      "iovecs_bytes p tm b (Suc i) n = Inr y" "bs = x @ y"
    by (auto elim!: res_bind_InrE)
  have "length x = iov_len (entries b i)"
    using xy(1) by (auto simp: iovec_bytes_def split: option.splits if_splits)
  with Suc.IH [OF xy(2), of "acc @ x"] Suc.prems(2) xy show ?case by simp
qed

lemma gather_safe:
  assumes "iovecs_bytes p tm b i n = Inr bs"
  shows "\<exists>r. gather p tm b i n acc = Inr r"
  using assms
proof (induction n arbitrary: i bs acc)
  case 0
  then show ?case by simp
next
  case (Suc n)
  from Suc.prems obtain x y where "iovec_bytes p tm b (entries b i) = Inr x" "iovecs_bytes p tm b (Suc i) n = Inr y"
    by (auto elim!: res_bind_InrE)
  then show ?case using Suc.IH by simp
qed

lemma sctp_sendmsgv_ok:
  assumes "iovecs_bytes (export_protocol ex) (tmem ex) b 0 n = Inr bs"
  shows "\<exists>r. sctp_sendmsgv os k s ex b n = Inr r"
  using assms gather_safe [OF assms, of "[]"] by (auto simp: sctp_sendmsgv_def split: option.split)

section \<open>Safety of the transmission\<close>

definition tready :: "(nat \<times> nat) list \<Rightarrow> (nat \<times> nat) list \<Rightarrow> ipfix_exporter \<Rightarrow> bool" where
  "tready js ks ex \<longleftrightarrow>
     tbuf (export_protocol ex) (template_sendbuffer ex) js \<and>
     tbuf (export_protocol ex) (sctp_template_sendbuffer ex) ks \<and>
     readable (tmem ex) js \<and> readable (tmem ex) ks"

lemma tmem_cong: "template_arr ex' = template_arr ex \<Longrightarrow> tmem ex' = tmem ex"
  by (simp add: tmem_def fun_eq_iff)

lemma send_step_tready: "send_step J ex ex' \<Longrightarrow> tready js ks ex \<Longrightarrow> tready js ks ex'"
  unfolding tready_def send_step_def using tmem_cong [of ex' ex] by (auto intro: same_body_tbuf)

lemma write_datafile_ok:
  assumes "files_end os" and "cols_inv ex" and "i < length (collector_arr ex)"
    and "cstate (collector_arr ex ! i) \<noteq> C_UNUSED" and "col_protocol (collector_arr ex ! i) = DATAFILE"
    and "iovecs_bytes (export_protocol ex) (tmem ex) b 0 (current b) = Inr bs"
  shows "\<exists>ok ex'. ipfix_write_sendbuffer_to_datafile os ph i b ex = Inr (ok, ex') \<and> send_step {i} ex ex'"
proof -
  let ?col = "collector_arr ex ! i"
  let ?new = "if bytes_written ?col > 0 \<and>
      bytes_written ?col + ucast (ih_length (ipfix_message_header b)) > ucast (maxfilesize ?col) * 1024
    then ipfix_new_file os (i, ph) ?col else Inr ?col"
  have "col_inv ?col" using assms(2,3) by (simp add: cols_inv_def)
  then obtain base where base: "basename ?col = Some base"
    using assms(4,5) by (auto simp: col_inv_def)
  obtain f n where "ipfix_new_file os (i, ph) ?col = Inr (?col\<lparr>fh := f, filenum := int n, bytes_written := 0\<rparr>)"
    using ipfix_new_file_ok [OF assms(1) base] by blast
  moreover have "col_inv (?col\<lparr>fh := f, filenum := int n, bytes_written := 0\<rparr>)"
    using \<open>col_inv ?col\<close> by (simp add: col_inv_def)
  ultimately have "\<exists>col1. ?new = Inr col1 \<and> col_inv col1"
    using \<open>col_inv ?col\<close> by simp
  then obtain col1 where col1: "?new = Inr col1" "col_inv col1" by blast
  let ?ex1 = "on_collector i (\<lambda>_. col1) ex"
  have s1: "send_step {i} ex ?ex1" by (rule send_step_on_collector) (rule col1(2))
  have s2: "send_step {i} ex (log_send i n d (on_collector i (\<lambda>c. c\<lparr>bytes_written := bytes_written c + m\<rparr>) ?ex1))"
    for n d m
    by (rule send_step_trans1 [OF s1], rule send_step_trans1 [OF send_step_on_collector send_step_log])
      (simp add: col_inv_def)
  show ?thesis
    using assms(6) s1 s2 unfolding ipfix_write_sendbuffer_to_datafile_def Let_def col1(1) by simp blast
qed

lemma send_templates_udp_ok:
  assumes "tready js ks ex"
  shows "\<exists>ex'. send_templates_udp os now expired i ex = Inr ex' \<and> send_step {i} ex ex'"
proof (cases "expired \<and> committed_data_length (template_sendbuffer ex) > 0")
  case False
  then show ?thesis using send_step_refl by (auto simp: send_templates_udp_def)
next
  case True
  let ?b = "ipfix_update_header os (i, 0) ex (collector_arr ex ! i) (template_sendbuffer ex)"
  let ?ex1 = "ex\<lparr>last_template_transmission_time := word_of_int now, template_sendbuffer := ?b\<rparr>"
  have s: "send_step {i} ex ?ex1" by (rule send_step_template_header(1) [OF update_header_body])
  have "tbuf (export_protocol ?ex1) ?b js" "readable (tmem ?ex1) js"
    using send_step_tready [OF s assms] by (simp_all add: tready_def)
  from tbuf_bytes [OF this] obtain bs where "iovecs_bytes (export_protocol ?ex1) (tmem ?ex1) ?b 0 (current ?b) = Inr bs"
    by blast
  then have "send_templates_udp os now expired i ex =
      Inr (message_sent i (log_send i (fst (sendmsg os (i, 1) (data_socket (collector_arr ex ! i)) bs)) bs ?ex1))"
    unfolding send_templates_udp_def Let_def using True by simp
  then show ?thesis
    using send_step_trans1 [OF s send_step_trans1 [OF send_step_log send_step_message_sent]] by blast
qed

lemma send_templates_sctp_connected_ok:
  assumes "tready js ks ex" and "col_protocol (collector_arr ex ! i) = SCTP"
  shows "\<exists>ex'. send_templates_sctp_connected os i ex = Inr ex' \<and> send_step {i} ex ex'"
proof (cases "committed_data_length (sctp_template_sendbuffer ex) > 0")
  case False
  then show ?thesis using send_step_message_sent by (auto simp: send_templates_sctp_connected_def)
next
  case True
  let ?b = "ipfix_update_header os (i, 1) ex (collector_arr ex ! i) (sctp_template_sendbuffer ex)"
  let ?ex1 = "ex\<lparr>sctp_template_sendbuffer := ?b\<rparr>"
  have s: "send_step {i} ex ?ex1" by (rule send_step_template_header(3) [OF update_header_body])
  have "tbuf (export_protocol ?ex1) ?b ks" "readable (tmem ?ex1) ks"
    using send_step_tready [OF s assms(1)] by (simp_all add: tready_def)
  from tbuf_bytes [OF this] obtain r bs where
    r: "sctp_sendmsgv os (i, 2) (data_socket (collector_arr ex ! i)) ?ex1 ?b (current ?b) = Inr (r, bs)"
    using sctp_sendmsgv_ok by (metis surj_pair)
  have "send_step {i} ?ex1 (on_collector i (\<lambda>c. snd (sctp_reconnect os (i, 3) c)) ?ex1)"
    by (rule send_step_on_collector) (simp add: sctp_reconnect_inv assms(2))
  then have "send_step {i} ?ex1 (if r = -1 then on_collector i (\<lambda>c. snd (sctp_reconnect os (i, 3) c)) ?ex1
      else log_send i r bs ?ex1)"
    using send_step_log by simp
  from send_step_trans1 [OF s send_step_trans1 [OF this send_step_message_sent]] show ?thesis
    unfolding send_templates_sctp_connected_def Let_def using True r by simp
qed

lemma send_templates_sctp_ok:
  assumes "tready js ks ex" and "cols_inv ex" and "i < length (collector_arr ex)"
    and "col_protocol (collector_arr ex ! i) = SCTP" and "cstate (collector_arr ex ! i) \<noteq> C_UNUSED"
  shows "\<exists>ex'. send_templates_sctp os now i ex = Inr ex' \<and> send_step {i} ex ex'"
proof -
  let ?ex1 = "on_collector i (\<lambda>c. snd (sctp_reconnect os (i, 0) c)) ex"
  have s: "send_step {i} ex ?ex1"
    by (rule send_step_on_collector) (simp add: sctp_reconnect_inv assms(4))
  have p: "col_protocol (snd (sctp_reconnect os (i, 0) c)) = col_protocol c" for c
    by (simp add: sctp_reconnect_def sctp_handshake_def sctp_lost_def Let_def split: option.split recv_result.split)
  have "col_protocol (collector_arr ?ex1 ! i) = SCTP"
    using assms(3,4) by (simp add: on_collector_def p)
  then obtain ex2 where "send_templates_sctp_connected os i ?ex1 = Inr ex2" "send_step {i} ?ex1 ex2"
    using send_templates_sctp_connected_ok [OF send_step_tready [OF s assms(1)]] by blast
  then have rec: "\<exists>ex'. send_templates_sctp_connected os i ?ex1 = Inr ex' \<and> send_step {i} ex ex'"
    using send_step_trans1 [OF s] by blast
  note con = send_templates_sctp_connected_ok [OF assms(1,4)] and rem = remove_collector_at_ok [OF assms(2,3) disjI1 [OF assms(5)]]
  show ?thesis
  proof (cases "cstate (collector_arr ex ! i)")
    case C_DISCONNECTED
    with rec rem show ?thesis using send_step_refl by (auto simp: send_templates_sctp_def Let_def)
  qed (use rec con assms(5) in \<open>simp_all add: send_templates_sctp_def Let_def\<close>)
qed

lemma send_templates_file_ok:
  assumes "tready js ks ex" and "files_end os" and "cols_inv ex" and "i < length (collector_arr ex)"
    and "col_protocol (collector_arr ex ! i) = DATAFILE" and "cstate (collector_arr ex ! i) \<noteq> C_UNUSED"
  shows "\<exists>ex'. send_templates_file os i ex = Inr ex' \<and> send_step {i} ex ex'"
proof (cases "committed_data_length (template_sendbuffer ex) > 0")
  case False
  then show ?thesis using send_step_refl by (auto simp: send_templates_file_def)
next
  case True
  let ?b = "ipfix_update_header os (i, 0) ex (collector_arr ex ! i) (template_sendbuffer ex)"
  let ?ex1 = "ex\<lparr>template_sendbuffer := ?b\<rparr>"
  have s: "send_step {i} ex ?ex1" by (rule send_step_template_header(2) [OF update_header_body])
  have "tbuf (export_protocol ?ex1) ?b js" "readable (tmem ?ex1) js"
    using send_step_tready [OF s assms(1)] by (simp_all add: tready_def)
  note b = tbuf_bytes [OF this]
  have "cols_inv ?ex1" using assms(3) by (simp add: cols_inv_def)
  then obtain ok ex2 where
    "ipfix_write_sendbuffer_to_datafile os 1 i ?b ?ex1 = Inr (ok, ex2)" "send_step {i} ?ex1 ex2"
    using write_datafile_ok [OF assms(2) _ _ _ _ b, of i 1] assms(4-6) by auto
  then show ?thesis
    using True send_step_trans1 [OF s send_step_trans1 [OF _ send_step_message_sent]]
    by (auto simp: send_templates_file_def Let_def)
qed

lemma send_templates_to_ok:
  assumes "tready js ks ex" and "files_end os" and "cols_inv ex" and "i < length (collector_arr ex)"
  shows "\<exists>ex'. send_templates_to os now expired i ex = Inr (0, ex') \<and> send_step {i} ex ex'"
proof (cases "cstate (collector_arr ex ! i) = C_UNUSED")
  case True
  then show ?thesis using send_step_refl by (auto simp: send_templates_to_def)
next
  case False
  have "col_inv (collector_arr ex ! i)" using assms(3,4) by (simp add: cols_inv_def)
  then have v: "valid_transport_protocol (col_protocol (collector_arr ex ! i))" using False by (simp add: col_inv_def)
  note ok = send_templates_udp_ok [OF assms(1), of os now expired i] send_templates_sctp_ok [OF assms(1,3,4) _ False, where os = os and now = now]
    send_templates_file_ok [OF assms(1-4) _ False]
  show ?thesis
    using v False ok by (cases "col_protocol (collector_arr ex ! i)") (auto simp: send_templates_to_def)
qed

lemma send_templates_loop_ok:
  assumes "tready js ks ex" and "files_end os" and "cols_inv ex" and "i + n \<le> length (collector_arr ex)"
  shows "\<exists>ex'. send_templates_loop os now expired i n ex = Inr (1, ex') \<and> send_step {i..<i + n} ex ex'"
  using assms
proof (induction n arbitrary: i ex)
  case 0
  then show ?case using send_step_refl by auto
next
  case (Suc n)
  obtain ex1 where ex1: "send_templates_to os now expired i ex = Inr (0, ex1)" "send_step {i} ex ex1"
    using send_templates_to_ok [OF Suc.prems(1-3), of i now expired] Suc.prems(4) by auto
  note d = send_stepD [OF ex1(2)]
  have "tready js ks ex1" "cols_inv ex1" "length (collector_arr ex1) = length (collector_arr ex)"
    using send_step_tready [OF ex1(2) Suc.prems(1)] Suc.prems(3) d by simp_all
  then obtain ex2 where ex2: "send_templates_loop os now expired (i + 1) n ex1 = Inr (1, ex2)"
      "send_step {i + 1..<i + 1 + n} ex1 ex2"
    using Suc.IH [of ex1 "i + 1"] Suc.prems(2,4) by auto
  have "{i} \<union> {i + 1..<i + 1 + n} = {i..<i + Suc n}" by auto
  with send_step_trans [OF ex1(2) ex2(2)] ex1(1) ex2(1) show ?case by simp
qed

lemma next_template_readable:
  assumes "templates_inv ts" and "\<forall>t \<in> set ts. P t \<longrightarrow> tstate t \<in> {T_COMMITED, T_SENT, T_WITHDRAWN}"
    and "i < length ts" and "P (ts ! i)"
  shows "\<exists>m. template_fields (map next_template ts ! i) = Some m \<and> fields_length (ts ! i) \<le> length m"
proof -
  have "template_inv (ts ! i)" "tstate (ts ! i) \<in> {T_COMMITED, T_SENT, T_WITHDRAWN}"
    using assms templates_inv_nth by auto
  then show ?thesis
    using assms(3) by (auto simp: template_inv_def next_template_def)
qed

lemma udp_items_set: "(j, n) \<in> set (udp_items i ts) \<longleftrightarrow>
    (\<exists>k < length ts. j = i + k \<and> n = fields_length (ts ! k) \<and> (tstate (ts ! k) = T_COMMITED \<or> tstate (ts ! k) = T_SENT))"
  by (induction ts arbitrary: i) (auto simp: less_Suc_eq_0_disj)

lemma sctp_items_set: "(j, n) \<in> set (sctp_items i ts) \<longleftrightarrow>
    (\<exists>k < length ts. j = i + k \<and> n = fields_length (ts ! k) \<and> (tstate (ts ! k) = T_COMMITED \<or> tstate (ts ! k) = T_WITHDRAWN))"
  by (induction ts arbitrary: i) (auto simp: less_Suc_eq_0_disj)

text \<open>The invariant of an exporter between two calls.\<close>

definition exporter_inv :: "ipfix_exporter \<Rightarrow> bool" where
  "exporter_inv ex \<longleftrightarrow>
     buffers_ready ex \<and> length (template_arr ex) \<le> IPFIX_MAX_TEMPLATES \<and> templates_inv (template_arr ex) \<and>
     cols_inv ex \<and> (\<exists>ss op. sb_rel (export_protocol ex) (data_sendbuffer ex) ss op)"

lemma exporter_invD:
  assumes "exporter_inv ex"
  shows "buffers_ready ex" "length (template_arr ex) \<le> IPFIX_MAX_TEMPLATES" "templates_inv (template_arr ex)"
    "cols_inv ex" "\<exists>ss op. sb_rel (export_protocol ex) (data_sendbuffer ex) ss op"
  using assms by (simp_all add: exporter_inv_def)

text \<open>The exporter after the refill, when the templates go out.\<close>

definition refilled :: "ipfix_exporter \<Rightarrow> ipfix_exporter \<Rightarrow> bool" where
  "refilled ex ex1 \<longleftrightarrow> (\<exists>tb sb.
     ex1 = ex\<lparr>template_arr := map next_template (template_arr ex), template_sendbuffer := tb,
        sctp_template_sendbuffer := sb\<rparr> \<and>
     tready (udp_items 0 (template_arr ex)) (sctp_items 0 (template_arr ex)) ex1 \<and>
     ipfix_message_header tb = zero_ipfix_header \<and> ipfix_message_header sb = zero_ipfix_header)"

lemma update_refilled:
  assumes "exporter_inv ex"
  shows "\<exists>ex1. ipfix_update_template_sendbuffer ex = Inr (0, ex1) \<and> refilled ex ex1"
proof -
  let ?ts = "template_arr ex"
  note inv = exporter_invD [OF assms]
  obtain tb sb where u: "ipfix_update_template_sendbuffer ex =
      Inr (0, ex\<lparr>template_arr := map next_template ?ts, template_sendbuffer := tb, sctp_template_sendbuffer := sb\<rparr>)"
      "tbuf (export_protocol ex) tb (udp_items 0 ?ts)" "tbuf (export_protocol ex) sb (sctp_items 0 ?ts)"
      "ipfix_message_header tb = zero_ipfix_header" "ipfix_message_header sb = zero_ipfix_header"
    using update_template_sendbuffer [OF inv(1,2)] by blast
  let ?ex1 = "ex\<lparr>template_arr := map next_template ?ts, template_sendbuffer := tb, sctp_template_sendbuffer := sb\<rparr>"
  have "readable (tmem ?ex1) (udp_items 0 ?ts)"
    unfolding readable_def
    using next_template_readable [OF inv(3), of "\<lambda>t. tstate t = T_COMMITED \<or> tstate t = T_SENT"]
    by (fastforce simp: udp_items_set tmem_def)
  moreover have "readable (tmem ?ex1) (sctp_items 0 ?ts)"
    unfolding readable_def
    using next_template_readable [OF inv(3), of "\<lambda>t. tstate t = T_COMMITED \<or> tstate t = T_WITHDRAWN"]
    by (fastforce simp: sctp_items_set tmem_def)
  ultimately have "refilled ex ?ex1"
    using u unfolding refilled_def by (intro exI [of _ tb] exI [of _ sb]) (simp add: tready_def)
  with u(1) show ?thesis by blast
qed

lemma send_step_inv:
  assumes "send_step J ex ex'" and "exporter_inv ex"
  shows "exporter_inv ex'"
proof -
  note d = send_stepD [OF assms(1)] and inv = exporter_invD [OF assms(2)]
  obtain ss op where "sb_rel (export_protocol ex) (data_sendbuffer ex) ss op" using inv(5) by blast
  then have "sb_rel (export_protocol ex') (data_sendbuffer ex') ss op" using d(1) same_body_sb_rel [OF d(5)] by simp
  moreover have "buffers_ready ex'"
    using inv(1) d(1) same_body_eqs(1) [OF d(3)] same_body_eqs(1) [OF d(4)] by (simp add: buffers_ready_def)
  ultimately show ?thesis using inv d(2,7) by (auto simp: exporter_inv_def)
qed

lemma refilled_inv:
  assumes "refilled ex ex1" and "exporter_inv ex"
  shows "exporter_inv ex1"
proof -
  obtain tb sb where ex1: "ex1 = ex\<lparr>template_arr := map next_template (template_arr ex), template_sendbuffer := tb,
        sctp_template_sendbuffer := sb\<rparr>"
    and t: "tready (udp_items 0 (template_arr ex)) (sctp_items 0 (template_arr ex)) ex1"
    using assms(1) unfolding refilled_def by blast
  have "buffers_ready ex1" using t by (simp add: tready_def buffers_ready_def tbuf_def)
  moreover have "templates_inv (template_arr ex1)"
    using exporter_invD(3) [OF assms(2)] next_template_inv by (simp add: ex1 templates_inv_def)
  ultimately show ?thesis
    using exporter_invD [OF assms(2)] unfolding exporter_inv_def by (simp add: ex1 cols_inv_def)
qed

lemma send_templates_ok:
  assumes "exporter_inv ex" and "files_end os"
  shows "\<exists>ex1 ex'. ipfix_send_templates os ex = Inr (1, ex') \<and> refilled ex ex1 \<and>
    send_step {..<length (collector_arr ex)} ex1 ex' \<and> exporter_inv ex'"
proof -
  obtain ex1 where ex1: "ipfix_update_template_sendbuffer ex = Inr (0, ex1)" "refilled ex ex1"
    using update_refilled [OF assms(1)] by blast
  have inv1: "exporter_inv ex1" by (rule refilled_inv [OF ex1(2) assms(1)])
  have "tready (udp_items 0 (template_arr ex)) (sctp_items 0 (template_arr ex)) ex1"
      "length (collector_arr ex1) = length (collector_arr ex)"
    using ex1(2) by (auto simp: refilled_def)
  then obtain ex' where ex': "send_templates_loop os (time_of os (length (collector_arr ex), 0))
        (time_of os (length (collector_arr ex), 0) - uint (last_template_transmission_time ex) > uint (template_transmission_timer ex))
        0 (length (collector_arr ex)) ex1 = Inr (1, ex')" "send_step {0..<0 + length (collector_arr ex)} ex1 ex'"
    using send_templates_loop_ok [OF _ assms(2) exporter_invD(4) [OF inv1], of _ _ 0 "length (collector_arr ex)"]
    by (metis add_0 order_refl)
  have "send_step {..<length (collector_arr ex)} ex1 ex'"
    using ex'(2) by (simp add: atLeast0LessThan)
  then show ?thesis
    using ex1 ex'(1) send_step_inv inv1 \<open>length (collector_arr ex1) = length (collector_arr ex)\<close>
    by (intro exI [of _ ex1] exI [of _ ex']) (simp add: ipfix_send_templates_def Let_def)
qed

section \<open>Safety of sending data\<close>

lemma update_collector_mtu_ok:
  assumes "cols_inv ex" and "i < length (collector_arr ex)" and "cstate (collector_arr ex ! i) \<noteq> C_UNUSED"
  shows "\<exists>r ex'. update_collector_mtu os k i ex = Inr (r, ex') \<and> send_step {i} ex ex' \<and> r \<in> {0, -1}"
proof -
  have m: "send_step J a (update_exporter_max_message_size a)" for J a
    by (simp add: send_step_def update_exporter_max_message_size_def same_body_refl msgs_def cols_inv_def)
  have "send_step {i} ex (on_collector i (\<lambda>c. c\<lparr>mtu := x\<rparr>) ex)" for x
    by (rule send_step_on_collector) (simp add: col_inv_def)
  from send_step_trans1 [OF this m] have
    u: "send_step {i} ex (update_exporter_max_message_size (on_collector i (\<lambda>c. c\<lparr>mtu := x\<rparr>) ex))" for x .
  show ?thesis
    using remove_collector_at_ok [OF assms(1,2) disjI1 [OF assms(3)]] u send_step_refl
    by (auto simp: update_collector_mtu_def Let_def)
qed

lemma send_data_to_ok:
  assumes "files_end os" and "exporter_inv ex" and "i < length (collector_arr ex)"
  shows "\<exists>ex'. send_data_to os i ex = Inr ex' \<and> send_step {i} ex ex'"
proof -
  let ?col = "collector_arr ex ! i"
  let ?b = "ipfix_update_header os (i, 10) ex ?col (data_sendbuffer ex)"
  let ?ex1 = "ex\<lparr>data_sendbuffer := ?b\<rparr>"
  have s: "send_step {i} ex ?ex1" by (rule send_step_template_header(4) [OF update_header_body])
  have inv1: "exporter_inv ?ex1" by (rule send_step_inv [OF s assms(2)])
  then obtain ss op where sb: "sb_rel (export_protocol ?ex1) ?b ss op"
    using exporter_invD(5) [OF inv1] by auto
  obtain bs where bs: "iovecs_bytes (export_protocol ?ex1) (tmem ?ex1) ?b 0 (current ?b) = Inr bs"
    using sb_rel_readable [OF sb] by blast
  obtain r cs where sv: "sctp_sendmsgv os (i, 11) (data_socket ?col) ?ex1 ?b (committed ?b) = Inr (r, cs)"
    using sctp_sendmsgv_ok [OF sb_rel_bytes [OF sb]] by (metis surj_pair)
  show ?thesis
  proof (cases "cstate ?col = C_CONNECTED")
    case False
    then show ?thesis using s by (simp add: send_data_to_def Let_def)
  next
    case True
    have c: "i < length (collector_arr ?ex1)" "cstate (collector_arr ?ex1 ! i) \<noteq> C_UNUSED"
      using assms(3) True by simp_all
    note fin = send_step_trans1 [OF s send_step_trans1 [OF _ send_step_message_sent]]
    have "col_inv ?col" using exporter_invD(4) [OF assms(2)] assms(3) by (simp add: cols_inv_def)
    then have v: "valid_transport_protocol (col_protocol ?col)" using True by (simp add: col_inv_def)
    show ?thesis
    proof (cases "col_protocol ?col")
      case UDP
      obtain r' ex2 where m: "update_collector_mtu os (i, 12) i ?ex1 = Inr (r', ex2)" "send_step {i} ?ex1 ex2"
        using update_collector_mtu_ok [OF exporter_invD(4) [OF inv1] c] by blast
      obtain r e where "sendmsg os (i, 11) (data_socket ?col) bs = (r, e)" by fastforce
      then show ?thesis
        using True UDP bs m fin send_step_log by (auto simp: send_data_to_def Let_def)
    next
      case SCTP
      have "send_step {i} ?ex1 (on_collector i (\<lambda>c. snd (sctp_reconnect os (i, 12) c)) ?ex1)"
        by (rule send_step_on_collector) (simp add: sctp_reconnect_inv SCTP)
      then show ?thesis
        using True SCTP sv fin send_step_log by (auto simp: send_data_to_def Let_def)
    next
      case DATAFILE
      obtain ok ex2 where "ipfix_write_sendbuffer_to_datafile os 11 i ?b ?ex1 = Inr (ok, ex2)" "send_step {i} ?ex1 ex2"
        using write_datafile_ok [OF assms(1) exporter_invD(4) [OF inv1] c _ bs, of 11] DATAFILE by auto
      then show ?thesis
        using True DATAFILE fin by (auto simp: send_data_to_def Let_def)
    qed (use v in simp_all)
  qed
qed

lemma send_data_loop_ok:
  assumes "files_end os" and "exporter_inv ex" and "i + n \<le> length (collector_arr ex)"
  shows "\<exists>ex'. send_data_loop os i n ex = Inr ex' \<and> send_step {i..<i + n} ex ex'"
  using assms
proof (induction n arbitrary: i ex)
  case 0
  then show ?case using send_step_refl by auto
next
  case (Suc n)
  obtain ex1 where ex1: "send_data_to os i ex = Inr ex1" "send_step {i} ex ex1"
    using send_data_to_ok [OF Suc.prems(1,2), of i] Suc.prems(3) by auto
  obtain ex2 where ex2: "send_data_loop os (i + 1) n ex1 = Inr ex2" "send_step {i + 1..<i + 1 + n} ex1 ex2"
    using Suc.IH [OF Suc.prems(1) send_step_inv [OF ex1(2) Suc.prems(2)], of "i + 1"] send_stepD(6) [OF ex1(2)]
      Suc.prems(3) by auto
  have "{i} \<union> {i + 1..<i + 1 + n} = {i..<i + Suc n}" by auto
  with send_step_trans [OF ex1(2) ex2(2)] ex1(1) ex2(1) show ?case by simp
qed

text \<open>
  After the data has been sent: the buffer is empty, and the sequence number counts the
  records of the message.
\<close>

lemma send_data_ok:
  assumes "exporter_inv ex" and "files_end os"
  shows "\<exists>ex1 ex'. ipfix_send_data os ex = Inr (0, ex') \<and> send_step {..<length (collector_arr ex)} ex ex1 \<and>
    ex' = (if committed_data_length (data_sendbuffer ex) > 0
           then ex1\<lparr>sequence_number := sequence_number ex + sn_increment ex, sn_increment := 0,
                    data_sendbuffer := ipfix_reset_sendbuffer (data_sendbuffer ex1)\<rparr>
           else ex1\<lparr>data_sendbuffer := ipfix_reset_sendbuffer (data_sendbuffer ex1)\<rparr>) \<and>
    (committed_data_length (data_sendbuffer ex) > 0 \<longrightarrow> send_data_loop os 0 (length (collector_arr ex)) ex = Inr ex1)"
proof (cases "committed_data_length (data_sendbuffer ex) > 0")
  case False
  then show ?thesis
    using send_step_refl by (auto simp: ipfix_send_data_def)
next
  case True
  obtain ex1 where ex1: "send_data_loop os 0 (length (collector_arr ex)) ex = Inr ex1"
      "send_step {..<length (collector_arr ex)} ex ex1"
    using send_data_loop_ok [OF assms(2,1), of 0 "length (collector_arr ex)"] by (auto simp: atLeast0LessThan)
  with True show ?thesis
    using send_stepD(8,9) [OF ex1(2)] by (auto simp: ipfix_send_data_def)
qed

lemma send_data_inv:
  assumes "exporter_inv ex" and "files_end os"
  shows "\<exists>ex'. ipfix_send_data os ex = Inr (0, ex') \<and> exporter_inv ex' \<and>
    sb_rel (export_protocol ex') (data_sendbuffer ex') [] None \<and> record_count (data_sendbuffer ex') = 0"
proof -
  obtain ex1 ex' where e: "ipfix_send_data os ex = Inr (0, ex')" "send_step {..<length (collector_arr ex)} ex ex1"
    "ex' = (if committed_data_length (data_sendbuffer ex) > 0
           then ex1\<lparr>sequence_number := sequence_number ex + sn_increment ex, sn_increment := 0,
                    data_sendbuffer := ipfix_reset_sendbuffer (data_sendbuffer ex1)\<rparr>
           else ex1\<lparr>data_sendbuffer := ipfix_reset_sendbuffer (data_sendbuffer ex1)\<rparr>)"
    using send_data_ok [OF assms] by blast
  note inv1 = exporter_invD [OF send_step_inv [OF e(2) assms(1)]]
  obtain ss op where "sb_rel (export_protocol ex1) (data_sendbuffer ex1) ss op" using inv1(5) by blast
  then have sb: "sb_rel (export_protocol ex1) (ipfix_reset_sendbuffer (data_sendbuffer ex1)) [] None"
    by (rule reset_sb_rel)
  have rc: "record_count (ipfix_reset_sendbuffer b) = 0" for b by (simp add: ipfix_reset_sendbuffer_def)
  from e(1,3) inv1 sb show ?thesis
    by (cases "committed_data_length (data_sendbuffer ex) > 0")
      (auto simp: exporter_inv_def buffers_ready_def cols_inv_def rc)
qed

lemma send_ok:
  assumes "exporter_inv ex" and "files_end os"
  shows "\<exists>ex'. ipfix_send os ex = Inr (0, ex') \<and> exporter_inv ex' \<and>
    sb_rel (export_protocol ex') (data_sendbuffer ex') [] None \<and> record_count (data_sendbuffer ex') = 0"
proof -
  obtain ex1 where "ipfix_send_templates os ex = Inr (1, ex1)" "exporter_inv ex1"
    using send_templates_ok [OF assms] by blast
  then show ?thesis
    using send_data_inv [OF _ assms(2), of ex1] by (auto simp: ipfix_send_def)
qed

section \<open>Safety of the calls of an application\<close>

definition exporter_at :: "data_set list \<times> open_set option \<Rightarrow> ipfix_exporter \<Rightarrow> bool" where
  "exporter_at x ex \<longleftrightarrow> exporter_inv ex \<and> sb_rel (export_protocol ex) (data_sendbuffer ex) (fst x) (snd x)"

definition data_call :: "buf_op \<Rightarrow> ipfix_exporter \<Rightarrow> (int \<times> ipfix_exporter) res" where
  "data_call a ex =
     (case a of
        EndSet n \<Rightarrow> res_bind (ipfix_end_data_set n (sn_increment ex) (data_sendbuffer ex)) (\<lambda>(r, sn, b).
          Inr (r, ex\<lparr>sn_increment := sn, data_sendbuffer := b\<rparr>))
      | _ \<Rightarrow> res_bind (buf_step a (data_sendbuffer ex)) (\<lambda>(r, b). Inr (r, ex\<lparr>data_sendbuffer := b\<rparr>)))"

datatype exporter_call =
    AddCollector os_env string u16 ipfix_transport_protocol "u16 option" string
  | RemoveCollector string u16
  | StartTemplate os_env "nat \<Rightarrow> byte" u16 u16
  | PutTemplateField u16 u16 u16 u32
  | EndTemplate u16
  | RemoveTemplate u16
  | DataCall buf_op
  | Send os_env

fun exporter_step :: "exporter_call \<Rightarrow> ipfix_exporter \<Rightarrow> (int \<times> ipfix_exporter) res" where
  "exporter_step (AddCollector os a p t aux vrf) ex = ipfix_add_collector os a p t aux vrf ex"
| "exporter_step (RemoveCollector a p) ex = ipfix_remove_collector a p ex"
| "exporter_step (StartTemplate os mem tid fc) ex = ipfix_start_template os mem tid fc ex"
| "exporter_step (PutTemplateField tid ty l eid) ex = ipfix_put_template_field tid ty l eid ex"
| "exporter_step (EndTemplate tid) ex = ipfix_end_template tid ex"
| "exporter_step (RemoveTemplate tid) ex = ipfix_remove_template tid ex"
| "exporter_step (DataCall a) ex = data_call a ex"
| "exporter_step (Send os) ex = ipfix_send os ex"

text \<open>
  What a caller must respect: the lengths of fields and sets, and no removal of the collector
  without a name (a file collector cannot be removed by its address); the environment has a
  free file name. The second argument is the contents of the data buffer.
\<close>

fun call_ok :: "exporter_call \<Rightarrow> data_set list \<times> open_set option \<Rightarrow> bool" where
  "call_ok (AddCollector os a p t aux vrf) x = files_end os"
| "call_ok (RemoveCollector a p) x = (a \<noteq> [])"
| "call_ok (StartTemplate os mem tid fc) x = files_end os"
| "call_ok (DataCall a) x = op_fits a x"
| "call_ok (Send os) x = files_end os"
| "call_ok _ x = True"

fun call_effect :: "exporter_call \<Rightarrow> data_set list \<times> open_set option \<Rightarrow> data_set list \<times> open_set option" where
  "call_effect (DataCall a) x = snd (abs_step a x)"
| "call_effect (Send os) x = ([], None)"
| "call_effect _ x = x"

lemma step_at:
  assumes "send_step J ex ex'" and "exporter_at x ex"
  shows "exporter_at x ex'"
  using send_step_inv [OF assms(1)] assms(2) send_stepD(1) [OF assms(1)] same_body_sb_rel [OF send_stepD(5) [OF assms(1)]]
  by (simp add: exporter_at_def)

lemma templates_at:
  assumes "exporter_at x ex" and "templates_inv ts" and "length ts = length (template_arr ex)"
  shows "exporter_at x (ex\<lparr>template_arr := ts\<rparr>)"
    and "exporter_at x (ex\<lparr>template_arr := ts, last_template_transmission_time := t\<rparr>)"
  using assms by (simp_all add: exporter_at_def exporter_inv_def buffers_ready_def cols_inv_def)

lemma outcome_False: "outcome (\<lambda>_. False) Q r \<Longrightarrow> \<exists>x. r = Inr x \<and> Q x"
  by (cases r) (simp_all)

lemma template_calls_at:
  assumes "exporter_at x ex"
  shows "\<exists>r ex'. ipfix_put_template_field tid ty l eid ex = Inr (r, ex') \<and> exporter_at x ex'"
    and "\<exists>r ex'. ipfix_end_template tid ex = Inr (r, ex') \<and> exporter_at x ex'"
    and "\<exists>r ex'. ipfix_remove_template tid ex = Inr (r, ex') \<and> exporter_at x ex'"
proof -
  have inv: "templates_inv (template_arr ex)" using assms by (simp add: exporter_at_def exporter_inv_def)
  note p = outcome_False [OF put_template_field_arr_inv [OF inv, of tid ty l eid]]
    and e = outcome_False [OF end_template_arr_inv [OF inv, of tid]]
    and r = outcome_False [OF remove_template_arr_inv [OF inv, of tid]]
  show "\<exists>r ex'. ipfix_put_template_field tid ty l eid ex = Inr (r, ex') \<and> exporter_at x ex'"
    using p templates_at(1) [OF assms] by (auto simp: ipfix_put_template_field_def)
  show "\<exists>r ex'. ipfix_end_template tid ex = Inr (r, ex') \<and> exporter_at x ex'"
    using e templates_at [OF assms] by (auto simp: ipfix_end_template_def)
  show "\<exists>r ex'. ipfix_remove_template tid ex = Inr (r, ex') \<and> exporter_at x ex'"
    using r templates_at(1) [OF assms] by (auto simp: ipfix_remove_template_def)
qed

lemma send_templates_at:
  assumes "exporter_at x ex" and "files_end os"
  shows "\<exists>ex'. ipfix_send_templates os ex = Inr (1, ex') \<and> exporter_at x ex'"
proof -
  have inv: "exporter_inv ex" using assms(1) by (simp add: exporter_at_def)
  obtain ex1 ex' where e: "ipfix_send_templates os ex = Inr (1, ex')" "refilled ex ex1"
      "send_step {..<length (collector_arr ex)} ex1 ex'"
    using send_templates_ok [OF inv assms(2)] by blast
  have "exporter_at x ex1"
    using assms(1) refilled_inv [OF e(2) inv] e(2) by (auto simp: exporter_at_def refilled_def)
  with e show ?thesis using step_at by blast
qed

lemma init_template_ok: "\<exists>t. init_template mem p tid fc = Inr t \<and> template_inv t"
proof -
  obtain t where t: "init_template mem p tid fc = Inr t" "building p tid fc [] t"
    using building_init by blast
  then have "template_inv t"
    by (auto simp: building_def template_inv_def template_set_bytes_def)
  with t show ?thesis by blast
qed

lemma start_at:
  assumes "exporter_at x ex"
  shows "\<exists>r ex'. res_bind (init_template mem (export_protocol ex) tid fc) (\<lambda>t.
      Inr (0 :: int, ex\<lparr>template_arr := (template_arr ex)[i := t]\<rparr>)) = Inr (r, ex') \<and> exporter_at x ex'"
proof -
  obtain t where "init_template mem (export_protocol ex) tid fc = Inr t" "template_inv t"
    using init_template_ok by blast
  moreover have "templates_inv (template_arr ex)" using assms by (simp add: exporter_at_def exporter_inv_def)
  ultimately show ?thesis
    using templates_at(1) [OF assms templates_inv_update [of _ t i]] by simp
qed

lemma deinit_at:
  assumes "exporter_at x ex"
  shows "exporter_at x (ex\<lparr>template_arr := (template_arr ex)[i := snd (ipfix_deinit_template (template_arr ex ! i))]\<rparr>)"
proof (rule templates_at(1) [OF assms])
  show "templates_inv ((template_arr ex)[i := snd (ipfix_deinit_template (template_arr ex ! i))])"
    using assms by (intro templates_inv_update deinit_inv) (simp add: exporter_at_def exporter_inv_def)
qed simp

lemma start_template_at:
  assumes "exporter_at x ex" and "files_end os"
  shows "\<exists>r ex'. ipfix_start_template os mem tid fc ex = Inr (r, ex') \<and> exporter_at x ex'"
proof -
  define deinit where "deinit = (\<lambda>i (ex :: ipfix_exporter).
    ex\<lparr>template_arr := (template_arr ex)[i := snd (ipfix_deinit_template (template_arr ex ! i))]\<rparr>)"
  define start where "start = (\<lambda>i (ex :: ipfix_exporter). res_bind (init_template mem (export_protocol ex) tid fc) (\<lambda>t.
    Inr (0 :: int, ex\<lparr>template_arr := (template_arr ex)[i := t]\<rparr>)))"
  define withdraw where "withdraw = (\<lambda>i (ex :: ipfix_exporter).
    res_bind (ipfix_send_templates os ex) (\<lambda>(r, ex'). start i (deinit i ex')))"
  have s: "\<exists>r ex'. start i ey = Inr (r, ex') \<and> exporter_at x ex'" if "exporter_at x ey" for i ey
    using start_at [OF that] by (simp add: start_def)
  have d: "exporter_at x (deinit i ey)" if "exporter_at x ey" for i ey
    using deinit_at [OF that] by (simp add: deinit_def)
  have w: "\<exists>r ex'. withdraw i ey = Inr (r, ex') \<and> exporter_at x ex'" if "exporter_at x ey" for i ey
    using send_templates_at [OF that assms(2)] s d by (fastforce simp: withdraw_def)
  have t: "\<exists>r ex'. res_bind (ipfix_remove_template k ex) (\<lambda>(r, ex'). withdraw i ex') = Inr (r, ex') \<and> exporter_at x ex'"
    for i k
    using template_calls_at(3) [OF assms(1), of k] w by fastforce
  show ?thesis
    unfolding ipfix_start_template_def Let_def deinit_def [symmetric] start_def [symmetric]
    using assms(1) s d w [unfolded withdraw_def] t [unfolded withdraw_def]
    by (simp split: option.split template_state.split)
qed

lemma find_collector:
  assumes "find_index P (collector_arr ex) 0 = Some i"
  shows "i < length (collector_arr ex)" "P (collector_arr ex ! i)"
  using find_index_Some [OF assms] by auto

lemma remove_collector_call_at:
  assumes "exporter_at x ex" and "a \<noteq> []"
  shows "\<exists>r ex'. ipfix_remove_collector a p ex = Inr (r, ex') \<and> exporter_at x ex'"
proof (cases "find_index (\<lambda>c. ipaddress c = a \<and> port_number c = p) (collector_arr ex) 0")
  case None
  then show ?thesis using assms(1) by (simp add: ipfix_remove_collector_def)
next
  case (Some i)
  note f = find_collector [OF Some]
  have inv: "cols_inv ex" using assms(1) by (simp add: exporter_at_def exporter_inv_def)
  then have "col_inv (collector_arr ex ! i)" using f(1) by (simp add: cols_inv_def)
  then have "col_protocol (collector_arr ex ! i) \<noteq> DATAFILE" using f(2) assms(2) by (auto simp: col_inv_def)
  then obtain ex' where "remove_collector_at i ex = Inr ex'" "send_step {i} ex ex'"
    using remove_collector_at_ok [OF inv f(1)] by blast
  then show ?thesis
    using Some step_at [OF _ assms(1)] by (auto simp: ipfix_remove_collector_def)
qed

lemma on_collector_at:
  assumes "exporter_at x ex" and "col_inv (collector_arr ex ! i) \<Longrightarrow> col_inv (f (collector_arr ex ! i))"
  shows "exporter_at x (on_collector i f ex)"
  using step_at [OF send_step_on_collector assms(1)] assms(2) by blast

lemma update_max_at: "exporter_at x ex \<Longrightarrow> exporter_at x (update_exporter_max_message_size ex)"
  by (simp add: exporter_at_def exporter_inv_def buffers_ready_def cols_inv_def update_exporter_max_message_size_def)

lemma on_collector_nth: "i < length (collector_arr ex) \<Longrightarrow> collector_arr (on_collector i f ex) ! i = f (collector_arr ex ! i)"
  by (simp add: on_collector_def)

lemma length_on_collector: "length (collector_arr (on_collector i f ex)) = length (collector_arr ex)"
  by (simp add: on_collector_def)

lemma add_datafile_at:
  assumes "exporter_at x ex" and "files_end os"
  shows "\<exists>r ex'. add_collector_datafile os i base mx ex = Inr (r, ex') \<and> exporter_at x ex'"
proof -
  let ?col = "(collector_arr ex ! i)\<lparr>ipaddress := [], port_number := 0, data_socket := -1,
            col_protocol := DATAFILE, addr := None, last_reconnect_attempt_time := 0,
            basename := Some base, filenum := -1, maxfilesize := mx\<rparr>"
  obtain f n where "ipfix_new_file os (i, 0) ?col = Inr (?col\<lparr>fh := f, filenum := int n, bytes_written := 0\<rparr>)"
    using ipfix_new_file_ok [OF assms(2), of ?col base "(i, 0)"] by auto
  moreover have "exporter_at x (on_collector i (\<lambda>_. ?col\<lparr>fh := f, filenum := int n, bytes_written := 0, cstate := C_CONNECTED\<rparr>) ex)"
    by (rule on_collector_at [OF assms(1)]) (simp add: col_inv_def)
  ultimately show ?thesis
    unfolding add_collector_datafile_def Let_def by simp
qed

lemma add_remaining_at:
  assumes "exporter_at x ex" and "i < length (collector_arr ex)"
    and "col_protocol (collector_arr ex ! i) \<in> {UDP, SCTP}"
  shows "\<exists>r ex'. add_collector_remaining_protocols os i aux ex = Inr (r, ex') \<and> exporter_at x ex'"
proof -
  let ?udp = "col_protocol (collector_arr ex ! i) = UDP"
  let ?sock = "ipfix_init_send_socket os (i, 0) (col_protocol (collector_arr ex ! i))"
  let ?ex1 = "if ?udp then on_collector i (set_mtu_config aux) ex else ex"
  let ?ex2 = "on_collector i (\<lambda>c. c\<lparr>data_socket := ?sock\<rparr>) ?ex1"
  let ?ex3 = "on_collector i (\<lambda>c. c\<lparr>cstate := (if ?udp then C_CONNECTED else C_NEW)\<rparr>) ?ex2"
  have m: "col_protocol (set_mtu_config aux c) = col_protocol c" "col_inv c \<Longrightarrow> col_inv (set_mtu_config aux c)" for c
    by (auto simp: set_mtu_config_def col_inv_def split: option.split)
  have a1: "exporter_at x ?ex1" using assms(1) m(2) by (simp add: on_collector_at)
  have a2: "exporter_at x ?ex2" by (rule on_collector_at [OF a1]) (simp add: col_inv_def)
  have l: "i < length (collector_arr ?ex1)" "i < length (collector_arr ?ex2)" "i < length (collector_arr ?ex3)"
    using assms(2) by (simp_all add: length_on_collector)
  have p: "col_protocol (collector_arr ?ex2 ! i) \<in> {UDP, SCTP}"
    using assms(2,3) m(1) by (auto simp: on_collector_nth length_on_collector)
  have a3: "exporter_at x ?ex3" using p by (intro on_collector_at [OF a2]) (auto simp: col_inv_def)
  have "cstate (collector_arr ?ex3 ! i) \<noteq> C_UNUSED" using l(2) by (simp add: on_collector_nth)
  moreover have "cols_inv ?ex3" using a3 by (simp add: exporter_at_def exporter_inv_def)
  ultimately obtain r ex4 where ex4: "update_collector_mtu os (i, 1) i ?ex3 = Inr (r, ex4)" "send_step {i} ?ex3 ex4"
    using update_collector_mtu_ok [OF _ l(3)] by blast
  have a4: "exporter_at x ex4" by (rule step_at [OF ex4(2) a3])
  have a5: "exporter_at x (on_collector i (\<lambda>c. c\<lparr>last_reconnect_attempt_time := t\<rparr>) (update_exporter_max_message_size ex4))" for t
    by (rule on_collector_at [OF update_max_at [OF a4]]) (simp add: col_inv_def)
  show ?thesis
    unfolding add_collector_remaining_protocols_def Let_def using a2 a4 a5 ex4(1) by simp
qed

lemma add_collector_at:
  assumes "exporter_at x ex" and "files_end os"
  shows "\<exists>r ex'. ipfix_add_collector os a p t aux vrf ex = Inr (r, ex') \<and> exporter_at x ex'"
proof (cases "valid_transport_protocol t")
  case False
  then show ?thesis using assms(1) by (simp add: ipfix_add_collector_def)
next
  case True
  show ?thesis
  proof (cases "get_free_collector_slot ex")
    case None
    then show ?thesis using assms(1) True by (simp add: ipfix_add_collector_def)
  next
    case (Some i)
    note f = find_collector [OF Some [unfolded get_free_collector_slot_def]]
    let ?v6 = "CHR '':'' \<in> set a"
    let ?ex1 = "on_collector i (\<lambda>c. c\<lparr>ipaddress := take 39 a, port_number := p,
        col_protocol := t, vrf_name := take 15 vrf, addr := Some (?v6, [], p)\<rparr>) ex"
    let ?ex2 = "on_collector i (\<lambda>c. c\<lparr>addr := Some (?v6, a, p)\<rparr>) ?ex1"
    show ?thesis
    proof (cases "t = DATAFILE")
      case True
      then show ?thesis
        using add_datafile_at [OF assms, of i a "ucast p"] Some by (simp add: ipfix_add_collector_def)
    next
      case False
      then have t: "t \<in> {UDP, SCTP}" using True by (cases t) simp_all
      have a1: "exporter_at x ?ex1" using f(2) False by (intro on_collector_at [OF assms(1)]) (simp add: col_inv_def)
      have a2: "exporter_at x ?ex2" by (rule on_collector_at [OF a1]) (simp add: col_inv_def)
      have "i < length (collector_arr ?ex2)" "col_protocol (collector_arr ?ex2 ! i) \<in> {UDP, SCTP}"
        using f(1) t by (simp_all add: on_collector_nth length_on_collector)
      from add_remaining_at [OF a2 this, of os aux] show ?thesis
        unfolding ipfix_add_collector_def Let_def using a1 True False Some by simp
    qed
  qed
qed

lemma data_call_at:
  assumes "exporter_at x ex" and "op_fits a x"
  shows "\<exists>r ex'. data_call a ex = Inr (r, ex') \<and> exporter_at (snd (abs_step a x)) ex'"
proof -
  obtain ss op where x: "x = (ss, op)" by (cases x)
  obtain r ss' op' where st: "abs_step a (ss, op) = (r, ss', op')" by (metis prod_cases3)
  have sb: "sb_rel (export_protocol ex) (data_sendbuffer ex) ss op" using assms(1) x by (simp add: exporter_at_def)
  obtain b where b: "buf_step a (data_sendbuffer ex) = Inr (r, b)" "sb_rel (export_protocol ex) b ss' op'"
    using buf_step_refines [OF sb _ st] assms(2) x by blast
  have upd: "exporter_at (ss', op') (ex\<lparr>data_sendbuffer := b\<rparr>)"
      "exporter_at (ss', op') (ex\<lparr>sn_increment := sn, data_sendbuffer := b\<rparr>)" for sn
    using assms(1) b(2) by (auto simp: exporter_at_def exporter_inv_def buffers_ready_def cols_inv_def)
  show ?thesis
  proof (cases a)
    case (EndSet n)
    obtain r' sn b' where e: "ipfix_end_data_set n 0 (data_sendbuffer ex) = Inr (r', sn, b')" "b' = b"
      using b(1) EndSet by (auto elim!: res_bind_InrE)
    have "\<exists>r'' sn'. ipfix_end_data_set n (sn_increment ex) (data_sendbuffer ex) = Inr (r'', sn', b)"
      using e by (auto simp: ipfix_end_data_set_def put_set_header_def Let_def split: if_splits)
    then show ?thesis using EndSet x st upd(2) by (auto simp: data_call_def)
  qed (use b(1) x st upd(1) in \<open>auto simp: data_call_def\<close>)
qed

lemma exporter_step_at:
  assumes "exporter_at x ex" and "call_ok c x"
  shows "\<exists>r ex'. exporter_step c ex = Inr (r, ex') \<and> exporter_at (call_effect c x) ex'"
proof (cases c)
  case (Send os)
  then show ?thesis
    using send_ok [of ex os] assms by (auto simp: exporter_at_def)
qed (use assms add_collector_at remove_collector_call_at start_template_at template_calls_at data_call_at in \<open>auto\<close>)

fun exporter_run :: "exporter_call list \<Rightarrow> ipfix_exporter \<Rightarrow> (int list \<times> ipfix_exporter) res" where
  "exporter_run [] ex = Inr ([], ex)"
| "exporter_run (c # cs) ex = res_bind (exporter_step c ex) (\<lambda>(r, ex1).
     res_bind (exporter_run cs ex1) (\<lambda>(rs, ex2). Inr (r # rs, ex2)))"

fun calls_ok :: "exporter_call list \<Rightarrow> data_set list \<times> open_set option \<Rightarrow> bool" where
  "calls_ok [] x = True"
| "calls_ok (c # cs) x = (call_ok c x \<and> calls_ok cs (call_effect c x))"

lemma exporter_run_at:
  assumes "exporter_at x ex" and "calls_ok cs x"
  shows "\<exists>rs ex'. exporter_run cs ex = Inr (rs, ex') \<and> exporter_inv ex' \<and> length rs = length cs"
  using assms
proof (induction cs arbitrary: x ex)
  case Nil
  then show ?case by (simp add: exporter_at_def)
next
  case (Cons c cs)
  obtain r ex1 where ex1: "exporter_step c ex = Inr (r, ex1)" "exporter_at (call_effect c x) ex1"
    using exporter_step_at [OF Cons.prems(1), of c] Cons.prems(2) by auto
  then show ?case using Cons.IH [OF ex1(2)] Cons.prems(2) by auto
qed

lemma init_exporter_at: "exporter_at ([], None) (ipfix_init_exporter os mb mc mt ms p odid)"
proof -
  let ?ex = "ipfix_init_exporter os mb mc mt ms p odid"
  have "buffers_ready ?ex"
    by (cases p) (simp_all add: buffers_ready_def ipfix_init_exporter_def ipfix_init_sendbuffer_def)
  moreover have "cols_inv ?ex"
    by (auto simp: cols_inv_def col_inv_def ipfix_init_exporter_def ipfix_init_collector_array_def)
  moreover have "templates_inv (template_arr ?ex)"
    by (auto simp: templates_inv_def template_inv_def ipfix_init_exporter_def ipfix_init_template_array_def)
  moreover have "length (template_arr ?ex) \<le> IPFIX_MAX_TEMPLATES"
    by (simp add: ipfix_init_exporter_def ipfix_init_template_array_def)
  moreover have "sb_rel (export_protocol ?ex) (data_sendbuffer ?ex) [] None"
    using init_sb_rel by (simp add: ipfix_init_exporter_def)
  ultimately show ?thesis by (auto simp: exporter_at_def exporter_inv_def)
qed


text \<open>An environment that works: a clock, sockets and files that accept everything.\<close>

definition example_os :: os_env where
  "example_os = \<lparr>time_of = (\<lambda>_. 1000), gettimeofday = (\<lambda>_. Some (1000, 0)), inet_pton = (\<lambda>_ _. True),
     open_socket = (\<lambda>_ _. 5), ip_mtu = (\<lambda>_ _. 1500), select_readable = (\<lambda>_ _. 1), so_error = (\<lambda>_ _. Some 0),
     recv_notification = (\<lambda>_ _. RecvAssocChange True), sctp_established = (\<lambda>_ _. Some True),
     sendmsg = (\<lambda>_ _ bs. (int (length bs), False)), writev = (\<lambda>_ _ bs. int (length bs)),
     open_file = (\<lambda>_ _. Opened 7), iov_max = 1024\<rparr>"

definition example_calls :: "exporter_call list" where
  "example_calls = [AddCollector example_os ''10.0.0.1'' 4739 UDP None [],
     StartTemplate example_os (\<lambda>_. 0) 256 1, PutTemplateField 256 8 4 0, EndTemplate 256,
     DataCall (StartSet 256), DataCall (PutField [10, 0, 0, 7]), DataCall (EndSet 1), Send example_os]"

lemma files_end_example: "files_end example_os"
  by (auto simp: files_end_def example_os_def)


end
