(* ===== verification/Exporter_Messages.thy ===== *)
theory Exporter_Messages
  imports Exporter_Safety
begin

text \<open>
  The messages of the exporter library: what a collector receives when the application calls
  \<open>ipfix_send\<close>, with the contents of the message headers, and the life of a template from
  its definition to the bytes on the wire.
\<close>

section \<open>Message headers\<close>

definition msg_time :: "os_env \<Rightarrow> moment \<Rightarrow> u32" where
  "msg_time os k = (case gettimeofday os k of None \<Rightarrow> 0 | Some tv \<Rightarrow> word_of_int (fst tv))"

text \<open>An IPFIX message as RFC 7011 lays it out: version 10, total length, time, sequence number, domain.\<close>

definition ipfix_msg :: "u32 \<Rightarrow> u32 \<Rightarrow> u32 \<Rightarrow> bytes \<Rightarrow> bytes" where
  "ipfix_msg t sn odid body =
     htons_bytes 10 @ htons_bytes (of_nat (16 + length body)) @ htonl_bytes t @ htonl_bytes sn @
     htonl_bytes odid @ body"

lemma of_nat_pos_u32: "n \<noteq> 0 \<Longrightarrow> n < 2 ^ 32 \<Longrightarrow> (0 :: u32) < of_nat n"
  using unat_of_nat_u32 [of n] by (simp add: word_less_nat_alt)

lemma update_header_bytes:
  assumes "export_protocol ex = IPFIX_PROTOCOL" and "committed_data_length b = of_nat n" and "n \<noteq> 0"
    and "n < 2 ^ 32" and "length body = n"
  shows "header_bytes IPFIX_PROTOCOL (ipfix_update_header os k ex col b) @ body =
    ipfix_msg (msg_time os k) (sequence_number ex) (observation_domain_id ex) body"
proof -
  have "(of_nat n :: u32) \<noteq> 0"
    using of_nat_pos_u32 [OF assms(3,4)] by auto
  moreover have "(ucast (of_nat n + 16 :: u32) :: u16) = of_nat (16 + n)"
    using ucast_of_nat_u16 [of "16 + n"] by (simp add: add.commute)
  ultimately have "total_length b = of_nat (16 + n)"
    by (simp add: total_length_def assms(2))
  then show ?thesis
    using assms(1,5)
    by (simp add: header_bytes_def ipfix_update_header_def ipfix_header_bytes_def ipfix_msg_def msg_time_def Let_def
        split: option.split)
qed

section \<open>The loops over the collectors\<close>

lemma send_templates_loop_add:
  "send_templates_loop os now e i (m + n) ex = res_bind (send_templates_loop os now e i m ex) (\<lambda>(r, ex').
     if r < 0 then Inr (-1, ex') else send_templates_loop os now e (i + m) n ex')"
proof (induction m arbitrary: i ex)
  case 0
  show ?case by simp
next
  case (Suc m)
  have eq: "i + Suc m = Suc i + m" "Suc m + n = Suc (m + n)" by simp_all
  show ?case
    unfolding eq by (cases "send_templates_to os now e i ex") (auto simp: Suc.IH simp del: add_Suc split: prod.split)
qed

lemma send_data_loop_add:
  "send_data_loop os i (m + n) ex = res_bind (send_data_loop os i m ex) (send_data_loop os (i + m) n)"
proof (induction m arbitrary: i ex)
  case 0
  show ?case by simp
next
  case (Suc m)
  show ?case by (cases "send_data_to os i ex") (auto simp: Suc.IH)
qed

text \<open>The visit of the loop at the collector \<open>i\<close>.\<close>

lemma send_templates_visit:
  assumes "tready js ks ex" and "files_end os" and "cols_inv ex" and "i < length (collector_arr ex)"
  shows "\<exists>ea eb ec. send_step {..<i} ex ea \<and> send_templates_to os now e i ea = Inr (0, eb) \<and>
    send_step {i} ea eb \<and> send_step {i + 1..<length (collector_arr ex)} eb ec \<and>
    send_templates_loop os now e 0 (length (collector_arr ex)) ex = Inr (1, ec) \<and>
    send_templates_loop os now e 0 i ex = Inr (1, ea)"
proof -
  let ?n = "length (collector_arr ex)"
  obtain ea where ea: "send_templates_loop os now e 0 i ex = Inr (1, ea)" "send_step {..<i} ex ea"
    using send_templates_loop_ok [OF assms(1-3), of 0 i now e] assms(4) by (auto simp: atLeast0LessThan)
  note d = send_stepD [OF ea(2)]
  obtain eb where eb: "send_templates_to os now e i ea = Inr (0, eb)" "send_step {i} ea eb"
    using send_templates_to_ok [OF send_step_tready [OF ea(2) assms(1)] assms(2) d(7) [OF assms(3)], of i now e]
      d(6) assms(4) by auto
  note d' = send_stepD [OF eb(2)]
  obtain n' where n: "?n = i + Suc n'" using less_imp_Suc_add [OF assms(4)] by auto
  obtain ec where ec: "send_templates_loop os now e (i + 1) n' eb = Inr (1, ec)"
      "send_step {i + 1..<i + 1 + n'} eb ec"
    using send_templates_loop_ok [OF send_step_tready [OF eb(2) send_step_tready [OF ea(2) assms(1)]] assms(2)
        d'(7) [OF d(7) [OF assms(3)]], of "i + 1" n' now e] d(6) d'(6) n by auto
  have "send_templates_loop os now e 0 ?n ex = Inr (1, ec)"
    unfolding n send_templates_loop_add using ea(1) eb(1) ec(1) by simp
  with ea eb ec(2) n show ?thesis by auto
qed

lemma send_data_visit:
  assumes "files_end os" and "exporter_inv ex" and "i < length (collector_arr ex)"
  shows "\<exists>ea eb ec. send_step {..<i} ex ea \<and> send_data_to os i ea = Inr eb \<and> send_step {i} ea eb \<and>
    send_step {i + 1..<length (collector_arr ex)} eb ec \<and>
    send_data_loop os 0 (length (collector_arr ex)) ex = Inr ec"
proof -
  let ?n = "length (collector_arr ex)"
  obtain ea where ea: "send_data_loop os 0 i ex = Inr ea" "send_step {..<i} ex ea"
    using send_data_loop_ok [OF assms(1,2), of 0 i] assms(3) by (auto simp: atLeast0LessThan)
  note inva = send_step_inv [OF ea(2) assms(2)]
  obtain eb where eb: "send_data_to os i ea = Inr eb" "send_step {i} ea eb"
    using send_data_to_ok [OF assms(1) inva, of i] send_stepD(6) [OF ea(2)] assms(3) by auto
  obtain n' where n: "?n = i + Suc n'" using less_imp_Suc_add [OF assms(3)] by auto
  obtain ec where ec: "send_data_loop os (i + 1) n' eb = Inr ec" "send_step {i + 1..<i + 1 + n'} eb ec"
    using send_data_loop_ok [OF assms(1) send_step_inv [OF eb(2) inva], of "i + 1" n']
      send_stepD(6) [OF ea(2)] send_stepD(6) [OF eb(2)] n by auto
  have "send_data_loop os 0 ?n ex = Inr ec"
    unfolding n send_data_loop_add using ea(1) eb(1) ec(1) by simp
  with ea(2) eb ec(2) n show ?thesis by auto
qed

section \<open>The messages of a UDP collector\<close>

lemma msgs_log: "r \<noteq> -1 \<Longrightarrow> msgs i (message_sent i (log_send i r bs ex)) = msgs i ex @ [bs]"
  by (simp add: msgs_def message_sent_def on_collector_def log_send_def)

lemma msgs_cong: "transmitted ex' = transmitted ex \<Longrightarrow> msgs i ex' = msgs i ex"
  by (simp add: msgs_def)

lemma send_templates_to_udp:
  assumes "tready js ks ex" and "export_protocol ex = IPFIX_PROTOCOL" and "sum_list (map snd js) < 2 ^ 32"
    and "sum_list (map snd js) \<noteq> 0" and "col_protocol (collector_arr ex ! i) = UDP"
    and "cstate (collector_arr ex ! i) \<noteq> C_UNUSED" and "\<And>s bs. fst (sendmsg os (i, 1) s bs) \<noteq> -1"
  shows "\<exists>ex'. send_templates_to os now True i ex = Inr (0, ex') \<and>
    msgs i ex' = msgs i ex @
      [ipfix_msg (msg_time os (i, 0)) (sequence_number ex) (observation_domain_id ex) (items_bytes (tmem ex) js)]"
proof -
  let ?b = "ipfix_update_header os (i, 0) ex (collector_arr ex ! i) (template_sendbuffer ex)"
  let ?ex1 = "ex\<lparr>last_template_transmission_time := word_of_int now, template_sendbuffer := ?b\<rparr>"
  have t: "tbuf IPFIX_PROTOCOL (template_sendbuffer ex) js" and rd: "readable (tmem ex) js"
    using assms(1,2) by (simp_all add: tready_def)
  have c: "committed_data_length (template_sendbuffer ex) = of_nat (sum_list (map snd js))"
    using t by (simp add: tbuf_def)
  then have pos: "committed_data_length (template_sendbuffer ex) > 0"
    using of_nat_pos_u32 [OF assms(4,3)] by simp
  have tm: "tmem ?ex1 = tmem ex" by (rule tmem_cong) simp
  have "iovecs_bytes IPFIX_PROTOCOL (tmem ex) ?b 0 (current ?b) =
      Inr (header_bytes IPFIX_PROTOCOL ?b @ items_bytes (tmem ex) js)"
    by (rule tbuf_bytes [OF same_body_tbuf [OF update_header_body t] rd])
  also have "header_bytes IPFIX_PROTOCOL ?b @ items_bytes (tmem ex) js =
      ipfix_msg (msg_time os (i, 0)) (sequence_number ex) (observation_domain_id ex) (items_bytes (tmem ex) js)"
    using assms(3,4) by (intro update_header_bytes [OF assms(2) c]) (simp_all add: length_items_bytes [OF rd])
  finally have b: "iovecs_bytes (export_protocol ?ex1) (tmem ?ex1) ?b 0 (current ?b) =
      Inr (ipfix_msg (msg_time os (i, 0)) (sequence_number ex) (observation_domain_id ex) (items_bytes (tmem ex) js))"
    by (simp add: tm assms(2))
  show ?thesis
    using assms(5-7) pos b
    by (simp add: send_templates_to_def send_templates_udp_def Let_def msgs_log) (simp add: msgs_def)
qed

lemma send_data_to_udp:
  assumes "exporter_at (ss, None) ex" and "export_protocol ex = IPFIX_PROTOCOL" and "sets_size ss < 2 ^ 32"
    and "ss \<noteq> []" and "col_protocol (collector_arr ex ! i) = UDP"
    and "cstate (collector_arr ex ! i) = C_CONNECTED" and "\<And>s bs. fst (sendmsg os (i, 11) s bs) \<noteq> -1"
  shows "\<exists>ex'. send_data_to os i ex = Inr ex' \<and>
    msgs i ex' = msgs i ex @
      [ipfix_msg (msg_time os (i, 10)) (sequence_number ex) (observation_domain_id ex) (concat (map set_bytes ss))]"
proof -
  let ?b = "ipfix_update_header os (i, 10) ex (collector_arr ex ! i) (data_sendbuffer ex)"
  let ?ex1 = "ex\<lparr>data_sendbuffer := ?b\<rparr>"
  have sb: "sb_rel IPFIX_PROTOCOL (data_sendbuffer ex) ss None" using assms(1,2) by (simp add: exporter_at_def)
  then have sb': "sb_rel IPFIX_PROTOCOL ?b ss None" using same_body_sb_rel [OF update_header_body] by blast
  have c: "committed_data_length (data_sendbuffer ex) = of_nat (sets_size ss)" "current ?b = committed ?b"
    using sb sb' by (simp_all add: sb_defs)
  have "sets_size ss \<noteq> 0" using assms(4) by (cases ss) (auto simp: sets_size_def)
  then have h: "header_bytes IPFIX_PROTOCOL ?b @ concat (map set_bytes ss) =
      ipfix_msg (msg_time os (i, 10)) (sequence_number ex) (observation_domain_id ex) (concat (map set_bytes ss))"
    using assms(3) by (intro update_header_bytes [OF assms(2) c(1)]) (simp_all add: length_sets_bytes)
  have b: "iovecs_bytes (export_protocol ?ex1) (tmem ?ex1) ?b 0 (current ?b) =
      Inr (ipfix_msg (msg_time os (i, 10)) (sequence_number ex) (observation_domain_id ex) (concat (map set_bytes ss)))"
    unfolding c(2) using sb_rel_bytes [OF sb'] h by (simp add: assms(2))
  obtain r e where r: "sendmsg os (i, 11) (data_socket (collector_arr ex ! i))
      (ipfix_msg (msg_time os (i, 10)) (sequence_number ex) (observation_domain_id ex) (concat (map set_bytes ss))) = (r, e)"
    by fastforce
  with assms(7) have "r \<noteq> -1" by (metis fst_conv)
  then show ?thesis
    using assms(5,6) b r by (simp add: send_data_to_def Let_def msgs_log) (simp add: msgs_def)
qed

lemma tmem_refilled:
  assumes "refilled ex ex1"
  shows "items_bytes (tmem ex1) (udp_items 0 (template_arr ex)) = items_bytes (tmem ex) (udp_items 0 (template_arr ex))"
proof -
  have "template_arr ex1 = map next_template (template_arr ex)" using assms by (auto simp: refilled_def)
  then have "tmem ex1 j = tmem ex j" if "(j, n) \<in> set (udp_items 0 (template_arr ex))" for j n
    using that by (auto simp: udp_items_set tmem_def next_template_def)
  then show ?thesis unfolding items_bytes_def by (intro arg_cong [of _ _ concat] map_cong) auto
qed

lemma send_data_at:
  assumes "exporter_at (ss, None) ex" and "sets_size ss < 2 ^ 32" and "files_end os"
  shows "\<exists>ex1 ex'. ipfix_send_data os ex = Inr (0, ex') \<and>
    (ss \<noteq> [] \<longrightarrow> send_data_loop os 0 (length (collector_arr ex)) ex = Inr ex1) \<and> (ss = [] \<longrightarrow> ex1 = ex) \<and>
    transmitted ex' = transmitted ex1 \<and>
    sequence_number ex' = (if ss = [] then sequence_number ex else sequence_number ex + sn_increment ex) \<and>
    sn_increment ex' = (if ss = [] then sn_increment ex else 0)"
proof -
  have inv: "exporter_inv ex" and sb: "sb_rel (export_protocol ex) (data_sendbuffer ex) ss None"
    using assms(1) by (simp_all add: exporter_at_def)
  have c: "committed_data_length (data_sendbuffer ex) = of_nat (sets_size ss)" using sb by (simp add: sb_defs)
  show ?thesis
  proof (cases "ss = []")
    case True
    then show ?thesis using c by (simp add: ipfix_send_data_def sets_size_def)
  next
    case False
    then have "sets_size ss \<noteq> 0" by (cases ss) (auto simp: sets_size_def)
    then have pos: "committed_data_length (data_sendbuffer ex) > 0" using of_nat_pos_u32 assms(2) c by simp
    obtain ex1 where "send_data_loop os 0 (length (collector_arr ex)) ex = Inr ex1"
        "send_step {..<length (collector_arr ex)} ex ex1"
      using send_data_loop_ok [OF assms(3) inv, of 0 "length (collector_arr ex)"] by (auto simp: atLeast0LessThan)
    with pos False show ?thesis by (simp add: ipfix_send_data_def send_stepD)
  qed
qed

text \<open>The messages of one call of \<open>ipfix_send\<close> to a UDP collector.\<close>

definition udp_messages :: "os_env \<Rightarrow> nat \<Rightarrow> data_set list \<Rightarrow> ipfix_exporter \<Rightarrow> bytes list" where
  "udp_messages os i ss ex =
     (let js = udp_items 0 (template_arr ex);
          now = time_of os (length (collector_arr ex), 0);
          expired = (now - uint (last_template_transmission_time ex) > uint (template_transmission_timer ex));
          msg = (\<lambda>ph. ipfix_msg (msg_time os (i, ph)) (sequence_number ex) (observation_domain_id ex))
      in (if expired \<and> js \<noteq> [] then [msg 0 (items_bytes (tmem ex) js)] else []) @
         (if ss \<noteq> [] then [msg 10 (concat (map set_bytes ss))] else []))"

lemma udp_items_pos:
  assumes "templates_inv ts" and "udp_items i ts \<noteq> []"
  shows "sum_list (map snd (udp_items i ts)) \<noteq> 0"
proof -
  obtain j n where x: "(j, n) \<in> set (udp_items i ts)" using assms(2) by (metis list.set_sel(1) surj_pair)
  then obtain k where "k < length ts" "n = fields_length (ts ! k)" "tstate (ts ! k) \<noteq> T_UNUSED"
    by (auto simp: udp_items_set)
  then have "8 \<le> n" using templates_inv_nth [OF assms(1)] by (auto simp: template_inv_def)
  moreover have "n \<in> set (map snd (udp_items i ts))" using x by force
  then have "n \<le> sum_list (map snd (udp_items i ts))" by (rule member_le_sum_list) simp
  ultimately show ?thesis by linarith
qed

lemma send_templates_to_udp_col:
  assumes "send_templates_to os now e i ex = Inr (r, ex')"
    and "col_protocol (collector_arr ex ! i) = UDP" and "cstate (collector_arr ex ! i) = C_CONNECTED"
    and "i < length (collector_arr ex)"
  shows "col_protocol (collector_arr ex' ! i) = UDP" "cstate (collector_arr ex' ! i) = C_CONNECTED"
    "\<not> (e \<and> committed_data_length (template_sendbuffer ex) > 0) \<Longrightarrow> ex' = ex"
  using assms
  by (auto simp: send_templates_to_def send_templates_udp_def Let_def message_sent_def on_collector_def log_send_def
      elim!: res_bind_InrE split: if_splits)

lemma send_templates_messages:
  assumes "exporter_at x ex" and "files_end os" and "export_protocol ex = IPFIX_PROTOCOL"
    and "sum_list (map snd (udp_items 0 (template_arr ex))) < 2 ^ 32" and "i < length (collector_arr ex)"
    and "col_protocol (collector_arr ex ! i) = UDP" and "cstate (collector_arr ex ! i) = C_CONNECTED"
    and "\<And>s bs. fst (sendmsg os (i, 1) s bs) \<noteq> -1"
  shows "\<exists>ex'. ipfix_send_templates os ex = Inr (1, ex') \<and> exporter_at x ex' \<and>
    msgs i ex' = msgs i ex @ udp_messages os i [] ex \<and>
    sequence_number ex' = sequence_number ex \<and> sn_increment ex' = sn_increment ex \<and>
    observation_domain_id ex' = observation_domain_id ex \<and> export_protocol ex' = IPFIX_PROTOCOL \<and>
    length (collector_arr ex') = length (collector_arr ex) \<and>
    col_protocol (collector_arr ex' ! i) = UDP \<and> cstate (collector_arr ex' ! i) = C_CONNECTED"
proof -
  let ?ts = "template_arr ex"
  let ?js = "udp_items 0 ?ts"
  let ?now = "time_of os (length (collector_arr ex), 0)"
  let ?e = "?now - uint (last_template_transmission_time ex) > uint (template_transmission_timer ex)"
  have inv: "exporter_inv ex" using assms(1) by (simp add: exporter_at_def)
  obtain ex1 where ex1: "ipfix_update_template_sendbuffer ex = Inr (0, ex1)" "refilled ex ex1"
    using update_refilled [OF inv] by blast
  have inv1: "exporter_inv ex1" by (rule refilled_inv [OF ex1(2) inv])
  obtain tb sb where e1: "ex1 = ex\<lparr>template_arr := map next_template ?ts, template_sendbuffer := tb, sctp_template_sendbuffer := sb\<rparr>"
    and tr: "tready ?js (sctp_items 0 ?ts) ex1"
    using ex1(2) by (auto simp: refilled_def)
  have at1: "exporter_at x ex1" using assms(1) inv1 by (simp add: exporter_at_def e1)
  have i1: "i < length (collector_arr ex1)" using assms(5) by (simp add: e1)
  obtain ea eb ec where v: "send_step {..<i} ex1 ea" "send_templates_to os ?now ?e i ea = Inr (0, eb)"
      "send_step {i} ea eb" "send_step {i + 1..<length (collector_arr ex1)} eb ec"
      "send_templates_loop os ?now ?e 0 (length (collector_arr ex1)) ex1 = Inr (1, ec)"
    using send_templates_visit [OF tr assms(2) exporter_invD(4) [OF inv1] i1] by blast
  have ca: "collector_arr ea ! i = collector_arr ex ! i" "msgs i ea = msgs i ex"
    using send_step_other [OF v(1), of i] by (simp_all add: e1 msgs_def)
  have sa: "sequence_number ea = sequence_number ex" "observation_domain_id ea = observation_domain_id ex"
      "export_protocol ea = IPFIX_PROTOCOL"
    using send_stepD [OF v(1)] assms(3) by (simp_all add: e1)
  have tm: "items_bytes (tmem ea) ?js = items_bytes (tmem ex) ?js"
    using tmem_cong [OF send_stepD(2) [OF v(1)]] tmem_refilled [OF ex1(2)] by simp
  have ua: "col_protocol (collector_arr ea ! i) = UDP" "cstate (collector_arr ea ! i) = C_CONNECTED"
    using ca(1) assms(6,7) by simp_all
  have ia: "i < length (collector_arr ea)" using send_stepD(6) [OF v(1)] i1 by simp
  note ub = send_templates_to_udp_col [OF v(2) ua ia]
  have "msgs i eb = msgs i ex @ udp_messages os i [] ex"
  proof (cases "?e \<and> ?js \<noteq> []")
    case True
    have "\<exists>ex'. send_templates_to os ?now True i ea = Inr (0, ex') \<and>
        msgs i ex' = msgs i ea @ [ipfix_msg (msg_time os (i, 0)) (sequence_number ea) (observation_domain_id ea) (items_bytes (tmem ea) ?js)]"
      using True udp_items_pos [OF exporter_invD(3) [OF inv]] ua assms(4,8)
      by (intro send_templates_to_udp [OF send_step_tready [OF v(1) tr] sa(3)]) simp_all
    then show ?thesis
      using True v(2) ca sa tm by (simp add: udp_messages_def Let_def)
  next
    case False
    have "committed_data_length (template_sendbuffer ea) = of_nat (sum_list (map snd ?js))"
      using send_step_tready [OF v(1) tr] by (simp add: tready_def tbuf_def)
    then have "\<not> (?e \<and> committed_data_length (template_sendbuffer ea) > 0)" using False by auto
    then show ?thesis using ub(3) ca False by (auto simp: udp_messages_def Let_def)
  qed
  moreover have "collector_arr ec ! i = collector_arr eb ! i" "msgs i ec = msgs i eb"
    using send_step_other [OF v(4), of i] by simp_all
  moreover have "exporter_at x ec" by (rule step_at [OF v(4) step_at [OF v(3) step_at [OF v(1) at1]]])
  moreover have "ipfix_send_templates os ex = Inr (1, ec)"
    using ex1(1) v(5) by (simp add: ipfix_send_templates_def Let_def e1)
  moreover have "sequence_number ec = sequence_number ex" "sn_increment ec = sn_increment ex"
      "observation_domain_id ec = observation_domain_id ex" "export_protocol ec = IPFIX_PROTOCOL"
      "length (collector_arr ec) = length (collector_arr ex)"
    using send_stepD [OF v(1)] send_stepD [OF v(3)] send_stepD [OF v(4)] assms(3) by (simp_all add: e1)
  ultimately show ?thesis using ub ua by auto
qed

lemma send_messages:
  assumes "exporter_at (ss, None) ex" and "files_end os" and "export_protocol ex = IPFIX_PROTOCOL"
    and "sum_list (map snd (udp_items 0 (template_arr ex))) < 2 ^ 32" and "sets_size ss < 2 ^ 32"
    and "i < length (collector_arr ex)"
    and "col_protocol (collector_arr ex ! i) = UDP" and "cstate (collector_arr ex ! i) = C_CONNECTED"
    and ok: "\<And>ph s bs. fst (sendmsg os (i, ph) s bs) \<noteq> -1"
  shows "\<exists>ex'. ipfix_send os ex = Inr (0, ex') \<and>
    msgs i ex' = msgs i ex @ udp_messages os i ss ex \<and>
    sequence_number ex' = (if ss = [] then sequence_number ex else sequence_number ex + sn_increment ex) \<and>
    sn_increment ex' = (if ss = [] then sn_increment ex else 0)"
proof -
  obtain ex1 where ex1: "ipfix_send_templates os ex = Inr (1, ex1)" "exporter_at (ss, None) ex1"
      "msgs i ex1 = msgs i ex @ udp_messages os i [] ex"
      "sequence_number ex1 = sequence_number ex" "sn_increment ex1 = sn_increment ex"
      "observation_domain_id ex1 = observation_domain_id ex" "export_protocol ex1 = IPFIX_PROTOCOL"
      "length (collector_arr ex1) = length (collector_arr ex)"
      "col_protocol (collector_arr ex1 ! i) = UDP" "cstate (collector_arr ex1 ! i) = C_CONNECTED"
    using send_templates_messages [OF assms(1-4,6-8) ok] by blast
  obtain ex2 ex' where ex2: "ipfix_send_data os ex1 = Inr (0, ex')"
      "ss \<noteq> [] \<Longrightarrow> send_data_loop os 0 (length (collector_arr ex1)) ex1 = Inr ex2" "ss = [] \<Longrightarrow> ex2 = ex1"
      "transmitted ex' = transmitted ex2"
      "sequence_number ex' = (if ss = [] then sequence_number ex1 else sequence_number ex1 + sn_increment ex1)"
      "sn_increment ex' = (if ss = [] then sn_increment ex1 else 0)"
    using send_data_at [OF ex1(2) assms(5,2)] by blast
  have "msgs i ex2 = msgs i ex @ udp_messages os i ss ex"
  proof (cases "ss = []")
    case True
    then show ?thesis using ex2(3) ex1(3) by simp
  next
    case False
    have inv: "exporter_inv ex1" using ex1(2) by (simp add: exporter_at_def)
    have i1: "i < length (collector_arr ex1)" using assms(6) ex1(8) by simp
    obtain ea eb where v: "send_step {..<i} ex1 ea" "send_data_to os i ea = Inr eb"
        "send_step {i + 1..<length (collector_arr ex1)} eb ex2"
      using send_data_visit [OF assms(2) inv i1] ex2(2) [OF False] by auto
    have ca: "collector_arr ea ! i = collector_arr ex1 ! i" "msgs i ea = msgs i ex1"
      using send_step_other [OF v(1), of i] by simp_all
    have "msgs i eb = msgs i ea @ [ipfix_msg (msg_time os (i, 10)) (sequence_number ea) (observation_domain_id ea)
        (concat (map set_bytes ss))]"
      using send_data_to_udp [OF step_at [OF v(1) ex1(2)] _ assms(5) False, of i os] ca(1) ex1(7,9,10) ok v(2)
        send_stepD(1) [OF v(1)] by auto
    then show ?thesis
      using send_step_other [OF v(3), of i] send_stepD [OF v(1)] ca(2) ex1 False
      by (simp add: udp_messages_def Let_def)
  qed
  then show ?thesis
    using ex1(1,4,5) ex2(1,4-6) msgs_cong [OF ex2(4)] by (simp add: ipfix_send_def)
qed

text \<open>
  C2: one call of \<open>ipfix_send\<close> with committed Data Sets delivers to every connected UDP
  collector whose sends succeed, and whatever happens at the other collectors, the due
  templates first and then one data message. Both carry version 10, the true length of the
  message, the time, the sequence number before the call and the observation domain; the
  template message holds the active templates, the data message the committed sets in order.
  The sequence number then grows by the number of records announced for the sets.
\<close>

theorem udp_delivery:
  assumes "exporter_at (ss, None) ex" and "files_end os" and "export_protocol ex = IPFIX_PROTOCOL"
    and "16 + sum_list (map snd (udp_items 0 (template_arr ex))) < 2 ^ 16" and "16 + sets_size ss < 2 ^ 16"
    and "i < length (collector_arr ex)"
    and "col_protocol (collector_arr ex ! i) = UDP" and "cstate (collector_arr ex ! i) = C_CONNECTED"
    and "\<forall>ph s bs. fst (sendmsg os (i, ph) s bs) \<noteq> -1"
  shows "\<exists>ex'. ipfix_send os ex = Inr (0, ex') \<and>
    msgs i ex' = msgs i ex @ udp_messages os i ss ex \<and>
    sequence_number ex' = (if ss = [] then sequence_number ex else sequence_number ex + sn_increment ex) \<and>
    sn_increment ex' = (if ss = [] then sn_increment ex else 0)"
  using send_messages [OF assms(1-3) _ _ assms(6-8)] assms(4,5,9) by simp

section \<open>The life of a template\<close>

definition template_calls :: "os_env \<Rightarrow> (nat \<Rightarrow> byte) \<Rightarrow> u16 \<Rightarrow> tfield list \<Rightarrow> exporter_call list" where
  "template_calls os mem tid fs =
     StartTemplate os mem tid (of_nat (length fs)) #
     map (\<lambda>(ty, l, eid). PutTemplateField tid ty l eid) fs @ [EndTemplate tid]"

lemma find_template_new:
  assumes "ipfix_find_template tid ts = None" and "i < length ts" and "tstate t \<noteq> T_UNUSED" and "template_id t = tid"
  shows "ipfix_find_template tid (ts[i := t]) = Some i"
proof -
  have none: "find_index P xs j = None \<longleftrightarrow> (\<forall>x \<in> set xs. \<not> P x)" for P :: "ipfix_lo_template \<Rightarrow> bool" and xs j
    by (induction xs arbitrary: j) auto
  have "\<forall>x \<in> set ts. \<not> (tstate x \<noteq> T_UNUSED \<and> template_id x = tid)"
    using assms(1) by (simp add: ipfix_find_template_def none)
  then show ?thesis
    using assms(2-4) unfolding ipfix_find_template_def find_index_first [where i = 0 and k = i, simplified]
    by (auto dest: nth_mem)
qed

lemma exporter_run_append:
  "exporter_run (cs @ ds) ex = res_bind (exporter_run cs ex) (\<lambda>(rs, ex1).
     res_bind (exporter_run ds ex1) (\<lambda>(rs', ex2). Inr (rs @ rs', ex2)))"
proof (induction cs arbitrary: ex)
  case Nil
  show ?case by (cases "exporter_run ds ex") auto
next
  case (Cons c cs)
  show ?case
    by (auto simp: Cons.IH res_bind_def split: sum.split prod.split)
qed

lemma put_fields_run:
  assumes "ipfix_find_template tid (template_arr ex) = Some i" and "building p tid fc gs (template_arr ex ! i)"
    and "length gs + length fs \<le> unat fc"
  shows "\<exists>t'. exporter_run (map (\<lambda>(ty, l, eid). PutTemplateField tid ty l eid) fs) ex =
      Inr (replicate (length fs) 0, ex\<lparr>template_arr := (template_arr ex)[i := t']\<rparr>) \<and>
    building p tid fc (gs @ fs) t'"
  using assms
proof (induction fs arbitrary: ex gs)
  case Nil
  then show ?case by (intro exI [of _ "template_arr ex ! i"]) simp
next
  case (Cons f fs)
  obtain ty l eid where f: "f = (ty, l, eid)" by (cases f)
  let ?ts = "template_arr ex"
  obtain t' where t': "put_template_field_arr tid ty l eid ?ts = Inr (0, ?ts[i := t'])"
      "building p tid fc (gs @ [f]) t'"
    using put_template_field_arr_step [OF Cons.prems(1,2), of ty l eid] Cons.prems(3) f by auto
  let ?ex1 = "ex\<lparr>template_arr := ?ts[i := t']\<rparr>"
  have i: "i < length ?ts" using find_template_Some [OF Cons.prems(1)] by simp
  have "ipfix_find_template tid (template_arr ?ex1) = Some i"
    using t'(2) Cons.prems(1) by (simp add: find_template_update building_def)
  moreover have "building p tid fc (gs @ [f]) (template_arr ?ex1 ! i)" using t'(2) i by simp
  ultimately obtain t2 where "exporter_run (map (\<lambda>(ty, l, eid). PutTemplateField tid ty l eid) fs) ?ex1 =
      Inr (replicate (length fs) 0, ?ex1\<lparr>template_arr := (template_arr ?ex1)[i := t2]\<rparr>)" "building p tid fc ((gs @ [f]) @ fs) t2"
    using Cons.IH [of ?ex1 "gs @ [f]"] Cons.prems(3) by auto
  moreover have "exporter_step (PutTemplateField tid ty l eid) ex = Inr (0, ?ex1)"
    using t'(1) by (simp add: ipfix_put_template_field_def)
  ultimately show ?case using f by auto
qed

lemma template_run:
  assumes "255 < tid" and "ipfix_find_template tid (template_arr ex) = None"
    and "ipfix_get_free_template_slot (template_arr ex) = Some i" and "length fs < 2 ^ 16"
  shows "\<exists>t. exporter_run (template_calls os mem tid fs) ex =
      Inr (replicate (length fs + 2) 0,
        ex\<lparr>template_arr := (template_arr ex)[i := t], last_template_transmission_time := 0\<rparr>) \<and>
    tstate t = T_COMMITED \<and> template_id t = tid \<and>
    (let p = export_protocol ex; n = length (template_set_bytes p 0 tid (of_nat (length fs)) fs) in
       fields_length t = n \<and> template_fields t = Some (template_set_bytes p n tid (of_nat (length fs)) fs))"
proof -
  let ?p = "export_protocol ex" and ?fc = "of_nat (length fs) :: u16" and ?ts = "template_arr ex"
  have fc: "unat ?fc = length fs" using assms(4) by (simp add: unat_of_nat_u16)
  have i: "i < length ?ts" "tstate (?ts ! i) = T_UNUSED"
    using find_index_Some [OF assms(3) [unfolded ipfix_get_free_template_slot_def]] by auto
  obtain t0 where t0: "init_template mem ?p tid ?fc = Inr t0" "building ?p tid ?fc [] t0"
    using building_init by blast
  let ?ex0 = "ex\<lparr>template_arr := ?ts[i := t0]\<rparr>"
  have s: "exporter_step (StartTemplate os mem tid ?fc) ex = Inr (0, ?ex0)"
    using assms(1-3) t0(1) by (simp add: ipfix_start_template_def Let_def)
  have f0: "ipfix_find_template tid (template_arr ?ex0) = Some i"
    using find_template_new [OF assms(2) i(1)] t0(2) by (simp add: building_def)
  have b0: "building ?p tid ?fc [] (template_arr ?ex0 ! i)" using t0(2) i(1) by simp
  obtain t1 where t1: "exporter_run (map (\<lambda>(ty, l, eid). PutTemplateField tid ty l eid) fs) ?ex0 =
      Inr (replicate (length fs) 0, ?ex0\<lparr>template_arr := (template_arr ?ex0)[i := t1]\<rparr>)" "building ?p tid ?fc fs t1"
    using put_fields_run [OF f0 b0, of fs] fc by auto
  let ?ts1 = "?ts[i := t1]"
  have f1: "ipfix_find_template tid ?ts1 = Some i"
    using find_template_new [OF assms(2) i(1)] t1(2) by (simp add: building_def)
  have b1: "building ?p tid ?fc fs (?ts1 ! i)" using t1(2) i(1) by simp
  obtain t where t: "end_template_arr tid ?ts1 = Inr (0, ?ts1[i := t])" "tstate t = T_COMMITED" "template_id t = tid"
      "let n = length (template_set_bytes ?p 0 tid ?fc fs) in
       fields_length t = n \<and> template_fields t = Some (template_set_bytes ?p n tid ?fc fs)"
    using end_template_arr_step [OF f1 b1] fc by auto
  have "exporter_step (EndTemplate tid) (ex\<lparr>template_arr := ?ts1\<rparr>) =
      Inr (0, ex\<lparr>template_arr := ?ts[i := t], last_template_transmission_time := 0\<rparr>)"
    using t(1) by (simp add: ipfix_end_template_def)
  then have "exporter_run (template_calls os mem tid fs) ex =
      Inr (0 # replicate (length fs) 0 @ [0],
        ex\<lparr>template_arr := ?ts[i := t], last_template_transmission_time := 0\<rparr>)"
    using s t1(1) by (simp add: template_calls_def exporter_run_append)
  moreover have "0 # replicate (length fs) 0 @ [0 :: int] = replicate (length fs + 2) 0"
    by (simp add: replicate_append_same)
  ultimately show ?thesis using t(2-4) by (intro exI [of _ t]) (simp add: Let_def)
qed

text \<open>
  C9: an application that starts a template, adds the announced fields and ends it gets no
  error, and the template is then the bytes of its Template Set: set id 2 (0 for NetFlow v9),
  the length of the set, template id, field count and the field specifiers in the order of the
  calls, enterprise-specific ones with the enterprise bit and number; it is due at once.
\<close>

theorem template_on_wire:
  assumes "255 < tid" and "ipfix_find_template tid (template_arr ex) = None"
    and "ipfix_get_free_template_slot (template_arr ex) = Some i" and "length fs < 2 ^ 16"
  shows "\<exists>t. exporter_run (template_calls os mem tid fs) ex =
      Inr (replicate (length fs + 2) 0,
        ex\<lparr>template_arr := (template_arr ex)[i := t], last_template_transmission_time := 0\<rparr>) \<and>
    tstate t = T_COMMITED \<and> template_id t = tid \<and>
    (let p = export_protocol ex; n = length (template_set_bytes p 0 tid (of_nat (length fs)) fs) in
       fields_length t = n \<and> template_fields t = Some (template_set_bytes p n tid (of_nat (length fs)) fs))"
  by (rule template_run [OF assms])

section \<open>Collectors that miss templates\<close>

lemma on_collector_simps [simp]:
  "transmitted (on_collector i f ex) = transmitted ex"
  "template_sendbuffer (on_collector i f ex) = template_sendbuffer ex"
  "sctp_template_sendbuffer (on_collector i f ex) = sctp_template_sendbuffer ex"
  "export_protocol (on_collector i f ex) = export_protocol ex"
  "transmitted (message_sent i ex) = transmitted ex"
  "template_sendbuffer (message_sent i ex) = template_sendbuffer ex"
  "template_sendbuffer (log_send i r bs ex) = template_sendbuffer ex"
  by (simp_all add: on_collector_def message_sent_def log_send_def)

lemma send_templates_sctp_nothing:
  assumes "committed_data_length (sctp_template_sendbuffer ex) = 0" and "send_templates_sctp os now i ex = Inr ex'"
  shows "transmitted ex' = transmitted ex"
proof -
  have c: "send_templates_sctp_connected os i ey = Inr (message_sent i ey)"
    if "sctp_template_sendbuffer ey = sctp_template_sendbuffer ex" for ey
    using that assms(1) by (simp add: send_templates_sctp_connected_def)
  have r: "transmitted ey = transmitted ex" if "remove_collector_at i ex = Inr ey" for ey
    using that by (auto simp: remove_collector_at_def elim!: res_bind_InrE)
  show ?thesis
    using assms(2) by (cases "cstate (collector_arr ex ! i)") (auto simp: send_templates_sctp_def Let_def c r split: if_splits)
qed

lemma send_templates_sent:
  assumes "exporter_inv ex" and "files_end os"
    and "\<forall>t \<in> set (template_arr ex). tstate t \<noteq> T_COMMITED \<and> tstate t \<noteq> T_WITHDRAWN"
    and "i < length (collector_arr ex)" and "col_protocol (collector_arr ex ! i) = SCTP"
  shows "\<exists>ex'. ipfix_send_templates os ex = Inr (1, ex') \<and> msgs i ex' = msgs i ex"
proof -
  let ?ts = "template_arr ex"
  let ?now = "time_of os (length (collector_arr ex), 0)"
  let ?e = "?now - uint (last_template_transmission_time ex) > uint (template_transmission_timer ex)"
  obtain ex1 where ex1: "ipfix_update_template_sendbuffer ex = Inr (0, ex1)" "refilled ex ex1"
    using update_refilled [OF assms(1)] by blast
  have inv1: "exporter_inv ex1" by (rule refilled_inv [OF ex1(2) assms(1)])
  obtain tb sb where e1: "ex1 = ex\<lparr>template_arr := map next_template ?ts, template_sendbuffer := tb, sctp_template_sendbuffer := sb\<rparr>"
    and tr: "tready (udp_items 0 ?ts) (sctp_items 0 ?ts) ex1"
    using ex1(2) by (auto simp: refilled_def)
  have i1: "i < length (collector_arr ex1)" using assms(4) by (simp add: e1)
  obtain ea eb ec where v: "send_step {..<i} ex1 ea" "send_templates_to os ?now ?e i ea = Inr (0, eb)" "send_step {i} ea eb"
      "send_step {i + 1..<length (collector_arr ex1)} eb ec"
      "send_templates_loop os ?now ?e 0 (length (collector_arr ex1)) ex1 = Inr (1, ec)"
    using send_templates_visit [OF tr assms(2) exporter_invD(4) [OF inv1] i1] by blast
  have ca: "collector_arr ea ! i = collector_arr ex ! i" "msgs i ea = msgs i ex"
    using send_step_other [OF v(1), of i] by (simp_all add: e1 msgs_def)
  have "sctp_items k us = []" if "\<forall>t \<in> set us. tstate t \<noteq> T_COMMITED \<and> tstate t \<noteq> T_WITHDRAWN" for k us
    using that by (induction us arbitrary: k) auto
  then have "committed_data_length (sctp_template_sendbuffer ea) = 0"
    using send_step_tready [OF v(1) tr] assms(3) by (simp add: tready_def tbuf_def)
  moreover have "eb = ea \<or> send_templates_sctp os ?now i ea = Inr eb"
    using v(2) ca(1) assms(5) by (simp add: send_templates_to_def Let_def res_bind_eq_Inr split: if_splits)
  ultimately have tb: "transmitted eb = transmitted ea" using send_templates_sctp_nothing by blast
  have "msgs i ec = msgs i ex"
    using send_step_other [OF v(4), of i] ca(2) msgs_cong [OF tb, of i] by simp
  moreover have "ipfix_send_templates os ex = Inr (1, ec)"
    using ex1(1) v(5) by (simp add: ipfix_send_templates_def Let_def e1)
  ultimately show ?thesis by blast
qed


lemma nfv9_header_kept:
  assumes "export_protocol ex = NFV9_PROTOCOL" and "send_templates_to os now e j ex = Inr (r, ex')"
  shows "ipfix_message_header (template_sendbuffer ex') = ipfix_message_header (template_sendbuffer ex)"
proof -
  have h: "ipfix_message_header (ipfix_update_header os k ex col b) = ipfix_message_header b" for k col b
    using assms(1) by (simp add: ipfix_update_header_def Let_def)
  have f: "template_sendbuffer ey = template_sendbuffer ez"
    if "ipfix_write_sendbuffer_to_datafile os ph j b ez = Inr (ok, ey)" for ph b ez ok ey
    using that by (auto simp: ipfix_write_sendbuffer_to_datafile_def Let_def elim!: res_bind_InrE split: if_splits)
  have s: "template_sendbuffer ey = template_sendbuffer ez" if "send_templates_sctp_connected os j ez = Inr ey" for ez ey
    using that by (auto simp: send_templates_sctp_connected_def Let_def elim!: res_bind_InrE split: if_splits prod.splits)
  have s': "template_sendbuffer ey = template_sendbuffer ex" if "send_templates_sctp os now j ex = Inr ey" for ey
    using that by (auto simp: send_templates_sctp_def remove_collector_at_def Let_def dest!: s
        elim!: res_bind_InrE split: if_splits collector_state.splits)
  show ?thesis
    using assms(2)
    by (auto simp: send_templates_to_def send_templates_udp_def send_templates_file_def Let_def h dest!: s' f
        elim!: res_bind_InrE split: if_splits ipfix_transport_protocol.splits prod.splits)
qed

lemma nfv9_loop_kept:
  assumes "tready js ks ex" and "files_end os" and "cols_inv ex" and "i + n \<le> length (collector_arr ex)"
    and "export_protocol ex = NFV9_PROTOCOL" and "send_templates_loop os now e i n ex = Inr (r, ex')"
  shows "ipfix_message_header (template_sendbuffer ex') = ipfix_message_header (template_sendbuffer ex)"
  using assms
proof (induction n arbitrary: i ex)
  case 0
  then show ?case by simp
next
  case (Suc n)
  obtain ex1 where ex1: "send_templates_to os now e i ex = Inr (0, ex1)" "send_step {i} ex ex1"
    using send_templates_to_ok [OF Suc.prems(1-3), of i now e] Suc.prems(4) by auto
  note d = send_stepD [OF ex1(2)]
  have "ipfix_message_header (template_sendbuffer ex') = ipfix_message_header (template_sendbuffer ex1)"
    using Suc.IH [of ex1 "i + 1"] send_step_tready [OF ex1(2) Suc.prems(1)] d(1,6,7) Suc.prems(2-6) ex1(1) by simp
  with nfv9_header_kept [OF Suc.prems(5) ex1(1)] show ?case by simp
qed

lemma write_datafile_empty:
  assumes "ipfix_write_sendbuffer_to_datafile os ph i b ex = Inr (ok, ex')" and "ih_length (ipfix_message_header b) = 0"
  shows "transmitted ex' = transmitted ex"
  using assms by (auto simp: ipfix_write_sendbuffer_to_datafile_def Let_def elim!: res_bind_InrE split: if_splits)

lemma nfv9_file_nothing:
  assumes "exporter_inv ex" and "files_end os" and "export_protocol ex = NFV9_PROTOCOL"
    and "i < length (collector_arr ex)" and "col_protocol (collector_arr ex ! i) = DATAFILE"
  shows "\<exists>ex'. ipfix_send_templates os ex = Inr (1, ex') \<and> msgs i ex' = msgs i ex"
proof -
  let ?ts = "template_arr ex"
  let ?now = "time_of os (length (collector_arr ex), 0)"
  let ?e = "?now - uint (last_template_transmission_time ex) > uint (template_transmission_timer ex)"
  obtain ex1 where ex1: "ipfix_update_template_sendbuffer ex = Inr (0, ex1)" "refilled ex ex1"
    using update_refilled [OF assms(1)] by blast
  have inv1: "exporter_inv ex1" by (rule refilled_inv [OF ex1(2) assms(1)])
  obtain tb sb where e1: "ex1 = ex\<lparr>template_arr := map next_template ?ts, template_sendbuffer := tb, sctp_template_sendbuffer := sb\<rparr>"
    and tr: "tready (udp_items 0 ?ts) (sctp_items 0 ?ts) ex1" and z: "ipfix_message_header tb = zero_ipfix_header"
    using ex1(2) by (auto simp: refilled_def)
  have i1: "i < length (collector_arr ex1)" using assms(4) by (simp add: e1)
  obtain ea eb ec where v: "send_step {..<i} ex1 ea" "send_templates_to os ?now ?e i ea = Inr (0, eb)"
      "send_step {i + 1..<length (collector_arr ex1)} eb ec"
      "send_templates_loop os ?now ?e 0 (length (collector_arr ex1)) ex1 = Inr (1, ec)"
      "send_templates_loop os ?now ?e 0 i ex1 = Inr (1, ea)"
    using send_templates_visit [OF tr assms(2) exporter_invD(4) [OF inv1] i1] by blast
  have ca: "collector_arr ea ! i = collector_arr ex ! i" "msgs i ea = msgs i ex"
    using send_step_other [OF v(1), of i] by (simp_all add: e1 msgs_def)
  have p: "export_protocol ea = NFV9_PROTOCOL" using send_stepD(1) [OF v(1)] assms(3) by (simp add: e1)
  have z: "ipfix_message_header (template_sendbuffer ea) = zero_ipfix_header"
    using nfv9_loop_kept [OF tr assms(2) exporter_invD(4) [OF inv1] _ _ v(5)] i1 assms(3) z by (simp add: e1)
  have "ih_length (ipfix_message_header (ipfix_update_header os k ea col (template_sendbuffer ea))) = 0" for k col
    using p z by (simp add: ipfix_update_header_def Let_def zero_ipfix_header_def)
  then have "transmitted ey = transmitted ea" if "send_templates_file os i ea = Inr ey" for ey
    using that write_datafile_empty
    by (fastforce simp: send_templates_file_def Let_def elim!: res_bind_InrE split: if_splits)
  moreover have "eb = ea \<or> send_templates_file os i ea = Inr eb"
    using v(2) ca(1) assms(5) by (simp add: send_templates_to_def Let_def res_bind_eq_Inr split: if_splits)
  ultimately have tb: "transmitted eb = transmitted ea" by blast
  have "msgs i ec = msgs i ex"
    using send_step_other [OF v(3), of i] ca(2) msgs_cong [OF tb, of i] by simp
  moreover have "ipfix_send_templates os ex = Inr (1, ec)"
    using ex1(1) v(4) by (simp add: ipfix_send_templates_def Let_def e1)
  ultimately show ?thesis by blast
qed

text \<open>
  C13: an exporter for NetFlow v9 never writes its templates to a data file:
  \<open>ipfix_write_sendbuffer_to_datafile\<close> looks at the length in the IPFIX header, which
  stays 0 for NetFlow v9, and refuses the message as empty.
\<close>

theorem nfv9_file_without_templates:
  assumes "exporter_inv ex" and "files_end os" and "export_protocol ex = NFV9_PROTOCOL"
    and "i < length (collector_arr ex)" and "col_protocol (collector_arr ex ! i) = DATAFILE"
  shows "\<exists>ex'. ipfix_send_templates os ex = Inr (1, ex') \<and> msgs i ex' = msgs i ex"
  by (rule nfv9_file_nothing [OF assms])

section \<open>Examples\<close>

definition example_collector :: "ipfix_transport_protocol \<Rightarrow> ipfix_receiving_collector" where
  "example_collector t = \<lparr>ipaddress = (if t = DATAFILE then [] else ''10.0.0.1''), port_number = 4739, col_protocol = t,
     data_socket = 5, addr = None, last_reconnect_attempt_time = 0, cstate = C_CONNECTED, messages_sent = 0,
     basename = Some ''flows'', fh = 7, filenum = 0, bytes_written = 0, maxfilesize = 0,
     col_mtu_mode = IPFIX_MTU_DISCOVER, mtu = 1500, vrf_name = []\<rparr>"

definition example_lo_template :: "template_state \<Rightarrow> ipfix_lo_template" where
  "example_lo_template s = \<lparr>tstate = s, template_id = 256, field_count = 1, fields_added = 1, fields_length = 12,
     max_fields_length = 12, template_fields = Some [0, 2, 0, 12, 1, 0, 0, 1, 0, 8, 0, 4]\<rparr>"

definition example_exporter :: "export_protocol_version \<Rightarrow> ipfix_transport_protocol \<Rightarrow> template_state \<Rightarrow> ipfix_sendbuffer
    \<Rightarrow> ipfix_exporter" where
  "example_exporter p t s b = \<lparr>export_protocol = p, sequence_number = 0, sn_increment = 1, observation_domain_id = 1,
     start_time_ms = 0, max_message_size = 1400, template_sendbuffer = ipfix_init_sendbuffer undefined p,
     sctp_template_sendbuffer = ipfix_init_sendbuffer undefined p, data_sendbuffer = b,
     collector_arr = [example_collector t], last_template_transmission_time = 0, template_transmission_timer = 20,
     sctp_lifetime = 0, sctp_reconnect_timer = 300, template_arr = [example_lo_template s], transmitted = []\<rparr>"

lemma example_exporter_simps:
  "template_arr (example_exporter p t s b) = [example_lo_template s]" "export_protocol (example_exporter p t s b) = p"
  "collector_arr (example_exporter p t s b) = [example_collector t]" "msgs i (example_exporter p t s b) = []"
  "tstate (example_lo_template s) = s" "fields_length (example_lo_template s) = 12"
  "col_protocol (example_collector t) = t" "cstate (example_collector t) = C_CONNECTED"
  by (simp_all add: example_exporter_def example_lo_template_def example_collector_def msgs_def)

lemma example_exporter_at:
  assumes "sb_rel p b ss op" and "t \<in> {UDP, SCTP, DATAFILE}"
  shows "exporter_at (ss, op) (example_exporter p t s b)"
proof -
  have "buffers_ready (example_exporter p t s b)"
    by (cases p) (simp_all add: buffers_ready_def example_exporter_def ipfix_init_sendbuffer_def)
  moreover have "cols_inv (example_exporter p t s b)"
    using assms(2) by (auto simp: cols_inv_def example_exporter_def example_collector_def col_inv_def)
  moreover have "templates_inv (template_arr (example_exporter p t s b))"
    by (simp add: example_exporter_def templates_inv_def template_inv_def example_lo_template_def)
  moreover have "length (template_arr (example_exporter p t s b)) \<le> IPFIX_MAX_TEMPLATES"
    by (simp add: example_exporter_def IPFIX_MAX_TEMPLATES_def)
  ultimately show ?thesis
    using assms(1) by (auto simp: exporter_at_def exporter_inv_def example_exporter_def)
qed

lemma example_buffer: "\<exists>b. sb_rel IPFIX_PROTOCOL b [(256, [[10, 0, 0, 7]])] None"
  using buf_run_refines [OF init_sb_rel [of IPFIX_PROTOCOL undefined], of "[StartSet 256, PutField [10, 0, 0, 7], EndSet 1]"
      "[0, 0, 0]" "[(256, [[10, 0, 0, 7]])]" None]
  by (auto simp: iovs_used_def IPFIX_MAX_SENDBUFSIZE_def IPFIX_MAX_SETS_PER_PACKET_def fields_size_def)

theorem udp_delivery_witness:
  "\<exists>ex ex'. ipfix_send example_os ex = Inr (0, ex') \<and> sequence_number ex' = 1 \<and>
     msgs 0 ex' = [[0, 10, 0, 28, 0, 0, 3, 232, 0, 0, 0, 0, 0, 0, 0, 1, 0, 2, 0, 12, 1, 0, 0, 1, 0, 8, 0, 4],
                   [0, 10, 0, 24, 0, 0, 3, 232, 0, 0, 0, 0, 0, 0, 0, 1, 1, 0, 0, 8, 10, 0, 0, 7]]"
proof -
  obtain b where b: "sb_rel IPFIX_PROTOCOL b [(256, [[10, 0, 0, 7]])] None" using example_buffer by blast
  let ?ex = "example_exporter IPFIX_PROTOCOL UDP T_COMMITED b"
  have at: "exporter_at ([(256, [[10, 0, 0, 7]])], None) ?ex" by (rule example_exporter_at [OF b]) simp
  have "msgs 0 ?ex @ udp_messages example_os 0 [(256, [[10, 0, 0, 7]])] ?ex =
      [[0, 10, 0, 28, 0, 0, 3, 232, 0, 0, 0, 0, 0, 0, 0, 1, 0, 2, 0, 12, 1, 0, 0, 1, 0, 8, 0, 4],
       [0, 10, 0, 24, 0, 0, 3, 232, 0, 0, 0, 0, 0, 0, 0, 1, 1, 0, 0, 8, 10, 0, 0, 7]]"
    by (simp add: msgs_def udp_messages_def example_exporter_def example_os_def example_lo_template_def ipfix_msg_def
        msg_time_def items_bytes_def tmem_def set_bytes_def fields_size_def htons_bytes_def htonl_bytes_def)
  moreover have "sequence_number ?ex + sn_increment ?ex = 1" by (simp add: example_exporter_def)
  moreover have "\<forall>ph s bs. fst (sendmsg example_os (0, ph) s bs) \<noteq> -1" by (simp add: example_os_def)
  ultimately have "\<exists>ex'. ipfix_send example_os ?ex = Inr (0, ex') \<and> sequence_number ex' = 1 \<and>
     msgs 0 ex' = [[0, 10, 0, 28, 0, 0, 3, 232, 0, 0, 0, 0, 0, 0, 0, 1, 0, 2, 0, 12, 1, 0, 0, 1, 0, 8, 0, 4],
                   [0, 10, 0, 24, 0, 0, 3, 232, 0, 0, 0, 0, 0, 0, 0, 1, 1, 0, 0, 8, 10, 0, 0, 7]]"
    using udp_delivery [OF at files_end_example, of 0] by (auto simp: example_exporter_simps sets_size_def fields_size_def)
  then show ?thesis by blast
qed


theorem nfv9_file_without_templates_witness:
  "\<exists>ex ex'. map tstate (template_arr ex) = [T_COMMITED] \<and> cstate (collector_arr ex ! 0) = C_CONNECTED \<and>
     ipfix_send_templates example_os ex = Inr (1, ex') \<and> msgs 0 ex' = []"
proof -
  let ?ex = "example_exporter NFV9_PROTOCOL DATAFILE T_COMMITED (ipfix_init_sendbuffer undefined NFV9_PROTOCOL)"
  have "exporter_inv ?ex"
    using example_exporter_at [OF init_sb_rel, of DATAFILE] by (simp add: exporter_at_def)
  from nfv9_file_without_templates [OF this files_end_example, of 0]
  obtain ex' where "ipfix_send_templates example_os ?ex = Inr (1, ex') \<and> msgs 0 ex' = []"
    by (auto simp: example_exporter_simps)
  then show ?thesis
    by (intro exI [where x = ?ex] exI [where x = ex']) (simp add: example_exporter_simps)
qed

theorem template_on_wire_witness:
  "\<exists>t. exporter_run (template_calls example_os (\<lambda>_. 0) 257 [(8, 4, 0), (100, 2, 9)])
      (example_exporter IPFIX_PROTOCOL UDP T_UNUSED (ipfix_init_sendbuffer undefined IPFIX_PROTOCOL)) =
    Inr ([0, 0, 0, 0], (example_exporter IPFIX_PROTOCOL UDP T_UNUSED (ipfix_init_sendbuffer undefined IPFIX_PROTOCOL))
      \<lparr>template_arr := [t], last_template_transmission_time := 0\<rparr>) \<and>
    tstate t = T_COMMITED \<and>
    template_fields t = Some [0, 2, 0, 20, 1, 1, 0, 2, 0, 8, 0, 4, 128, 100, 0, 2, 0, 0, 0, 9]"
proof -
  let ?ex = "example_exporter IPFIX_PROTOCOL UDP T_UNUSED (ipfix_init_sendbuffer undefined IPFIX_PROTOCOL)"
  have "ipfix_find_template 257 (template_arr ?ex) = None" "ipfix_get_free_template_slot (template_arr ?ex) = Some 0"
    by (simp_all add: example_exporter_simps ipfix_find_template_def ipfix_get_free_template_slot_def)
  then obtain t where t: "exporter_run (template_calls example_os (\<lambda>_. 0) 257 [(8, 4, 0), (100, 2, 9)]) ?ex =
      Inr (replicate (length [(8, 4, 0), (100, 2, 9) :: tfield] + 2) 0,
        ?ex\<lparr>template_arr := (template_arr ?ex)[0 := t], last_template_transmission_time := 0\<rparr>)"
      "tstate t = T_COMMITED"
      "template_fields t = Some (template_set_bytes IPFIX_PROTOCOL
        (length (template_set_bytes IPFIX_PROTOCOL 0 257 (of_nat (length [(8, 4, 0), (100, 2, 9) :: tfield]))
          [(8, 4, 0), (100, 2, 9)])) 257 (of_nat (length [(8, 4, 0), (100, 2, 9) :: tfield])) [(8, 4, 0), (100, 2, 9)])"
    using template_on_wire [of 257 ?ex 0 "[(8, 4, 0), (100, 2, 9)]" example_os "\<lambda>_. 0"]
    by (auto simp: Let_def example_exporter_simps(2))
  moreover have "replicate (length [(8, 4, 0), (100, 2, 9) :: tfield] + 2) (0 :: int) = [0, 0, 0, 0]"
    by (simp add: eval_nat_numeral)
  moreover have "(template_arr ?ex)[0 := t] = [t]" by (simp add: example_exporter_simps)
  moreover have "template_set_bytes IPFIX_PROTOCOL
        (length (template_set_bytes IPFIX_PROTOCOL 0 257 (of_nat (length [(8, 4, 0), (100, 2, 9) :: tfield]))
          [(8, 4, 0), (100, 2, 9)])) 257 (of_nat (length [(8, 4, 0), (100, 2, 9) :: tfield])) [(8, 4, 0), (100, 2, 9)] =
      [0, 2, 0, 20, 1, 1, 0, 2, 0, 8, 0, 4, 128, 100, 0, 2, 0, 0, 0, 9]"
    by (simp add: template_set_bytes_def template_set_id_def spec_bytes_def
        ipfix_enterprise_flag_set_def IPFIX_ENTERPRISE_BIT_def htons_bytes_def htonl_bytes_def)
  ultimately show ?thesis by (intro exI [where x = t]) simp
qed

end
