(* ===== verification/Std_Map.thy ===== *)
theory Std_Map
  imports Vermont_Prelude
begin

text \<open>
  The C++ library's \<open>std::map\<close> as the sources use it: keys are compared with the key
  type's \<open>operator<\<close> only, and two keys are the same when neither is less than the
  other. The container is the list of its entries. The locale \<open>stl_order\<close> is what the
  library asks of \<open>operator<\<close>, a strict weak order; under it \<open>find\<close> and the
  assignment through \<open>operator[]\<close> behave as a map on the classes of equivalent keys.
\<close>

type_synonym ('k, 'v) std_map = "('k \<times> 'v) list"

definition equiv_key :: "('k \<Rightarrow> 'k \<Rightarrow> bool) \<Rightarrow> 'k \<Rightarrow> 'k \<Rightarrow> bool" where
  "equiv_key lt a b \<longleftrightarrow> \<not> lt a b \<and> \<not> lt b a"

fun std_find :: "('k \<Rightarrow> 'k \<Rightarrow> bool) \<Rightarrow> 'k \<Rightarrow> ('k, 'v) std_map \<Rightarrow> 'v option" where
  "std_find lt k [] = None"
| "std_find lt k ((k', v) # m) = (if equiv_key lt k k' then Some v else std_find lt k m)"

fun std_assign :: "('k \<Rightarrow> 'k \<Rightarrow> bool) \<Rightarrow> 'k \<Rightarrow> 'v \<Rightarrow> ('k, 'v) std_map \<Rightarrow> ('k, 'v) std_map" where
  "std_assign lt k v [] = [(k, v)]"
| "std_assign lt k v ((k', v') # m) =
     (if equiv_key lt k k' then (k', v) # m else (k', v') # std_assign lt k v m)"

fun std_erase :: "('k \<Rightarrow> 'k \<Rightarrow> bool) \<Rightarrow> 'k \<Rightarrow> ('k, 'v) std_map \<Rightarrow> ('k, 'v) std_map" where
  "std_erase lt k [] = []"
| "std_erase lt k ((k', v') # m) =
     (if equiv_key lt k k' then m else (k', v') # std_erase lt k m)"

text \<open>The entries of a map have pairwise different keys.\<close>

fun std_inv :: "('k \<Rightarrow> 'k \<Rightarrow> bool) \<Rightarrow> ('k, 'v) std_map \<Rightarrow> bool" where
  "std_inv lt [] = True"
| "std_inv lt ((k, v) # m) = ((\<forall>e \<in> set m. \<not> equiv_key lt k (fst e)) \<and> std_inv lt m)"

locale stl_order =
  fixes lt :: "'k \<Rightarrow> 'k \<Rightarrow> bool"
  assumes irrefl: "\<not> lt a a"
    and trans: "lt a b \<Longrightarrow> lt b c \<Longrightarrow> lt a c"
    and equiv_trans: "equiv_key lt a b \<Longrightarrow> equiv_key lt b c \<Longrightarrow> equiv_key lt a c"
begin

lemma equiv_refl: "equiv_key lt a a"
  by (simp add: equiv_key_def irrefl)

lemma equiv_sym: "equiv_key lt a b \<longleftrightarrow> equiv_key lt b a"
  by (auto simp: equiv_key_def)

lemma asym: "lt a b \<Longrightarrow> \<not> lt b a"
  using irrefl trans by blast

lemma equiv_cong: "equiv_key lt k k' \<Longrightarrow> equiv_key lt k x = equiv_key lt k' x"
  using equiv_sym equiv_trans by blast

lemma find_assign_same:
  "equiv_key lt k k' \<Longrightarrow> std_find lt k' (std_assign lt k v m) = Some v"
proof (induction m)
  case Nil
  then show ?case using equiv_sym by simp
next
  case (Cons e m)
  then show ?case by (cases e) (simp add: equiv_cong [of k k'])
qed

lemma find_assign_other:
  assumes "\<not> equiv_key lt k k'"
  shows "std_find lt k' (std_assign lt k v m) = std_find lt k' m"
proof (induction m)
  case Nil
  then show ?case using assms equiv_sym by simp
next
  case (Cons e m)
  obtain a b where e: "e = (a, b)" by (cases e)
  have "equiv_key lt k a \<Longrightarrow> \<not> equiv_key lt k' a"
    using assms equiv_sym equiv_trans by blast
  then show ?case using Cons.IH by (simp add: e)
qed

lemma find_cong: "equiv_key lt k k' \<Longrightarrow> std_find lt k m = std_find lt k' m"
  by (induction m) (auto simp: equiv_cong [of k k'])

lemma assign_keys:
  "fst ` set (std_assign lt k v m) \<subseteq> insert k (fst ` set m)"
proof (induction m)
  case Nil
  then show ?case by simp
next
  case (Cons e m)
  then show ?case by (cases e) auto
qed

lemma inv_assign: "std_inv lt m \<Longrightarrow> std_inv lt (std_assign lt k v m)"
proof (induction m)
  case Nil
  then show ?case by simp
next
  case (Cons e m)
  obtain k' v' where e: "e = (k', v')" by (cases e)
  have "\<not> equiv_key lt k' (fst x)"
    if "\<not> equiv_key lt k k'" and x: "x \<in> set (std_assign lt k v m)" for x
  proof -
    have "fst x \<in> insert k (fst ` set m)"
      using assign_keys x by (metis image_eqI subsetD)
    then show ?thesis
      using that(1) Cons.prems by (auto simp: e equiv_sym)
  qed
  then show ?case using Cons by (auto simp: e)
qed

lemma find_erase_same:
  assumes "std_inv lt m"
  shows "std_find lt k (std_erase lt k m) = None"
  using assms
proof (induction m)
  case Nil
  then show ?case by simp
next
  case (Cons e m)
  obtain k' v' where e: "e = (k', v')" by (cases e)
  have none: "std_find lt k m = None" if "\<forall>x \<in> set m. \<not> equiv_key lt k (fst x)" for k
    using that by (induction m) auto
  show ?case
  proof (cases "equiv_key lt k k'")
    case True
    then have "\<forall>x \<in> set m. \<not> equiv_key lt k (fst x)"
      using Cons.prems equiv_cong [OF True] by (simp add: e)
    with True none show ?thesis by (simp add: e)
  next
    case False
    with Cons show ?thesis by (simp add: e)
  qed
qed

end

end
