(* ===== verification/Ipfix_Record.thy ===== *)
theory Ipfix_Record
  imports Std_Map "HOL-Library.List_Lexorder" "HOL-Library.Product_Lexorder"
begin

text \<open>
  The data every IPFIX module shares (src/src/modules/ipfix/IpfixRecord.hpp and
  IpfixRecord.cpp): the SourceID of an exporter with its comparison operators,
  Information Elements, TemplateInfo with its field lookups, the records that travel
  between modules, and the process-wide table of TemplateInfo unique ids.
\<close>

section \<open>SourceID\<close>

record exporter_address =
  ip :: bytes
  len :: byte

record source_id =
  observationDomainId :: u32
  sysUpTime :: u32
  exportTime :: u32
  exporterAddress :: exporter_address
  exporterPort :: u16
  receiverPort :: u16
  protocol :: byte
  fileDescriptor :: int

text \<open>The default constructor; the address bytes are those the object's memory held.\<close>

definition SourceID_default :: "bytes \<Rightarrow> source_id" where
  "SourceID_default mem =
     \<lparr>observationDomainId = 0, sysUpTime = 0, exportTime = 0,
      exporterAddress = \<lparr>ip = mem, len = 0\<rparr>, exporterPort = 0, receiverPort = 0,
      protocol = 0, fileDescriptor = 0\<rparr>"

text \<open>
  memcmp on the first \<open>n\<close> bytes; octets compare as unsigned. The sources call it on the
  16 byte arrays of two addresses; a byte beyond the end of a list counts as 0.
\<close>

definition byte_at :: "bytes \<Rightarrow> byte" where
  "byte_at xs = (case xs of [] \<Rightarrow> 0 | x # _ \<Rightarrow> x)"

fun memcmp :: "bytes \<Rightarrow> bytes \<Rightarrow> nat \<Rightarrow> int" where
  "memcmp xs ys 0 = 0"
| "memcmp xs ys (Suc n) =
     (if byte_at xs < byte_at ys then -1
      else if byte_at ys < byte_at xs then 1 else memcmp (tl xs) (tl ys) n)"

definition toUInt32 :: "exporter_address \<Rightarrow> u32" where
  "toUInt32 a =
     (if len a = 4
      then push_bit 24 (ucast (ip a ! 0)) + push_bit 16 (ucast (ip a ! 1))
           + push_bit 8 (ucast (ip a ! 2)) + ucast (ip a ! 3)
      else 0)"

definition sid_eq :: "source_id \<Rightarrow> source_id \<Rightarrow> bool" where
  "sid_eq s x =
     (if protocol s = 132
      then observationDomainId s = observationDomainId x \<and>
           fileDescriptor s = fileDescriptor x
      else observationDomainId s = observationDomainId x \<and>
           exporterPort s = exporterPort x \<and>
           fileDescriptor s = fileDescriptor x \<and>
           len (exporterAddress s) = len (exporterAddress x) \<and>
           memcmp (ip (exporterAddress s)) (ip (exporterAddress x))
             (unat (len (exporterAddress s))) = 0)"

definition sid_less :: "source_id \<Rightarrow> source_id \<Rightarrow> bool" where
  "sid_less s x =
     (if fileDescriptor s < fileDescriptor x then True
      else if fileDescriptor s > fileDescriptor x then False
      else if len (exporterAddress s) < len (exporterAddress x) then True
      else if len (exporterAddress s) > len (exporterAddress x) then False
      else (let tmp = memcmp (ip (exporterAddress s)) (ip (exporterAddress x))
                        (unat (len (exporterAddress s)))
            in if tmp < 0 then True
               else if tmp > 0 then False
               else if exporterPort s < exporterPort x then True
               else if exporterPort s > exporterPort x then False
               else if observationDomainId s < observationDomainId x then True
               else False))"

definition equalIgnoringODID :: "source_id \<Rightarrow> source_id \<Rightarrow> bool" where
  "equalIgnoringODID s x =
     (if protocol s = 132
      then fileDescriptor s = fileDescriptor x
      else exporterPort s = exporterPort x \<and>
           fileDescriptor s = fileDescriptor x \<and>
           len (exporterAddress s) = len (exporterAddress x) \<and>
           memcmp (ip (exporterAddress s)) (ip (exporterAddress x))
             (unat (len (exporterAddress s))) = 0)"

text \<open>The 16 byte address array of a SourceID.\<close>

definition sid_wf :: "source_id \<Rightarrow> bool" where
  "sid_wf s \<longleftrightarrow> length (ip (exporterAddress s)) = 16 \<and> unat (len (exporterAddress s)) \<le> 16"

section \<open>Information Elements and templates\<close>

record ie_info =
  ie_id :: u16
  enterprise :: u32
  ie_length :: u16

datatype set_id = UnknownSetId | NetflowTemplate | NetflowOptionsTemplate
  | IpfixTemplate | IpfixOptionsTemplate

fun set_id_val :: "set_id \<Rightarrow> int" where
  "set_id_val UnknownSetId = -1"
| "set_id_val NetflowTemplate = 0"
| "set_id_val NetflowOptionsTemplate = 1"
| "set_id_val IpfixTemplate = 2"
| "set_id_val IpfixOptionsTemplate = 3"

record field_info =
  ftype :: ie_info
  offset :: u32
  isVariableLength :: bool

record template_info =
  templateId :: u16
  setId :: set_id
  fieldCount :: u16
  fieldInfo :: "field_info list"
  scopeCount :: u16
  scopeInfo :: "field_info list"

definition IPFIX_PEN_reverse :: u32 where "IPFIX_PEN_reverse = 29305"

definition ie_eq :: "ie_info \<Rightarrow> ie_info \<Rightarrow> bool" where
  "ie_eq a b \<longleftrightarrow> ie_id a = ie_id b \<and> enterprise a = enterprise b"

definition ie_less :: "ie_info \<Rightarrow> ie_info \<Rightarrow> bool" where
  "ie_less a b =
     (if enterprise a < enterprise b then True
      else if ie_id a < ie_id b then True else False)"

text \<open>
  \<open>ipfix_id_lookup\<close> searches the table generated from the IANA registry and then the
  table of PSAMP and Vermont elements. The two tables are the argument \<open>tbl\<close>, each a
  list of (id, enterprise, length).
\<close>

type_synonym ie_table = "(u16 \<times> u32 \<times> u16) list \<times> (u16 \<times> u32 \<times> u16) list"

fun search_ids :: "(u16 \<times> u32 \<times> u16) list \<Rightarrow> u16 \<Rightarrow> u32 \<Rightarrow> u16 option" where
  "search_ids [] i e = None"
| "search_ids ((i', e', l) # t) i e =
     (if i' = i \<and> e' = e then Some l else search_ids t i e)"

definition ipfix_id_lookup :: "ie_table \<Rightarrow> u16 \<Rightarrow> u32 \<Rightarrow> u16 option" where
  "ipfix_id_lookup tbl i e =
     (case search_ids (fst tbl) i e of
        Some l \<Rightarrow> Some l
      | None \<Rightarrow> search_ids (snd tbl) i e)"

definition IeInfo :: "ie_table \<Rightarrow> u16 \<Rightarrow> u32 \<Rightarrow> u16 \<Rightarrow> ie_info" where
  "IeInfo tbl i e l =
     (if l = 0
      then (case ipfix_id_lookup tbl i e of
              Some l' \<Rightarrow> \<lparr>ie_id = i, enterprise = e, ie_length = l'\<rparr>
            | None \<Rightarrow> \<lparr>ie_id = i, enterprise = e, ie_length = l\<rparr>)
      else \<lparr>ie_id = i, enterprise = e, ie_length = l\<rparr>)"

definition isReverseField :: "ie_info \<Rightarrow> bool" where
  "isReverseField i \<longleftrightarrow> enterprise i AND IPFIX_PEN_reverse \<noteq> 0"

definition existsReverseDirection :: "ie_table \<Rightarrow> ie_info \<Rightarrow> bool" where
  "existsReverseDirection tbl i =
     (if ipfix_id_lookup tbl (ie_id i) (enterprise i OR IPFIX_PEN_reverse) = None
      then False else True)"

definition getReverseDirection :: "ie_table \<Rightarrow> ie_info \<Rightarrow> ie_info res" where
  "getReverseDirection tbl i =
     (if enterprise i AND IPFIX_PEN_reverse \<noteq> 0
      then Inl (Exception ''requested reverse direction of enterprise type id'')
      else if ipfix_id_lookup tbl (ie_id i) (enterprise i OR IPFIX_PEN_reverse) = None
      then Inl (Exception ''did not find reverse element'')
      else Inr (IeInfo tbl (ie_id i) (enterprise i OR IPFIX_PEN_reverse) (ie_length i)))"

fun find_field :: "u16 \<Rightarrow> u32 \<Rightarrow> field_info list \<Rightarrow> nat \<Rightarrow> nat option" where
  "find_field i e [] n = None"
| "find_field i e (f # fs) n =
     (if ie_id (ftype f) = i \<and> enterprise (ftype f) = e then Some n
      else find_field i e fs (Suc n))"

text \<open>The loops run over the \<open>fieldCount\<close> entries of the array.\<close>

definition getFieldInfo :: "template_info \<Rightarrow> u16 \<Rightarrow> u32 \<Rightarrow> field_info option" where
  "getFieldInfo ti i e =
     map_option (nth (fieldInfo ti)) (find_field i e (take (unat (fieldCount ti)) (fieldInfo ti)) 0)"

definition getFieldIndex :: "template_info \<Rightarrow> u16 \<Rightarrow> u32 \<Rightarrow> int" where
  "getFieldIndex ti i e =
     (case find_field i e (take (unat (fieldCount ti)) (fieldInfo ti)) 0 of
        None \<Rightarrow> -1 | Some n \<Rightarrow> int n)"

text \<open>
  The records handed from module to module. The data of a Data Record is the offset of
  its first byte in the message it came in.
\<close>

datatype ipfix_record =
    TemplateRecord source_id template_info
  | DataRecord source_id template_info nat bytes nat
  | TemplateDestructionRecord source_id template_info

section \<open>Unique template ids\<close>

text \<open>
  \<open>uniqueIdUseCount\<close> is the process-wide vector of use counts, indexed by unique id
  minus one; a counter is a \<open>uint16_t\<close>.
\<close>

fun first_zero :: "nat list \<Rightarrow> nat \<Rightarrow> nat option" where
  "first_zero [] i = None"
| "first_zero (c # cs) i = (if c = 0 then Some i else first_zero cs (Suc i))"

definition setUniqueId :: "nat \<Rightarrow> nat list \<Rightarrow> (nat \<times> nat list) res" where
  "setUniqueId oldId uc =
     (let oldSize = length uc mod 65536 in
      res_bind
        (case first_zero (take oldSize uc) 0 of
           Some i \<Rightarrow> Inr (i + 1, uc[i := 1])
         | None \<Rightarrow>
             if oldSize = 65535
             then Inl (Exception ''TemplateInfo: more than 65353 uniqueIds needed'')
             else Inr (oldSize + 1, uc @ [1]))
        (\<lambda>(uid, uc').
           if oldId \<noteq> 0
           then (if oldId > oldSize \<or> uc' ! (oldId - 1) = 0
                 then Inl (Exception ''TemplateInfo setUniqueId: uniqueIdUseCount is corrupt'')
                 else Inr (uid, uc'[oldId - 1 := uc' ! (oldId - 1) - 1]))
           else Inr (uid, uc')))"

definition TemplateInfo_copy :: "nat \<Rightarrow> nat list \<Rightarrow> (nat \<times> nat list) res" where
  "TemplateInfo_copy uid uc =
     (if uid = 0 \<or> uid > length uc \<or> uc ! (uid - 1) = 0
      then Inl (Exception ''TemplateInfo copy constructor: uniqueIdUseCount is corrupt'')
      else if uc ! (uid - 1) = 65535
      then Inl (Exception ''TemplateInfo: uniqueIdUseCount uint16_t overflow!'')
      else Inr (uid, uc[uid - 1 := uc ! (uid - 1) + 1]))"

definition TemplateInfo_destroy :: "nat \<Rightarrow> nat list \<Rightarrow> nat list res" where
  "TemplateInfo_destroy uid uc =
     (if uid = 0 \<or> uid > length uc \<or> uc ! (uid - 1) = 0
      then Inl (Exception ''TemplateInfo destructor: uniqueIdUseCount is corrupt'')
      else Inr (uc[uid - 1 := uc ! (uid - 1) - 1]))"

text \<open>The constructor starts from unique id 0 and calls \<open>setUniqueId\<close>.\<close>

definition TemplateInfo_new :: "nat list \<Rightarrow> (nat \<times> nat list) res" where
  "TemplateInfo_new uc = setUniqueId 0 uc"

section \<open>The order on SourceIDs\<close>

fun pad :: "nat \<Rightarrow> bytes \<Rightarrow> bytes" where
  "pad 0 xs = []"
| "pad (Suc n) xs = byte_at xs # pad n (tl xs)"

text \<open>What a SourceID is ordered by.\<close>

definition sid_key :: "source_id \<Rightarrow> int \<times> byte \<times> bytes \<times> u16 \<times> u32" where
  "sid_key s = (fileDescriptor s, len (exporterAddress s),
     pad (unat (len (exporterAddress s))) (ip (exporterAddress s)),
     exporterPort s, observationDomainId s)"

lemma memcmp_pad:
  "memcmp xs ys n = (if pad n xs < pad n ys then -1 else if pad n ys < pad n xs then 1 else 0)"
  by (induction xs ys n rule: memcmp.induct) auto

lemma memcmp_eq_0: "memcmp xs ys n = 0 \<longleftrightarrow> pad n xs = pad n ys"
  by (auto simp: memcmp_pad)

lemma sid_less_key: "sid_less s x \<longleftrightarrow> sid_key s < sid_key x"
  by (auto simp: sid_less_def sid_key_def memcmp_pad Let_def less_prod_def)

lemma sid_equiv_key: "equiv_key sid_less s x \<longleftrightarrow> sid_key s = sid_key x"
  by (auto simp: equiv_key_def sid_less_key)

interpretation sid: stl_order sid_less
  by unfold_locales (auto simp: sid_less_key sid_equiv_key)

lemma sid_eq_key:
  "protocol s \<noteq> 132 \<Longrightarrow> sid_eq s x \<longleftrightarrow> sid_key s = sid_key x"
  by (auto simp: sid_eq_def sid_key_def memcmp_eq_0)

lemma sid_eq_refl [simp]: "sid_eq s s"
  by (simp add: sid_eq_def memcmp_eq_0)

lemma sid_eq_sym: "protocol s = protocol x \<Longrightarrow> sid_eq s x \<longleftrightarrow> sid_eq x s"
  by (auto simp: sid_eq_def memcmp_eq_0)

lemma sid_eq_trans:
  "protocol s = protocol x \<Longrightarrow> sid_eq s x \<Longrightarrow> sid_eq x y \<Longrightarrow> sid_eq s y"
  by (auto simp: sid_eq_def memcmp_eq_0 split: if_splits)

lemma sid_eq_ignoring: "sid_eq s x \<Longrightarrow> equalIgnoringODID s x"
  by (auto simp: sid_eq_def equalIgnoringODID_def split: if_splits)

section \<open>Field lookup\<close>

lemma find_field_Some:
  "find_field i e fs n = Some k \<Longrightarrow>
     n \<le> k \<and> k < n + length fs \<and> ie_id (ftype (fs ! (k - n))) = i \<and>
     enterprise (ftype (fs ! (k - n))) = e \<and>
     (\<forall>j < k - n. \<not> (ie_id (ftype (fs ! j)) = i \<and> enterprise (ftype (fs ! j)) = e))"
proof (induction fs arbitrary: n)
  case Nil
  then show ?case by simp
next
  case (Cons f fs)
  show ?case
  proof (cases "ie_id (ftype f) = i \<and> enterprise (ftype f) = e")
    case True
    with Cons.prems show ?thesis by simp
  next
    case False
    with Cons.IH [of "Suc n"] Cons.prems have "Suc n \<le> k \<and> k < Suc n + length fs \<and> ie_id (ftype (fs ! (k - Suc n))) = i \<and>
      enterprise (ftype (fs ! (k - Suc n))) = e \<and>
      (\<forall>j < k - Suc n. \<not> (ie_id (ftype (fs ! j)) = i \<and> enterprise (ftype (fs ! j)) = e))"
      by simp
    with False show ?thesis
      by (auto simp: nth_Cons' Suc_diff_Suc)
  qed
qed

lemma find_field_None:
  "find_field i e fs n = None \<longleftrightarrow>
     (\<forall>f \<in> set fs. \<not> (ie_id (ftype f) = i \<and> enterprise (ftype f) = e))"
  by (induction fs arbitrary: n) auto

section \<open>Unique ids of live templates\<close>

text \<open>
  The invariant: \<open>live\<close> lists the unique ids of the TemplateInfo objects that exist;
  the counters are the numbers of their occurrences.
\<close>

definition uid_inv :: "nat list \<Rightarrow> nat list \<Rightarrow> bool" where
  "uid_inv live uc \<longleftrightarrow>
     length uc \<le> 65535 \<and> (\<forall>u \<in> set live. 1 \<le> u \<and> u \<le> length uc) \<and>
     (\<forall>i < length uc. uc ! i = count_list live (i + 1))"

datatype ti_op = TNew | TCopy nat | TSetId nat | TDestroy nat

text \<open>One life-cycle operation on the TemplateInfo objects of the process.\<close>

fun ti_step :: "nat list \<times> nat list \<Rightarrow> ti_op \<Rightarrow> (nat list \<times> nat list) res" where
  "ti_step (live, uc) TNew =
     res_bind (TemplateInfo_new uc) (\<lambda>(u, uc'). Inr (u # live, uc'))"
| "ti_step (live, uc) (TCopy u) =
     res_bind (TemplateInfo_copy u uc) (\<lambda>(u', uc'). Inr (u' # live, uc'))"
| "ti_step (live, uc) (TSetId u) =
     res_bind (setUniqueId u uc) (\<lambda>(u', uc'). Inr (u' # remove1 u live, uc'))"
| "ti_step (live, uc) (TDestroy u) =
     res_bind (TemplateInfo_destroy u uc) (\<lambda>uc'. Inr (remove1 u live, uc'))"

text \<open>The operation is applied to an object that exists.\<close>

fun ti_enabled :: "nat list \<Rightarrow> ti_op \<Rightarrow> bool" where
  "ti_enabled live TNew = True"
| "ti_enabled live (TCopy u) = (u \<in> set live)"
| "ti_enabled live (TSetId u) = (u \<in> set live)"
| "ti_enabled live (TDestroy u) = (u \<in> set live)"

lemma first_zero_Some:
  "first_zero cs i = Some k \<Longrightarrow> i \<le> k \<and> k < i + length cs \<and> cs ! (k - i) = 0"
proof (induction cs arbitrary: i)
  case Nil
  then show ?case by simp
next
  case (Cons c cs)
  show ?case
  proof (cases "c = 0")
    case True
    with Cons.prems show ?thesis by simp
  next
    case False
    with Cons.IH [of "Suc i"] Cons.prems have "Suc i \<le> k \<and> k < Suc i + length cs \<and> cs ! (k - Suc i) = 0" by simp
    then show ?thesis by (auto simp: nth_Cons')
  qed
qed

lemma count_list_remove1:
  "u \<in> set xs \<Longrightarrow> count_list (remove1 u xs) v = (if u = v then count_list xs v - 1 else count_list xs v)"
proof (induction xs)
  case Nil
  then show ?case by simp
next
  case (Cons x xs)
  have "u \<in> set xs \<Longrightarrow> 0 < count_list xs u"
    by (simp add: count_list_0_iff zero_less_iff_neq_zero)
  with Cons show ?case by auto
qed

lemma uid_inv_fresh:
  assumes inv: "uid_inv live uc" and u: "1 \<le> u" "u \<le> length uc" "uc ! (u - 1) = 0"
  shows "u \<notin> set live"
proof -
  have "count_list live u = 0"
    using inv u by (auto simp: uid_inv_def)
  then show ?thesis by (simp add: count_list_0_iff)
qed

lemma setUniqueId_new:
  assumes inv: "uid_inv live uc" and ok: "setUniqueId 0 uc = Inr (u, uc')"
  shows "u \<notin> set live \<and> uid_inv (u # live) uc'"
proof -
  have sz: "length uc mod 65536 = length uc" using inv by (simp add: uid_inv_def)
  consider (reuse) i where "first_zero uc 0 = Some i" "u = i + 1" "uc' = uc[i := 1]"
    | (grow) "first_zero uc 0 = None" "length uc \<noteq> 65535" "u = length uc + 1" "uc' = uc @ [1]"
    using ok sz by (auto simp: setUniqueId_def Let_def split: option.splits if_splits)
  then show ?thesis
  proof cases
    case reuse
    have i: "i < length uc" "uc ! i = 0" using first_zero_Some [OF reuse(1)] by auto
    then have "u \<notin> set live" using uid_inv_fresh [OF inv, of u] reuse by simp
    moreover have "count_list live u = 0" using calculation by (simp add: count_list_0_iff)
    ultimately show ?thesis using inv i reuse
      by (auto simp: uid_inv_def nth_list_update)
  next
    case grow
    have "u \<notin> set live" using inv grow by (auto simp: uid_inv_def)
    moreover have "count_list live u = 0" using calculation by (simp add: count_list_0_iff)
    ultimately show ?thesis using inv grow
      by (auto simp: uid_inv_def nth_append less_Suc_eq)
  qed
qed

lemma setUniqueId_split:
  assumes inv: "uid_inv live uc" and u: "u \<in> set live"
  shows "setUniqueId u uc =
    res_bind (setUniqueId 0 uc) (\<lambda>(v, uc'). Inr (v, uc'[u - 1 := uc' ! (u - 1) - 1]))"
proof (cases "setUniqueId 0 uc")
  case (Inl e)
  then show ?thesis
    by (auto simp: setUniqueId_def Let_def split: option.splits if_splits)
next
  case (Inr r)
  obtain v uc' where r: "r = (v, uc')" by (cases r)
  have sz: "length uc mod 65536 = length uc" using inv by (simp add: uid_inv_def)
  have ub: "1 \<le> u" "u \<le> length uc" using inv u by (auto simp: uid_inv_def)
  have new: "v \<notin> set live" "uid_inv (v # live) uc'"
    using setUniqueId_new [OF inv] Inr r by auto
  have "u \<le> length uc'" using new(2) u by (simp add: uid_inv_def)
  then have "uc' ! (u - 1) = count_list (v # live) u"
    using new(2) ub by (auto simp: uid_inv_def)
  moreover have "count_list live u \<noteq> 0" using u by (simp add: count_list_0_iff)
  ultimately have "uc' ! (u - 1) \<noteq> 0" by simp
  then show ?thesis
    using Inr r sz ub
    by (auto simp: setUniqueId_def Let_def split: option.splits if_splits)
qed

lemma uid_inv_dec:
  assumes inv: "uid_inv live uc" and u: "u \<in> set live"
  shows "uid_inv (remove1 u live) (uc[u - 1 := uc ! (u - 1) - 1])"
  using assms set_remove1_subset [of u live]
  by (auto simp: uid_inv_def nth_list_update count_list_remove1)

lemma remove1_Cons_neq: "v \<noteq> u \<Longrightarrow> v # remove1 u xs = remove1 u (v # xs)"
  by simp

definition capacity_exception :: "fault \<Rightarrow> bool" where
  "capacity_exception f \<longleftrightarrow>
     f = Exception ''TemplateInfo: more than 65353 uniqueIds needed'' \<or>
     f = Exception ''TemplateInfo: uniqueIdUseCount uint16_t overflow!''"

lemma setUniqueId_0_fault:
  "setUniqueId 0 uc = Inl f \<Longrightarrow> capacity_exception f"
  by (auto simp: setUniqueId_def capacity_exception_def Let_def split: option.splits if_splits)

lemma ti_step_new:
  assumes "uid_inv live uc"
  shows "case ti_step (live, uc) TNew of
    Inl f \<Rightarrow> capacity_exception f | Inr (live', uc') \<Rightarrow> uid_inv live' uc'"
  using assms setUniqueId_new setUniqueId_0_fault
  by (fastforce simp: TemplateInfo_new_def res_bind_def split: sum.splits)

lemma ti_step_copy:
  assumes inv: "uid_inv live uc" and u: "u \<in> set live"
  shows "case ti_step (live, uc) (TCopy u) of
    Inl f \<Rightarrow> capacity_exception f | Inr (live', uc') \<Rightarrow> uid_inv live' uc'"
proof -
  have "1 \<le> u" "u \<le> length uc" using inv u by (auto simp: uid_inv_def)
  moreover have "uc ! (u - 1) \<noteq> 0"
    using uid_inv_fresh [OF inv, of u] u calculation by auto
  ultimately show ?thesis
    using inv u
    by (auto simp: TemplateInfo_copy_def capacity_exception_def uid_inv_def nth_list_update)
qed

lemma ti_step_setid:
  assumes inv: "uid_inv live uc" and u: "u \<in> set live"
  shows "case ti_step (live, uc) (TSetId u) of
    Inl f \<Rightarrow> capacity_exception f | Inr (live', uc') \<Rightarrow> uid_inv live' uc'"
proof (cases "setUniqueId 0 uc")
  case (Inl f)
  then show ?thesis
    using setUniqueId_0_fault by (simp add: setUniqueId_split [OF inv u])
next
  case (Inr r)
  obtain v uc' where r: "r = (v, uc')" by (cases r)
  have new: "v \<notin> set live" "uid_inv (v # live) uc'"
    using setUniqueId_new [OF inv] Inr r by auto
  have "v \<noteq> u" using new(1) u by blast
  then show ?thesis
    using uid_inv_dec [OF new(2), of u] u
    by (simp add: setUniqueId_split [OF inv u] Inr r)
qed

lemma ti_step_destroy:
  assumes inv: "uid_inv live uc" and u: "u \<in> set live"
  shows "case ti_step (live, uc) (TDestroy u) of
    Inl f \<Rightarrow> capacity_exception f | Inr (live', uc') \<Rightarrow> uid_inv live' uc'"
proof -
  have "1 \<le> u" "u \<le> length uc" using inv u by (auto simp: uid_inv_def)
  moreover have "uc ! (u - 1) \<noteq> 0"
    using uid_inv_fresh [OF inv, of u] u calculation by auto
  ultimately show ?thesis
    using uid_inv_dec [OF inv u] by (simp add: TemplateInfo_destroy_def)
qed

text \<open>The TemplateInfo objects of a run of the program.\<close>

inductive ti_reach :: "nat list \<Rightarrow> nat list \<Rightarrow> bool" where
  start: "ti_reach [] []"
| step: "ti_reach live uc \<Longrightarrow> ti_enabled live op \<Longrightarrow>
    ti_step (live, uc) op = Inr (live', uc') \<Longrightarrow> ti_reach live' uc'"

lemma ti_step_outcome:
  assumes "uid_inv live uc" and "ti_enabled live op"
  shows "case ti_step (live, uc) op of
    Inl f \<Rightarrow> capacity_exception f | Inr (live', uc') \<Rightarrow> uid_inv live' uc'"
  using assms ti_step_new ti_step_copy ti_step_setid ti_step_destroy
  by (cases op) (auto simp del: ti_step.simps)

lemma ti_reach_inv: "ti_reach live uc \<Longrightarrow> uid_inv live uc"
proof (induction rule: ti_reach.induct)
  case start
  show ?case by (simp add: uid_inv_def)
next
  case (step live uc op live' uc')
  then show ?case using ti_step_outcome [of live uc op] by simp
qed

section \<open>Properties\<close>

text \<open>
  The order on SourceIDs, under which the parser keeps the sequence number state of
  every exporter, is a strict weak order, as \<open>std::map\<close> requires of it: irreflexive,
  transitive, and with a transitive equivalence of keys.
\<close>

theorem sid_less_strict_weak_order:
  "\<not> sid_less a a \<and> (sid_less a b \<and> sid_less b c \<longrightarrow> sid_less a c) \<and>
   (equiv_key sid_less a b \<and> equiv_key sid_less b c \<longrightarrow> equiv_key sid_less a c)"
  using sid.irrefl sid.trans sid.equiv_trans by blast

theorem sid_less_strict_weak_order_witness:
  "sid_less (SourceID_default []) (SourceID_default [] \<lparr>fileDescriptor := 1\<rparr>) \<and>
   sid_less (SourceID_default [] \<lparr>fileDescriptor := 1\<rparr>) (SourceID_default [] \<lparr>fileDescriptor := 2\<rparr>) \<and>
   sid_less (SourceID_default []) (SourceID_default [] \<lparr>fileDescriptor := 2\<rparr>)"
  using sid_less_strict_weak_order [of "SourceID_default []" "SourceID_default [] \<lparr>fileDescriptor := 1\<rparr>"
      "SourceID_default [] \<lparr>fileDescriptor := 2\<rparr>"]
  by (simp add: sid_less_def SourceID_default_def)

text \<open>
  C21: over every history of creations, copies, re-identifications and destructions of
  TemplateInfo objects, a newly assigned unique id is one that no live object has, the use
  counters are exactly the numbers of live objects with each id (so copies share the id
  and it is not reused before the last of them is gone), and the only exceptions raised
  are those for an exhausted id space or counter.
\<close>

theorem unique_ids:
  assumes "ti_reach live uc" and "ti_enabled live op"
  shows "uid_inv live uc \<and>
    (case ti_step (live, uc) op of
       Inl f \<Rightarrow> capacity_exception f
     | Inr (live', uc') \<Rightarrow> uid_inv live' uc' \<and> (op = TNew \<longrightarrow> hd live' \<notin> set live))"
proof -
  have inv: "uid_inv live uc" by (rule ti_reach_inv [OF assms(1)])
  have "hd live' \<notin> set live" if "ti_step (live, uc) TNew = Inr (live', uc')" for live' uc'
    using that setUniqueId_new [OF inv] by (auto simp: TemplateInfo_new_def elim!: res_bind_InrE)
  with inv ti_step_outcome [OF inv assms(2)] show ?thesis
    by (auto split: sum.splits)
qed

theorem unique_ids_witness:
  "ti_step ([1], [1]) TNew = Inr ([2, 1], [1, 1]) \<and> uid_inv [2, 1] [1, 1]"
proof -
  have n: "ti_step ([], []) TNew = Inr ([1], [1])" "ti_step ([1], [1]) TNew = Inr ([2, 1], [1, 1])"
    by (simp_all add: TemplateInfo_new_def setUniqueId_def)
  have "ti_reach [1] [1]"
    using ti_reach.step [OF ti_reach.start _ n(1)] by simp
  from unique_ids [OF this, of TNew] n(2) show ?thesis by simp
qed

end
