(* ===== verification/Template_Buffer.thy ===== *)
theory Template_Buffer
  imports Ipfix_Record
begin

text \<open>
  The buffer of received templates (src/src/modules/ipfix/TemplateBuffer.hpp and
  TemplateBuffer.cpp), twice. The first half has the operations on the sequence of
  buffered templates, newest first, with the Template Destruction Records they send; the
  parser is built on these. The second half has the linked list as the code keeps it: a
  heap of nodes with their \<open>next\<close> pointers, \<open>delete\<close> as removal from the heap, a
  visit of a freed node as a fault. The refinement lemmas show that the pointer code
  implements the operations on sequences, never touches a freed node and frees exactly
  the nodes it removes from the list.

  The argument \<open>now\<close> is what \<open>time(NULL)\<close> returns.
\<close>

section \<open>Operations on the sequence of templates\<close>

record buffered_template =
  sourceID :: source_id
  templateInfo :: template_info
  recordLength :: u16
  expires :: int

definition isExpired :: "int \<Rightarrow> buffered_template \<Rightarrow> bool" where
  "isExpired now bt \<longleftrightarrow> expires bt \<noteq> 0 \<and> expires bt < now"

definition onPreDestroy :: "buffered_template \<Rightarrow> ipfix_record" where
  "onPreDestroy bt = TemplateDestructionRecord (sourceID bt) (templateInfo bt)"

fun unlink_where :: "(buffered_template \<Rightarrow> bool) \<Rightarrow> buffered_template list
    \<Rightarrow> buffered_template list \<times> ipfix_record list" where
  "unlink_where P [] = ([], [])"
| "unlink_where P (bt # bts) =
     (let (rest, sent) = unlink_where P bts
      in if P bt then (rest, onPreDestroy bt # sent) else (bt # rest, sent))"

definition cleanUpExpiredTemplates :: "int \<Rightarrow> buffered_template list
    \<Rightarrow> buffered_template list \<times> ipfix_record list" where
  "cleanUpExpiredTemplates now bts = unlink_where (isExpired now) bts"

text \<open>The condition under which \<open>destroyBufferedTemplate\<close> removes a template.\<close>

definition destroys :: "source_id \<Rightarrow> u16 \<Rightarrow> bool \<Rightarrow> buffered_template \<Rightarrow> bool" where
  "destroys sid tid all bt \<longleftrightarrow>
     (sid_eq (sourceID bt) sid \<and>
        (templateId (templateInfo bt) = tid \<or>
         set_id_val (setId (templateInfo bt)) = int (unat tid))) \<or>
     (all \<and> equalIgnoringODID sid (sourceID bt))"

definition destroyBufferedTemplate :: "source_id \<Rightarrow> u16 \<Rightarrow> bool \<Rightarrow> buffered_template list
    \<Rightarrow> buffered_template list \<times> ipfix_record list" where
  "destroyBufferedTemplate sid tid all bts = unlink_where (destroys sid tid all) bts"

definition bufferTemplate :: "int \<Rightarrow> buffered_template \<Rightarrow> buffered_template list
    \<Rightarrow> buffered_template list \<times> ipfix_record list" where
  "bufferTemplate now bt bts =
     (let (bts1, sent1) = cleanUpExpiredTemplates now bts;
          (bts2, sent2) = destroyBufferedTemplate (sourceID bt) (templateId (templateInfo bt))
                            False bts1
      in (bt\<lparr>expires := 0\<rparr> # bts2, sent1 @ sent2))"

fun search_template :: "source_id \<Rightarrow> u16 \<Rightarrow> buffered_template list
    \<Rightarrow> buffered_template option" where
  "search_template sid tid [] = None"
| "search_template sid tid (bt # bts) =
     (if sid_eq (sourceID bt) sid \<and> templateId (templateInfo bt) = tid then Some bt
      else search_template sid tid bts)"

definition getBufferedTemplate :: "int \<Rightarrow> source_id \<Rightarrow> u16 \<Rightarrow> buffered_template list
    \<Rightarrow> buffered_template option \<times> buffered_template list \<times> ipfix_record list" where
  "getBufferedTemplate now sid tid bts =
     (case search_template sid tid bts of
        None \<Rightarrow> (None, bts, [])
      | Some bt \<Rightarrow>
          if isExpired now bt
          then (let (bts', sent) = cleanUpExpiredTemplates now bts in (None, bts', sent))
          else (Some bt, bts, []))"

lemma unlink_where_filter:
  "unlink_where P bts = (filter (\<lambda>b. \<not> P b) bts, map onPreDestroy (filter P bts))"
  by (induction bts) (auto simp: Let_def)

lemmas tb_defs = cleanUpExpiredTemplates_def destroyBufferedTemplate_def bufferTemplate_def
  unlink_where_filter

lemma search_template_Some:
  "search_template sid tid bts = Some bt \<Longrightarrow>
     bt \<in> set bts \<and> sid_eq (sourceID bt) sid \<and> templateId (templateInfo bt) = tid"
  by (induction bts) (auto split: if_splits)

text \<open>
  The live template a buffer holds for a source and template id; the abstract view of
  the buffer.
\<close>

definition live_template :: "int \<Rightarrow> buffered_template list \<Rightarrow> source_id \<Rightarrow> u16
    \<Rightarrow> buffered_template option" where
  "live_template now bts sid tid = fst (getBufferedTemplate now sid tid bts)"

text \<open>
  The buffer never holds two templates for the same source and template id: no later
  entry answers to the key of an earlier one.
\<close>

definition same_key :: "buffered_template \<Rightarrow> buffered_template \<Rightarrow> bool" where
  "same_key a b \<longleftrightarrow> sid_eq (sourceID b) (sourceID a) \<and>
     templateId (templateInfo b) = templateId (templateInfo a)"

definition tb_inv :: "buffered_template list \<Rightarrow> bool" where
  "tb_inv bts \<longleftrightarrow> sorted_wrt (\<lambda>a b. \<not> same_key a b) bts"

lemma same_key_expires [simp]: "same_key (a\<lparr>expires := e\<rparr>) b = same_key a b"
  by (simp add: same_key_def)

lemma tb_inv_unlink: "tb_inv bts \<Longrightarrow> tb_inv (fst (unlink_where P bts))"
  by (simp add: tb_inv_def unlink_where_filter sorted_wrt_filter)

lemma tb_inv_bufferTemplate:
  assumes "tb_inv bts"
  shows "tb_inv (fst (bufferTemplate now bt bts))"
proof -
  let ?rest = "filter (\<lambda>b. \<not> destroys (sourceID bt) (templateId (templateInfo bt)) False b)
    (filter (\<lambda>b. \<not> isExpired now b) bts)"
  have "\<forall>b \<in> set ?rest. \<not> same_key bt b"
    by (auto simp: destroys_def same_key_def)
  moreover have "sorted_wrt (\<lambda>a b. \<not> same_key a b) ?rest"
    using assms by (simp add: tb_inv_def sorted_wrt_filter)
  ultimately show ?thesis
    by (simp add: tb_defs tb_inv_def)
qed

lemma tb_inv_getBufferedTemplate:
  "tb_inv bts \<Longrightarrow> tb_inv (fst (snd (getBufferedTemplate now sid tid bts)))"
  using tb_inv_unlink
  by (auto simp: getBufferedTemplate_def cleanUpExpiredTemplates_def Let_def
      split: option.splits prod.splits)

text \<open>Searching past entries that cannot match.\<close>

lemma search_template_filter:
  assumes "\<forall>b \<in> set bts. P b \<longrightarrow> \<not> (sid_eq (sourceID b) sid \<and> templateId (templateInfo b) = tid)"
  shows "search_template sid tid (filter (\<lambda>b. \<not> P b) bts) = search_template sid tid bts"
  using assms by (induction bts) auto

lemma search_template_none_iff:
  "search_template sid tid bts = None \<longleftrightarrow>
     (\<forall>b \<in> set bts. \<not> (sid_eq (sourceID b) sid \<and> templateId (templateInfo b) = tid))"
  by (induction bts) auto

section \<open>The linked list\<close>

record node =
  bt :: buffered_template
  next_bt :: "nat option"

type_synonym heap = "nat \<Rightarrow> node option"

definition set_next :: "heap \<Rightarrow> nat \<Rightarrow> nat option \<Rightarrow> heap" where
  "set_next h p q = (case h p of None \<Rightarrow> h | Some n \<Rightarrow> h(p \<mapsto> n\<lparr>next_bt := q\<rparr>))"

text \<open>
  The loop of \<open>cleanUpExpiredTemplates\<close> and \<open>destroyBufferedTemplate\<close>: unlink and
  delete every node whose template satisfies \<open>P\<close>.
\<close>

partial_function (option) unlink_loop :: "(buffered_template \<Rightarrow> bool) \<Rightarrow> heap \<Rightarrow> nat option
    \<Rightarrow> nat option \<Rightarrow> nat option \<Rightarrow> ipfix_record list
    \<Rightarrow> (heap \<times> nat option \<times> ipfix_record list) res option" where
  "unlink_loop P h head predecessor cur sent =
     (case cur of
        None \<Rightarrow> Some (Inr (h, head, sent))
      | Some a \<Rightarrow>
          (case h a of
             None \<Rightarrow> Some (Inl OutOfBounds)
           | Some n \<Rightarrow>
               if P (bt n)
               then unlink_loop P
                      ((case predecessor of
                          None \<Rightarrow> h | Some p \<Rightarrow> set_next h p (next_bt n))(a := None))
                      (case predecessor of None \<Rightarrow> next_bt n | Some p \<Rightarrow> head)
                      predecessor (next_bt n) (sent @ [onPreDestroy (bt n)])
               else unlink_loop P h head (Some a) (next_bt n) sent))"

definition cleanUpExpiredTemplates_list :: "int \<Rightarrow> heap \<Rightarrow> nat option
    \<Rightarrow> (heap \<times> nat option \<times> ipfix_record list) res option" where
  "cleanUpExpiredTemplates_list now h head =
     unlink_loop (isExpired now) h head None head []"

definition destroyBufferedTemplate_list :: "source_id \<Rightarrow> u16 \<Rightarrow> bool \<Rightarrow> heap \<Rightarrow> nat option
    \<Rightarrow> (heap \<times> nat option \<times> ipfix_record list) res option" where
  "destroyBufferedTemplate_list sid tid all h head =
     unlink_loop (destroys sid tid all) h head None head []"

text \<open>\<open>a\<close> is the address of the new node, \<open>b\<close> the template it holds.\<close>

definition bufferTemplate_list :: "int \<Rightarrow> nat \<Rightarrow> buffered_template \<Rightarrow> heap \<Rightarrow> nat option
    \<Rightarrow> (heap \<times> nat option \<times> ipfix_record list) res option" where
  "bufferTemplate_list now a b h head =
     Option.bind (cleanUpExpiredTemplates_list now h head) (\<lambda>r. case r of
       Inl e \<Rightarrow> Some (Inl e)
     | Inr (h1, head1, sent1) \<Rightarrow>
         Option.bind (destroyBufferedTemplate_list (sourceID b) (templateId (templateInfo b))
             False h1 head1) (\<lambda>r2. case r2 of
           Inl e \<Rightarrow> Some (Inl e)
         | Inr (h2, head2, sent2) \<Rightarrow>
             Some (Inr (h2(a \<mapsto> \<lparr>bt = b\<lparr>expires := 0\<rparr>, next_bt = head2\<rparr>), Some a,
                        sent1 @ sent2))))"

text \<open>The nodes reachable from a pointer, with their addresses.\<close>

fun bt_chain :: "heap \<Rightarrow> nat option \<Rightarrow> (nat \<times> buffered_template) list \<Rightarrow> nat option \<Rightarrow> bool" where
  "bt_chain h p [] q \<longleftrightarrow> p = q"
| "bt_chain h p ((a, b) # xs) q \<longleftrightarrow>
     p = Some a \<and> (\<exists>nx. h a = Some \<lparr>bt = b, next_bt = nx\<rparr> \<and> bt_chain h nx xs q)"

definition tb_list :: "heap \<Rightarrow> nat option \<Rightarrow> (nat \<times> buffered_template) list \<Rightarrow> bool" where
  "tb_list h head xs \<longleftrightarrow> bt_chain h head xs None \<and> distinct (map fst xs)"

lemma bt_chain_append: "bt_chain h p (xs @ ys) q \<longleftrightarrow> (\<exists>r. bt_chain h p xs r \<and> bt_chain h r ys q)"
  by (induction xs arbitrary: p) (auto, blast+)

lemma bt_chain_upd_other:
  "a \<notin> fst ` set xs \<Longrightarrow> bt_chain (h(a := v)) p xs q = bt_chain h p xs q"
  by (induction xs arbitrary: p) auto

lemma bt_chain_set_next_other:
  "a \<notin> fst ` set xs \<Longrightarrow> bt_chain (set_next h a v) p xs q = bt_chain h p xs q"
  by (auto simp: set_next_def bt_chain_upd_other split: option.splits)

lemma chain_snoc_set_next:
  assumes "bt_chain h p (xs @ [(a, b)]) q" and "a \<notin> fst ` set xs"
  shows "bt_chain (set_next h a r) p (xs @ [(a, b)]) r"
  using assms bt_chain_set_next_other [of a xs h r]
  by (auto simp: bt_chain_append set_next_def split: option.splits)

definition last_addr :: "(nat \<times> buffered_template) list \<Rightarrow> nat option" where
  "last_addr xs = (if xs = [] then None else Some (fst (last xs)))"

lemma unlink_loop_correct:
  assumes "bt_chain h head xs cur" and "bt_chain h cur ys None"
    and "distinct (map fst (xs @ ys))"
  shows "\<exists>h' head'.
    unlink_loop P h head (last_addr xs) cur sent =
      Some (Inr (h', head', sent @ map (onPreDestroy \<circ> snd) (filter (P \<circ> snd) ys))) \<and>
    tb_list h' head' (xs @ filter (\<lambda>e. \<not> P (snd e)) ys) \<and>
    (\<forall>e \<in> set ys. P (snd e) \<longrightarrow> h' (fst e) = None) \<and>
    (\<forall>a. a \<notin> fst ` set (xs @ ys) \<longrightarrow> h' a = h a)"
  using assms
proof (induction ys arbitrary: h head xs cur sent)
  case Nil
  then show ?case
    by (auto simp: unlink_loop.simps tb_list_def)
next
  case (Cons e ys)
  obtain a b where e: "e = (a, b)" by (cases e)
  from Cons.prems(2) obtain nx where cur: "cur = Some a"
    and ha: "h a = Some \<lparr>bt = b, next_bt = nx\<rparr>" and ys: "bt_chain h nx ys None"
    by (auto simp: e)
  have a_xs: "a \<notin> fst ` set xs" and a_ys: "a \<notin> fst ` set ys"
    and disj: "fst ` set xs \<inter> fst ` set ys = {}" and dxs: "distinct (map fst xs)"
    and dys: "distinct (map fst ys)"
    using Cons.prems(3) by (auto simp: e)
  show ?case
  proof (cases "P b")
    case False
    have "bt_chain h head (xs @ [(a, b)]) nx"
      using Cons.prems(1) ha cur by (auto simp: bt_chain_append)
    moreover have "distinct (map fst ((xs @ [(a, b)]) @ ys))"
      using Cons.prems(3) by (simp add: e)
    moreover have "last_addr (xs @ [(a, b)]) = Some a"
      by (simp add: last_addr_def)
    ultimately show ?thesis
      using Cons.IH [of h head "xs @ [(a, b)]" nx sent] ys False
      by (simp add: e cur ha unlink_loop.simps [of P h head _ "Some a"])
  next
    case True
    define h1 where "h1 = (case last_addr xs of None \<Rightarrow> h | Some p \<Rightarrow> set_next h p nx)(a := None)"
    define head1 where "head1 = (case last_addr xs of None \<Rightarrow> nx | Some p \<Rightarrow> head)"
    have step: "unlink_loop P h head (last_addr xs) cur sent =
        unlink_loop P h1 head1 (last_addr xs) nx (sent @ [onPreDestroy b])"
      using True
      by (cases "last_addr xs")
        (simp_all add: cur ha unlink_loop.simps [of P h head _ "Some a"] h1_def head1_def)
    have xs1: "bt_chain h1 head1 xs nx" and frame: "\<forall>c. c \<notin> fst ` set xs \<longrightarrow> c \<noteq> a \<longrightarrow> h1 c = h c"
    proof -
      show "bt_chain h1 head1 xs nx"
      proof (cases xs rule: rev_cases)
        case Nil
        then show ?thesis by (simp add: head1_def last_addr_def)
      next
        case (snoc zs z)
        have "fst z \<notin> fst ` set zs" using dxs snoc by simp
        then have "bt_chain (set_next h (fst z) nx) head xs nx"
          using Cons.prems(1) chain_snoc_set_next [of h head zs "fst z" "snd z" cur nx] snoc by simp
        then show ?thesis
          using a_xs snoc by (simp add: h1_def head1_def last_addr_def bt_chain_upd_other)
      qed
      show "\<forall>c. c \<notin> fst ` set xs \<longrightarrow> c \<noteq> a \<longrightarrow> h1 c = h c"
        by (cases xs rule: rev_cases)
          (auto simp: h1_def last_addr_def set_next_def split: option.splits)
    qed
    have "bt_chain h1 nx ys None"
    proof -
      have "\<forall>c \<in> fst ` set ys. h1 c = h c"
        using frame disj a_ys by blast
      then show ?thesis
        using ys by (induction ys arbitrary: nx) auto
    qed
    moreover have "h1 a = None" by (simp add: h1_def)
    moreover have "distinct (map fst (xs @ ys))" using Cons.prems(3) by (simp add: e)
    ultimately obtain h' head' where
      loop: "unlink_loop P h1 head1 (last_addr xs) nx (sent @ [onPreDestroy b]) =
        Some (Inr (h', head', (sent @ [onPreDestroy b]) @
          map (onPreDestroy \<circ> snd) (filter (P \<circ> snd) ys)))"
      and l: "tb_list h' head' (xs @ filter (\<lambda>e. \<not> P (snd e)) ys)"
      and freed: "\<forall>e \<in> set ys. P (snd e) \<longrightarrow> h' (fst e) = None"
      and fr: "\<forall>c. c \<notin> fst ` set (xs @ ys) \<longrightarrow> h' c = h1 c"
      using Cons.IH [of h1 head1 xs nx "sent @ [onPreDestroy b]"] xs1 by blast
    have "h' a = None" using fr a_xs a_ys \<open>h1 a = None\<close> by auto
    moreover have "\<forall>c. c \<notin> fst ` set (xs @ e # ys) \<longrightarrow> h' c = h c"
      using fr frame by (auto simp: e)
    ultimately show ?thesis
      using step loop l freed True by (auto simp: e comp_def)
  qed
qed

lemma tb_list_fst_empty:
  "tb_list h head ys \<Longrightarrow>
   \<exists>h' head'. unlink_loop P h head None head [] =
       Some (Inr (h', head', snd (unlink_where P (map snd ys)))) \<and>
     tb_list h' head' (filter (\<lambda>e. \<not> P (snd e)) ys) \<and>
     (\<forall>e \<in> set ys. P (snd e) \<longrightarrow> h' (fst e) = None) \<and>
     (\<forall>a. a \<notin> fst ` set ys \<longrightarrow> h' a = h a)"
  using unlink_loop_correct [of h head "[]" head ys P "[]"]
  by (simp add: tb_list_def last_addr_def unlink_where_filter filter_map comp_def)

lemma map_snd_filter: "map snd (filter (\<lambda>e. \<not> P (snd e)) ys) = fst (unlink_where P (map snd ys))"
  by (simp add: unlink_where_filter filter_map comp_def)

text \<open>A UDP source and a template, the concrete inputs of the instances.\<close>

definition example_source :: source_id where
  "example_source = \<lparr>observationDomainId = 1, sysUpTime = 0, exportTime = 1000,
     exporterAddress = \<lparr>ip = [10, 0, 0, 9], len = 4\<rparr>, exporterPort = 4739, receiverPort = 4739,
     protocol = 17, fileDescriptor = 3\<rparr>"

definition example_template :: template_info where
  "example_template = \<lparr>templateId = 256, setId = IpfixTemplate, fieldCount = 1,
     fieldInfo = [\<lparr>ftype = \<lparr>ie_id = 8, enterprise = 0, ie_length = 4\<rparr>, offset = 0,
                   isVariableLength = False\<rparr>],
     scopeCount = 0, scopeInfo = []\<rparr>"

definition example_bt :: buffered_template where
  "example_bt = \<lparr>sourceID = example_source, templateInfo = example_template, recordLength = 4,
     expires = 1070\<rparr>"

text \<open>
  C17: the linked list code of \<open>bufferTemplate\<close>, with its two unlinking loops, ends,
  never follows a pointer to a deleted template, leaves a well-formed list behind, and
  computes the operation on the sequence of templates: the same templates in the same order
  and the same Template Destruction Records sent.
\<close>

theorem bufferTemplate_list_refines:
  assumes l: "tb_list h head ys" and fresh: "h a = None"
  shows "\<exists>h' ys'. bufferTemplate_list now a b h head =
      Some (Inr (h', Some a, snd (bufferTemplate now b (map snd ys)))) \<and>
    tb_list h' (Some a) ys' \<and> map snd ys' = fst (bufferTemplate now b (map snd ys))"
proof -
  let ?Q = "destroys (sourceID b) (templateId (templateInfo b)) False"
  let ?ys1 = "filter (\<lambda>e. \<not> isExpired now (snd e)) ys"
  let ?ys2 = "filter (\<lambda>e. \<not> ?Q (snd e)) ?ys1"
  have a_ys: "a \<notin> fst ` set ys"
  proof
    assume "a \<in> fst ` set ys"
    moreover have "bt_chain h head ys None" using l by (simp add: tb_list_def)
    ultimately have "h a \<noteq> None"
      by (induction h head ys "None :: nat option" rule: bt_chain.induct) auto
    then show False using fresh by simp
  qed
  obtain h1 head1 where c: "cleanUpExpiredTemplates_list now h head =
        Some (Inr (h1, head1, snd (unlink_where (isExpired now) (map snd ys))))"
      and l1: "tb_list h1 head1 ?ys1" and f1: "\<forall>c. c \<notin> fst ` set ys \<longrightarrow> h1 c = h c"
    using tb_list_fst_empty [OF l, of "isExpired now"]
    unfolding cleanUpExpiredTemplates_list_def by auto
  obtain h2 head2 where d: "destroyBufferedTemplate_list (sourceID b)
          (templateId (templateInfo b)) False h1 head1 =
        Some (Inr (h2, head2, snd (unlink_where ?Q (map snd ?ys1))))"
      and l2: "tb_list h2 head2 ?ys2"
    using tb_list_fst_empty [OF l1, of ?Q]
    unfolding destroyBufferedTemplate_list_def by auto
  let ?h3 = "h2(a \<mapsto> \<lparr>bt = b\<lparr>expires := 0\<rparr>, next_bt = head2\<rparr>)"
  have "a \<notin> fst ` set ?ys2" using a_ys by auto
  then have "tb_list ?h3 (Some a) ((a, b\<lparr>expires := 0\<rparr>) # ?ys2)"
    using l2 by (simp add: tb_list_def bt_chain_upd_other)
  moreover have "map snd ((a, b\<lparr>expires := 0\<rparr>) # ?ys2) = fst (bufferTemplate now b (map snd ys))"
    by (simp add: tb_defs filter_map comp_def)
  moreover have "bufferTemplate_list now a b h head =
      Some (Inr (?h3, Some a, snd (bufferTemplate now b (map snd ys))))"
    by (simp add: bufferTemplate_list_def c d tb_defs filter_map comp_def)
  ultimately show ?thesis by blast
qed

theorem bufferTemplate_list_refines_witness:
  "\<exists>h' ys'. bufferTemplate_list 1000 2 example_bt
        ((\<lambda>_. None)(1 \<mapsto> \<lparr>bt = example_bt\<lparr>expires := 5\<rparr>, next_bt = None\<rparr>)) (Some 1) =
      Some (Inr (h', Some 2, [onPreDestroy (example_bt\<lparr>expires := 5\<rparr>)])) \<and>
    tb_list h' (Some 2) ys' \<and> map snd ys' = [example_bt\<lparr>expires := 0\<rparr>]"
  using bufferTemplate_list_refines [of "(\<lambda>_. None)(1 \<mapsto> \<lparr>bt = example_bt\<lparr>expires := 5\<rparr>, next_bt = None\<rparr>)"
      "Some 1" "[(1, example_bt\<lparr>expires := 5\<rparr>)]" 2 1000 example_bt]
  by (simp add: tb_list_def tb_defs isExpired_def)

section \<open>The buffer as a map\<close>

lemma search_template_live:
  "search_template sid tid bts = Some b \<Longrightarrow> \<not> P b \<Longrightarrow>
     search_template sid tid (filter (\<lambda>b. \<not> P b) bts) = Some b"
  by (induction bts) (auto split: if_splits)

lemma search_template_dead:
  assumes "tb_inv bts" and "\<forall>b \<in> set bts. protocol (sourceID b) = protocol sid"
    and "search_template sid tid bts = Some b" and "P b"
  shows "search_template sid tid (filter (\<lambda>b. \<not> P b) bts) = None"
  using assms
proof (induction bts)
  case Nil
  then show ?case by simp
next
  case (Cons c bts)
  show ?case
  proof (cases "sid_eq (sourceID c) sid \<and> templateId (templateInfo c) = tid")
    case True
    have "\<not> (sid_eq (sourceID x) sid \<and> templateId (templateInfo x) = tid)" if "x \<in> set bts" for x
    proof
      assume x: "sid_eq (sourceID x) sid \<and> templateId (templateInfo x) = tid"
      have "sid_eq sid (sourceID c)"
        using True Cons.prems(2) sid_eq_sym [of "sourceID c" sid] by simp
      then have "same_key c x"
        using x True that Cons.prems(2) sid_eq_trans [of "sourceID x" sid "sourceID c"]
        by (simp add: same_key_def)
      then show False using Cons.prems(1) that by (simp add: tb_inv_def)
    qed
    then show ?thesis using True Cons.prems(3,4) by (auto simp: search_template_none_iff)
  next
    case False
    with Cons show ?thesis by (auto simp: tb_inv_def)
  qed
qed

lemma live_template_cleanup:
  assumes "tb_inv bts" and "\<forall>b \<in> set bts. protocol (sourceID b) = protocol sid"
  shows "live_template now (filter (\<lambda>b. \<not> isExpired now b) bts) sid tid = live_template now bts sid tid"
proof (cases "search_template sid tid bts")
  case None
  then have "search_template sid tid (filter (\<lambda>b. \<not> isExpired now b) bts) = None"
    by (simp add: search_template_none_iff)
  with None show ?thesis by (simp add: live_template_def getBufferedTemplate_def)
next
  case (Some b)
  then show ?thesis
    using search_template_live [OF Some, of "isExpired now"]
      search_template_dead [OF assms Some, of "isExpired now"]
    by (cases "isExpired now b")
      (auto simp: live_template_def getBufferedTemplate_def Let_def split: prod.split)
qed

lemma destroys_other_id:
  assumes "unat tid > 3" and "destroys sid tid False b"
  shows "templateId (templateInfo b) = tid"
proof -
  have "set_id_val si \<le> 3" for si by (cases si) simp_all
  then have "set_id_val (setId (templateInfo b)) \<noteq> int (unat tid)"
    using assms(1) by (metis of_nat_less_iff of_nat_numeral not_less)
  then show ?thesis using assms(2) unfolding destroys_def by simp
qed



end
