(* ===== verification/Ipfix_Parser.thy ===== *)
theory Ipfix_Parser
  imports Template_Buffer
begin

text \<open>
  The collector's message parser (src/src/modules/ipfix/IpfixParser.hpp and
  IpfixParser.cpp). A message is the byte buffer the receiver allocated together with the
  number of bytes received; pointers into it are offsets. Every access to the buffer goes
  through \<open>rd8\<close>, \<open>rd16\<close> and \<open>rd32\<close>, so an access outside of the buffer is the
  fault \<open>OutOfBounds\<close>; the write to \<open>fieldInfo\<close> in the scope loop of the Options
  Template parser is the fault \<open>HeapOverflow\<close> when it misses the array; a record loop
  that does not end is the fault \<open>Diverges\<close>. The records pushed to the next module are
  collected, in order, in the field \<open>sent\<close> of the parser's state.

  The build switches SUPPORT_NETFLOWV9 and EXPORT_TIME_SANITY_CHECK and the clock are the
  environment. The SourceID of a message is an object of its own, as the UDP, TCP and
  SCTP receivers allocate it, so its value is passed.
\<close>

section \<open>State\<close>

record parser_env =
  support_netflowv9 :: bool
  export_time_sanity_check :: bool
  time_now :: int

record sn_info =
  expectedSN :: u32
  receivedMessages :: u32
  receivedDataRecords :: u32
  receivedTemplateRecords :: u32
  outOfOrderMessages :: u32
  lostMessages :: u32
  lostDataRecords :: u32

definition SNInfo_new :: sn_info where
  "SNInfo_new = \<lparr>expectedSN = 0, receivedMessages = 0, receivedDataRecords = 0,
     receivedTemplateRecords = 0, outOfOrderMessages = 0, lostMessages = 0, lostDataRecords = 0\<rparr>"

record parser =
  templateBuffer :: "buffered_template list"
  templateLifetime :: u16
  statTotalDataRecords :: u64
  statTotalTemplateRecords :: u64
  statTotalMessages :: u64
  snInfoMap :: "(source_id, sn_info) std_map"
  sent :: "ipfix_record list"

definition DEFAULT_TEMPLATE_EXPIRE_SECS :: u16 where
  "DEFAULT_TEMPLATE_EXPIRE_SECS = 70"

definition IpfixParser_new :: parser where
  "IpfixParser_new = \<lparr>templateBuffer = [], templateLifetime = DEFAULT_TEMPLATE_EXPIRE_SECS,
     statTotalDataRecords = 0, statTotalTemplateRecords = 0, statTotalMessages = 0,
     snInfoMap = [], sent = []\<rparr>"

definition setTemplateLifetime :: "u16 \<Rightarrow> parser \<Rightarrow> parser" where
  "setTemplateLifetime t ps = ps\<lparr>templateLifetime := t\<rparr>"

definition push :: "ipfix_record \<Rightarrow> parser \<Rightarrow> parser" where
  "push r ps = ps\<lparr>sent := sent ps @ [r]\<rparr>"

text \<open>The comparison with 0 is one of unsigned integers.\<close>

definition isWithinTimeBoundary :: "parser_env \<Rightarrow> u32 \<Rightarrow> bool" where
  "isWithinTimeBoundary env et =
     (if export_time_sanity_check env
      then (let currentTime = of_int (time_now env)
            in if currentTime - et + 3600 < 0 \<or> currentTime - et > 86400
               then False else True)
      else True)"

definition IPFIX_ENTERPRISE_TYPE :: u16 where "IPFIX_ENTERPRISE_TYPE = 0x8000"

section \<open>Template sets\<close>

text \<open>
  The loop over the field specifiers of a template record. The result \<open>None\<close> is the
  early return when a specifier exceeds the set; otherwise the fields, the position after
  them, the record length and whether a field has variable length.
\<close>

fun template_fields :: "bool \<Rightarrow> bytes \<Rightarrow> nat \<Rightarrow> nat \<Rightarrow> nat \<Rightarrow> u16 \<Rightarrow> bool
    \<Rightarrow> (field_info list \<times> nat \<times> u16 \<times> bool) option res" where
  "template_fields ipfix m endOfSet 0 rec rl varying = Inr (Some ([], rec, rl, varying))"
| "template_fields ipfix m endOfSet (Suc n) rec rl varying =
     (if rec + 4 > endOfSet then Inr None
      else res_bind (rd16 m rec) (\<lambda>i. res_bind (rd16 m (rec + 2)) (\<lambda>l.
        let off = ucast rl; rl' = rl + l; varying' = (varying \<or> l = 65535) in
        if i AND IPFIX_ENTERPRISE_TYPE \<noteq> 0 \<and> ipfix
        then (if rec + 8 > endOfSet then Inr None
              else res_bind (rd32 m (rec + 4)) (\<lambda>en.
                res_bind (template_fields ipfix m endOfSet n (rec + 8) rl' varying') (\<lambda>r.
                  Inr (map_option (\<lambda>(fs, rest).
                    (\<lparr>ftype = \<lparr>ie_id = i AND NOT IPFIX_ENTERPRISE_TYPE, enterprise = en,
                               ie_length = l\<rparr>,
                      offset = off, isVariableLength = (l = 65535)\<rparr> # fs, rest)) r))))
        else res_bind (template_fields ipfix m endOfSet n (rec + 4) rl' varying') (\<lambda>r.
               Inr (map_option (\<lambda>(fs, rest).
                 (\<lparr>ftype = \<lparr>ie_id = i, enterprise = 0, ie_length = l\<rparr>,
                   offset = off, isVariableLength = (l = 65535)\<rparr> # fs, rest)) r)))))"

definition unknown_offset :: "field_info \<Rightarrow> field_info" where
  "unknown_offset f = f\<lparr>offset := 0xFFFFFFFF\<rparr>"

text \<open>
  \<open>templateBuffer->bufferTemplate(bt)\<close> and the assignment to \<open>bt->expires\<close>
  that follows it. 17 is UDP.
\<close>

definition store_template :: "parser_env \<Rightarrow> source_id \<Rightarrow> template_info \<Rightarrow> u16 \<Rightarrow> parser \<Rightarrow> parser" where
  "store_template env sid ti rl ps =
     (let (bts, destroyed) = bufferTemplate (time_now env)
            \<lparr>sourceID = sid, templateInfo = ti, recordLength = rl, expires = 0\<rparr> (templateBuffer ps);
          ex = (if protocol sid = 17 \<and> templateLifetime ps > 0
                then time_now env + int (unat (templateLifetime ps)) else 0)
      in ps\<lparr>templateBuffer := (case bts of [] \<Rightarrow> [] | b # bs \<Rightarrow> b\<lparr>expires := ex\<rparr> # bs),
            sent := sent ps @ destroyed @ [TemplateRecord sid ti]\<rparr>)"

definition withdraw_template :: "source_id \<Rightarrow> u16 \<Rightarrow> bool \<Rightarrow> parser \<Rightarrow> parser" where
  "withdraw_template sid tid all ps =
     (let (bts, destroyed) = destroyBufferedTemplate sid tid all (templateBuffer ps)
      in ps\<lparr>templateBuffer := bts, sent := sent ps @ destroyed\<rparr>)"

lemma template_fields_SucE:
  assumes "template_fields ipfix m eos (Suc n) rec rl v = Inr (Some (fs, rec', rl', v'))"
  obtains i l en d fs1 where "rd16 m (rec + 2) = Inr l" "4 \<le> d" "d \<le> 8" "rec + d \<le> eos"
    "template_fields ipfix m eos n (rec + d) (rl + l) (v \<or> l = 65535) =
       Inr (Some (fs1, rec', rl', v'))"
    "fs = \<lparr>ftype = \<lparr>ie_id = i, enterprise = en, ie_length = l\<rparr>,
            offset = ucast rl, isVariableLength = (l = 65535)\<rparr> # fs1"
proof -
  from assms obtain i l where rd: "rd16 m rec = Inr i" "rd16 m (rec + 2) = Inr l" "rec + 4 \<le> eos"
    by (auto simp: not_less split: if_splits elim!: res_bind_InrE)
  show thesis
  proof (cases "i AND IPFIX_ENTERPRISE_TYPE \<noteq> 0 \<and> ipfix")
    case True
    with assms rd that [of l 8] show thesis
      by (simp add: Let_def not_less split: if_splits) (auto simp: not_less elim!: res_bind_InrE)
  next
    case False
    with assms rd that [of l 4] show thesis
      by (auto simp: Let_def not_less simp del: de_Morgan_conj elim!: res_bind_InrE)
  qed
qed

lemma template_fields_pos:
  "template_fields ipfix m eos n rec rl v = Inr (Some (fs, rec', rl', v')) \<Longrightarrow>
     rec + 4 * n \<le> rec' \<and> rec' \<le> max rec eos"
proof (induction n arbitrary: rec rl v fs)
  case 0
  then show ?case by simp
next
  case (Suc n)
  from Suc.prems show ?case
    by (rule template_fields_SucE) (drule Suc.IH, simp)
qed

function template_loop :: "parser_env \<Rightarrow> source_id \<Rightarrow> set_id \<Rightarrow> bytes \<Rightarrow> nat \<Rightarrow> nat \<Rightarrow> nat
    \<Rightarrow> parser \<Rightarrow> (nat \<times> parser) res" where
  "template_loop env sid si m endOfSet rec cnt ps =
     (if rec + 4 \<le> endOfSet
      then res_bind (rd16 m rec) (\<lambda>tid. res_bind (rd16 m (rec + 2)) (\<lambda>fc.
        if fc = 0
        then template_loop env sid si m endOfSet (rec + 4) (cnt + 1)
               (withdraw_template sid tid False ps)
        else res_bind (template_fields (si = IpfixTemplate) m endOfSet (unat fc) (rec + 4) 0 False)
          (\<lambda>r. case r of
             None \<Rightarrow> Inr (cnt, ps)
           | Some (fs, rec', rl, varying) \<Rightarrow>
               template_loop env sid si m endOfSet rec' (cnt + 1)
                 (store_template env sid
                    \<lparr>templateId = tid, setId = si, fieldCount = fc,
                     fieldInfo = (if varying then map unknown_offset fs else fs),
                     scopeCount = 0, scopeInfo = []\<rparr>
                    (if varying then 65535 else rl) ps))))
      else Inr (cnt, ps))"
  by pat_completeness auto
termination
  by (relation "measure (\<lambda>(env, sid, si, m, endOfSet, rec, cnt, ps). endOfSet - rec)")
    (auto dest!: template_fields_pos)

definition processTemplateSet :: "parser_env \<Rightarrow> source_id \<Rightarrow> set_id \<Rightarrow> bytes \<Rightarrow> nat \<Rightarrow> nat
    \<Rightarrow> parser \<Rightarrow> (nat \<times> parser) res" where
  "processTemplateSet env sid si m st endOfMessage ps =
     res_bind (rd16 m (st + 2)) (\<lambda>l.
       let endOfSet = st + unat l in
       if endOfSet > endOfMessage then Inr (0, ps)
       else template_loop env sid si m endOfSet (st + 4) 0 ps)"

section \<open>Options Template sets\<close>

text \<open>
  The loop over the scope fields. In its last branch the code writes the enterprise
  number 0 to \<open>fieldInfo[scopeNo]\<close> instead of \<open>scopeInfo[scopeNo]\<close>: the scope
  field keeps what malloc left there (\<open>mem\<close>), and the write misses the array of
  \<open>fieldCount\<close> entries when \<open>scopeNo\<close> is not below \<open>fieldCount\<close>.
\<close>

fun scope_fields :: "bool \<Rightarrow> (nat \<Rightarrow> u32) \<Rightarrow> nat \<Rightarrow> bytes \<Rightarrow> nat \<Rightarrow> nat \<Rightarrow> nat \<Rightarrow> nat \<Rightarrow> u16 \<Rightarrow> bool
    \<Rightarrow> (field_info list \<times> nat \<times> u16 \<times> bool) option res" where
  "scope_fields ipfix mem nfields m endOfSet 0 scopeNo rec rl varying =
     Inr (Some ([], rec, rl, varying))"
| "scope_fields ipfix mem nfields m endOfSet (Suc n) scopeNo rec rl varying =
     (if rec + 4 > endOfSet then Inr None
      else res_bind (rd16 m rec) (\<lambda>i. res_bind (rd16 m (rec + 2)) (\<lambda>l.
        let off = ucast rl; rl' = rl + l; varying' = (varying \<or> l = 65535) in
        if i AND IPFIX_ENTERPRISE_TYPE \<noteq> 0 \<and> ipfix
        then (if rec + 8 > endOfSet then Inr None
              else res_bind (rd32 m (rec + 4)) (\<lambda>en.
                res_bind (scope_fields ipfix mem nfields m endOfSet n (scopeNo + 1) (rec + 8)
                    rl' varying') (\<lambda>r.
                  Inr (map_option (\<lambda>(fs, rest).
                    (\<lparr>ftype = \<lparr>ie_id = i AND NOT IPFIX_ENTERPRISE_TYPE, enterprise = en,
                               ie_length = l\<rparr>,
                      offset = off, isVariableLength = (l = 65535)\<rparr> # fs, rest)) r))))
        else if scopeNo \<ge> nfields then Inl HeapOverflow
        else res_bind (scope_fields ipfix mem nfields m endOfSet n (scopeNo + 1) (rec + 4)
                 rl' varying') (\<lambda>r.
               Inr (map_option (\<lambda>(fs, rest).
                 (\<lparr>ftype = \<lparr>ie_id = i, enterprise = mem scopeNo, ie_length = l\<rparr>,
                   offset = off, isVariableLength = (l = 65535)\<rparr> # fs, rest)) r)))))"

text \<open>The counts of an Options Template header, by set type.\<close>

definition options_counts :: "set_id \<Rightarrow> u16 \<Rightarrow> u16 \<Rightarrow> u16 \<times> u16" where
  "options_counts si hdr_fieldCount hdr_scopeCount =
     (if si = IpfixOptionsTemplate then (hdr_scopeCount, hdr_fieldCount - hdr_scopeCount)
      else if si = NetflowOptionsTemplate then (hdr_fieldCount div 4, hdr_scopeCount div 4)
      else (0, 0))"

lemma scope_fields_SucE:
  assumes "scope_fields ipfix mem k m eos (Suc n) sno rec rl v = Inr (Some (fs, rec', rl', v'))"
  obtains i l en d fs1 where "rd16 m (rec + 2) = Inr l" "4 \<le> d" "d \<le> 8" "rec + d \<le> eos"
    "scope_fields ipfix mem k m eos n (sno + 1) (rec + d) (rl + l) (v \<or> l = 65535) =
       Inr (Some (fs1, rec', rl', v'))"
    "fs = \<lparr>ftype = \<lparr>ie_id = i, enterprise = en, ie_length = l\<rparr>,
            offset = ucast rl, isVariableLength = (l = 65535)\<rparr> # fs1"
proof -
  from assms obtain i l where rd: "rd16 m rec = Inr i" "rd16 m (rec + 2) = Inr l" "rec + 4 \<le> eos"
    by (auto simp: not_less split: if_splits elim!: res_bind_InrE)
  show thesis
  proof (cases "i AND IPFIX_ENTERPRISE_TYPE \<noteq> 0 \<and> ipfix")
    case True
    with assms rd that [of l 8] show thesis
      by (simp add: Let_def not_less split: if_splits) (auto simp: not_less elim!: res_bind_InrE)
  next
    case False
    from assms rd False have "\<not> k \<le> sno" by (auto split: if_splits)
    with assms rd False that [of l 4] show thesis
      by (auto simp: Let_def not_less simp del: de_Morgan_conj elim!: res_bind_InrE)
  qed
qed

lemma scope_fields_pos:
  "scope_fields ipfix mem k m eos n sno rec rl v = Inr (Some (fs, rec', rl', v')) \<Longrightarrow>
     rec + 4 * n \<le> rec' \<and> rec' \<le> max rec eos"
proof (induction n arbitrary: sno rec rl v fs)
  case 0
  then show ?case by simp
next
  case (Suc n)
  from Suc.prems show ?case
    by (rule scope_fields_SucE) (drule Suc.IH, simp)
qed

function options_loop :: "parser_env \<Rightarrow> (nat \<Rightarrow> u32) \<Rightarrow> source_id \<Rightarrow> set_id \<Rightarrow> bytes \<Rightarrow> nat \<Rightarrow> nat
    \<Rightarrow> nat \<Rightarrow> parser \<Rightarrow> (nat \<times> parser) res" where
  "options_loop env mem sid si m endOfSet rec cnt ps =
     (if rec + 4 \<le> endOfSet
      then res_bind (rd16 m rec) (\<lambda>tid. res_bind (rd16 m (rec + 2)) (\<lambda>fc.
        if fc = 0
        then options_loop env mem sid si m endOfSet (rec + 4) (cnt + 1)
               (withdraw_template sid tid False ps)
        else if rec + 6 > endOfSet then Inr (cnt, ps)
        else res_bind (rd16 m (rec + 4)) (\<lambda>sc.
          let (scopes, fields) = options_counts si fc sc; ipfix = (si = IpfixOptionsTemplate) in
          res_bind (scope_fields ipfix mem (unat fields) m endOfSet (unat scopes) 0 (rec + 6) 0 False)
            (\<lambda>r. case r of
               None \<Rightarrow> Inr (cnt, ps)
             | Some (sfs, rec1, rl1, varying1) \<Rightarrow>
                 res_bind (template_fields ipfix m endOfSet (unat fields) rec1 rl1 varying1)
                   (\<lambda>r2. case r2 of
                      None \<Rightarrow> Inr (cnt, ps)
                    | Some (fs, rec', rl, varying) \<Rightarrow>
                        options_loop env mem sid si m endOfSet rec' (cnt + 1)
                          (store_template env sid
                             \<lparr>templateId = tid, setId = si, fieldCount = fields,
                              fieldInfo = (if varying then map unknown_offset fs else fs),
                              scopeCount = scopes,
                              scopeInfo = (if varying then map unknown_offset sfs else sfs)\<rparr>
                             (if varying then 65535 else rl) ps))))))
      else Inr (cnt, ps))"
  by pat_completeness auto
termination
  by (relation "measure (\<lambda>(env, mem, sid, si, m, endOfSet, rec, cnt, ps). endOfSet - rec)")
    (auto dest!: template_fields_pos scope_fields_pos)

definition processOptionsTemplateSet :: "parser_env \<Rightarrow> (nat \<Rightarrow> u32) \<Rightarrow> source_id \<Rightarrow> set_id \<Rightarrow> bytes
    \<Rightarrow> nat \<Rightarrow> nat \<Rightarrow> parser \<Rightarrow> (nat \<times> parser) res" where
  "processOptionsTemplateSet env mem sid si m st endOfMessage ps =
     res_bind (rd16 m (st + 2)) (\<lambda>l.
       let endOfSet = st + unat l in
       if endOfSet > endOfMessage then Inr (0, ps)
       else options_loop env mem sid si m endOfSet (st + 4) 0 ps)"

section \<open>Data sets\<close>

text \<open>The loop for records of a fixed length; the offsets of the records it pushes.\<close>

partial_function (option) fixed_records :: "nat \<Rightarrow> nat \<Rightarrow> nat \<Rightarrow> nat list \<Rightarrow> nat list option" where
  "fixed_records rlen endOfSet rec acc =
     (if rec + rlen \<le> endOfSet then fixed_records rlen endOfSet (rec + rlen) (acc @ [rec])
      else Some acc)"

text \<open>
  The length of one field of a record with variable length, and the record length up to
  the start of its content; \<open>None\<close> when the length lies outside of the set.
\<close>

definition field_length :: "bytes \<Rightarrow> nat \<Rightarrow> nat \<Rightarrow> nat \<Rightarrow> field_info \<Rightarrow> (nat \<times> nat) option res" where
  "field_length m endOfSet rec rl f =
     (if \<not> isVariableLength f then Inr (Some (unat (ie_length (ftype f)), rl))
      else if rec + rl + 1 > endOfSet then Inr None
      else res_bind (rd8 m (rec + rl)) (\<lambda>b.
        if b \<noteq> 255 then Inr (Some (unat b, rl + 1))
        else if rec + (rl + 1) + 2 > endOfSet then Inr None
        else res_bind (rd16 m (rec + (rl + 1))) (\<lambda>w. Inr (Some (unat w, rl + 3)))))"

fun var_fields :: "bytes \<Rightarrow> nat \<Rightarrow> nat \<Rightarrow> nat \<Rightarrow> field_info list
    \<Rightarrow> (field_info list \<times> nat) option res" where
  "var_fields m endOfSet rec rl [] = Inr (Some ([], rl))"
| "var_fields m endOfSet rec rl (f # fs) =
     res_bind (field_length m endOfSet rec rl f) (\<lambda>x. case x of
         None \<Rightarrow> Inr None
       | Some (fl, rl') \<Rightarrow>
           res_bind (var_fields m endOfSet rec (rl' + fl) fs) (\<lambda>y.
             Inr (map_option (\<lambda>(fs', rl'').
               (f\<lparr>ftype := (ftype f)\<lparr>ie_length := of_nat fl\<rparr>, offset := of_nat rl'\<rparr> # fs',
                rl'')) y)))"

text \<open>
  One record of variable length at \<open>rec\<close>: the copy of the template with the actual
  lengths and offsets, and the record's length; \<open>None\<close> when it is incomplete.
\<close>

definition var_record :: "bytes \<Rightarrow> nat \<Rightarrow> template_info \<Rightarrow> nat \<Rightarrow> (template_info \<times> nat) option res" where
  "var_record m endOfSet ti rec =
     res_bind (var_fields m endOfSet rec 0 (scopeInfo ti)) (\<lambda>x. case x of
         None \<Rightarrow> Inr None
       | Some (ss, rl1) \<Rightarrow>
           if rec + rl1 > endOfSet then Inr None
           else res_bind (var_fields m endOfSet rec rl1 (fieldInfo ti)) (\<lambda>y. case y of
               None \<Rightarrow> Inr None
             | Some (fs, rl2) \<Rightarrow>
                 if rec + rl2 > endOfSet then Inr None
                 else Inr (Some (ti\<lparr>scopeInfo := ss, fieldInfo := fs\<rparr>, rl2))))"

partial_function (option) var_records :: "bytes \<Rightarrow> nat \<Rightarrow> template_info \<Rightarrow> nat
    \<Rightarrow> (template_info \<times> nat \<times> nat) list \<Rightarrow> (template_info \<times> nat \<times> nat) list res option" where
  "var_records m endOfSet ti rec acc =
     (if rec < endOfSet
      then (case var_record m endOfSet ti rec of
              Inl e \<Rightarrow> Some (Inl e)
            | Inr None \<Rightarrow> Some (Inr acc)
            | Inr (Some (ti', rl)) \<Rightarrow>
                var_records m endOfSet ti (rec + rl) (acc @ [(ti', rl, rec)]))
      else Some (Inr acc))"

declare fixed_records.simps [code] var_records.simps [code]

text \<open>The template, length and offset of every record of a Data Set.\<close>

definition data_records :: "buffered_template \<Rightarrow> bytes \<Rightarrow> nat \<Rightarrow> nat
    \<Rightarrow> (template_info \<times> nat \<times> nat) list res" where
  "data_records b m rec endOfSet =
     (let ti = templateInfo b; rl = unat (recordLength b) in
      if recordLength b < 65535
      then (if rec + rl > endOfSet then Inr []
            else (case fixed_records rl endOfSet rec [] of
                    None \<Rightarrow> Inl Diverges
                  | Some rs \<Rightarrow> Inr (map (\<lambda>r. (ti, rl, r)) rs)))
      else if rec + unat (fieldCount ti) + unat (scopeCount ti) > endOfSet then Inr []
      else (case var_records m endOfSet ti rec [] of
              None \<Rightarrow> Inl Diverges
            | Some rs \<Rightarrow> rs))"

definition handled_set_id :: "parser_env \<Rightarrow> set_id \<Rightarrow> bool" where
  "handled_set_id env si \<longleftrightarrow>
     (if support_netflowv9 env
      then si = IpfixTemplate \<or> si = IpfixOptionsTemplate \<or> si = NetflowTemplate
           \<or> si = NetflowOptionsTemplate
      else si = IpfixTemplate \<or> si = IpfixOptionsTemplate)"

definition processDataSet :: "parser_env \<Rightarrow> source_id \<Rightarrow> bytes \<Rightarrow> nat \<Rightarrow> nat \<Rightarrow> parser
    \<Rightarrow> (nat \<times> parser) res" where
  "processDataSet env sid m st endOfMessage ps =
     res_bind (rd16 m st) (\<lambda>tid.
       let (found, bts, destroyed) = getBufferedTemplate (time_now env) sid tid (templateBuffer ps);
           ps1 = ps\<lparr>templateBuffer := bts, sent := sent ps @ destroyed\<rparr>
       in (case found of
             None \<Rightarrow> Inr (0, ps1)
           | Some b \<Rightarrow> res_bind (rd16 m (st + 2)) (\<lambda>l.
               let endOfSet = st + unat l in
               if endOfSet > endOfMessage then Inr (0, ps1)
               else if handled_set_id env (setId (templateInfo b))
               then res_bind (data_records b m (st + 4) endOfSet) (\<lambda>rs.
                      Inr (length rs,
                           ps1\<lparr>sent := sent ps1 @ map (\<lambda>(ti, rl, r). DataRecord sid ti rl m r) rs\<rparr>))
               else Inr (0, ps1))))"

section \<open>Messages\<close>

definition IPFIX_SetId_Data_Start :: u16 where "IPFIX_SetId_Data_Start = 256"

text \<open>
  The \<open>switch\<close> on the set id in the two message loops: the numbers of data and of
  template records.
\<close>

definition ipfix_set :: "parser_env \<Rightarrow> (nat \<Rightarrow> u32) \<Rightarrow> source_id \<Rightarrow> bytes \<Rightarrow> nat \<Rightarrow> nat \<Rightarrow> u16 \<Rightarrow> parser
    \<Rightarrow> (nat \<times> nat \<times> parser) res" where
  "ipfix_set env mem sid m endOfMessage st tmpid ps =
     (if tmpid = 2
      then res_bind (processTemplateSet env sid IpfixTemplate m st endOfMessage ps)
             (\<lambda>(n, ps'). Inr (0, n, ps'))
      else if tmpid = 3
      then res_bind (processOptionsTemplateSet env mem sid IpfixOptionsTemplate m st endOfMessage ps)
             (\<lambda>(n, ps'). Inr (0, n, ps'))
      else if tmpid \<ge> IPFIX_SetId_Data_Start
      then res_bind (processDataSet env sid m st endOfMessage ps) (\<lambda>(n, ps'). Inr (n, 0, ps'))
      else Inr (0, 0, ps))"

definition netflow_set :: "parser_env \<Rightarrow> (nat \<Rightarrow> u32) \<Rightarrow> source_id \<Rightarrow> bytes \<Rightarrow> nat \<Rightarrow> nat \<Rightarrow> u16 \<Rightarrow> parser
    \<Rightarrow> (nat \<times> nat \<times> parser) res" where
  "netflow_set env mem sid m endOfMessage st tmpid ps =
     (if tmpid = 0
      then res_bind (processTemplateSet env sid NetflowTemplate m st endOfMessage ps)
             (\<lambda>(n, ps'). Inr (0, n, ps'))
      else if tmpid = 1
      then res_bind (processOptionsTemplateSet env mem sid NetflowOptionsTemplate m st endOfMessage ps)
             (\<lambda>(n, ps'). Inr (0, n, ps'))
      else if tmpid \<ge> IPFIX_SetId_Data_Start
      then res_bind (processDataSet env sid m st endOfMessage ps) (\<lambda>(n, ps'). Inr (n, 0, ps'))
      else Inr (0, 0, ps))"

text \<open>
  The message loops. \<open>None\<close> is the return of -1 on a bad set length; the counters are
  \<open>uint16_t\<close>.
\<close>

lemma set_length_pos: "\<not> (l :: u16) < 3 \<Longrightarrow> 0 < unat l"
  by (cases "l = 0") (auto simp: unat_gt_0)

function ipfix_sets :: "parser_env \<Rightarrow> (nat \<Rightarrow> u32) \<Rightarrow> source_id \<Rightarrow> bytes \<Rightarrow> nat \<Rightarrow> nat \<Rightarrow> u16 \<Rightarrow> u16
    \<Rightarrow> parser \<Rightarrow> ((u16 \<times> u16) option \<times> parser) res" where
  "ipfix_sets env mem sid m endOfMessage st nd nt ps =
     (if st + 4 \<le> endOfMessage
      then res_bind (rd16 m (st + 2)) (\<lambda>l.
        if l < 3 then Inr (None, ps)
        else res_bind (rd16 m st) (\<lambda>tmpid.
          res_bind (ipfix_set env mem sid m endOfMessage st tmpid ps) (\<lambda>(d, t, ps').
            ipfix_sets env mem sid m endOfMessage (st + unat l) (nd + of_nat d) (nt + of_nat t) ps')))
      else Inr (Some (nd, nt), ps))"
  by pat_completeness auto
termination
  by (relation "measure (\<lambda>(env, mem, sid, m, e, st, nd, nt, ps). e - st)")
    (auto dest!: set_length_pos)

function netflow_sets :: "parser_env \<Rightarrow> (nat \<Rightarrow> u32) \<Rightarrow> source_id \<Rightarrow> bytes \<Rightarrow> nat \<Rightarrow> u16 \<Rightarrow> nat \<Rightarrow> u16 \<Rightarrow> u16
    \<Rightarrow> parser \<Rightarrow> ((u16 \<times> u16) option \<times> parser) res" where
  "netflow_sets env mem sid m endOfMessage expected st nd nt ps =
     (if unat nd + unat nt \<le> unat expected \<and> st + 4 \<le> endOfMessage
      then res_bind (rd16 m (st + 2)) (\<lambda>l.
        if l < 3 then Inr (None, ps)
        else res_bind (rd16 m st) (\<lambda>tmpid.
          res_bind (netflow_set env mem sid m endOfMessage st tmpid ps) (\<lambda>(d, t, ps').
            netflow_sets env mem sid m endOfMessage expected (st + unat l)
              (nd + of_nat d) (nt + of_nat t) ps')))
      else Inr (Some (nd, nt), ps))"
  by pat_completeness auto
termination
  by (relation "measure (\<lambda>(env, mem, sid, m, e, x, st, nd, nt, ps). e - st)")
    (auto dest!: set_length_pos)

text \<open>The loss accounting at the end of the two message handlers; 17 is UDP.\<close>

definition ipfix_account :: "source_id \<Rightarrow> u32 \<Rightarrow> u16 \<Rightarrow> u16 \<Rightarrow> (source_id, sn_info) std_map
    \<Rightarrow> (source_id, sn_info) std_map" where
  "ipfix_account sid seq nd nt sm =
     (if protocol sid = 17
      then (case std_find sid_less sid sm of
              Some i \<Rightarrow>
                (let difference = int (unat seq) - int (unat (expectedSN i));
                     i1 = (if difference > 0
                           then i\<lparr>lostDataRecords := lostDataRecords i + of_int difference\<rparr>
                           else if difference < 0
                           then i\<lparr>outOfOrderMessages := outOfOrderMessages i + 1\<rparr> else i)
                 in std_assign sid_less sid
                      (i1\<lparr>expectedSN := seq + ucast nd,
                          receivedMessages := receivedMessages i1 + 1,
                          receivedDataRecords := receivedDataRecords i1 + ucast nd,
                          receivedTemplateRecords := receivedTemplateRecords i1 + ucast nt\<rparr>) sm)
            | None \<Rightarrow>
                std_assign sid_less sid
                  (SNInfo_new\<lparr>expectedSN := seq + ucast nd, receivedMessages := 1,
                     receivedDataRecords := ucast nd, receivedTemplateRecords := ucast nt\<rparr>) sm)
      else sm)"

definition netflow_account :: "source_id \<Rightarrow> u32 \<Rightarrow> u16 \<Rightarrow> u16 \<Rightarrow> (source_id, sn_info) std_map
    \<Rightarrow> (source_id, sn_info) std_map" where
  "netflow_account sid seq nd nt sm =
     (if protocol sid = 17
      then (case std_find sid_less sid sm of
              Some i \<Rightarrow>
                (let difference = int (unat seq) - int (unat (expectedSN i));
                     i1 = (if difference > 0
                           then i\<lparr>lostMessages := lostMessages i + of_int difference\<rparr>
                           else if difference < 0
                           then i\<lparr>outOfOrderMessages := outOfOrderMessages i + 1\<rparr> else i)
                 in std_assign sid_less sid
                      (i1\<lparr>expectedSN := seq + 1,
                          receivedMessages := receivedMessages i1 + 1,
                          receivedDataRecords := receivedDataRecords i1 + ucast nd,
                          receivedTemplateRecords := receivedTemplateRecords i1 + ucast nt\<rparr>) sm)
            | None \<Rightarrow>
                std_assign sid_less sid
                  (SNInfo_new\<lparr>expectedSN := seq + 1, receivedMessages := 1,
                     receivedDataRecords := ucast nd, receivedTemplateRecords := ucast nt\<rparr>) sm)
      else sm)"

definition update_statistics :: "u16 \<Rightarrow> u16 \<Rightarrow> parser \<Rightarrow> parser" where
  "update_statistics nd nt ps =
     ps\<lparr>statTotalMessages := statTotalMessages ps + 1,
        statTotalDataRecords := statTotalDataRecords ps + ucast nd,
        statTotalTemplateRecords := statTotalTemplateRecords ps + ucast nt\<rparr>"

text \<open>
  The header structures end with a one-byte \<open>data\<close> member, so their sizes are padded
  to 20 and 24 bytes, while the data starts at 16 and 20.
\<close>

definition sizeof_IpfixHeader :: nat where "sizeof_IpfixHeader = 20"
definition sizeof_NetflowV9Header :: nat where "sizeof_NetflowV9Header = 24"

definition processIpfixPacket :: "parser_env \<Rightarrow> (nat \<Rightarrow> u32) \<Rightarrow> bytes \<Rightarrow> u16 \<Rightarrow> source_id \<Rightarrow> parser
    \<Rightarrow> (int \<times> parser) res" where
  "processIpfixPacket env mem m plen sid ps =
     (if unat plen < sizeof_IpfixHeader then Inr (-1, ps)
      else res_bind (rd32 m 12) (\<lambda>odid. res_bind (rd32 m 4) (\<lambda>et. res_bind (rd16 m 2) (\<lambda>hl.
        let sid' = sid\<lparr>observationDomainId := odid, exportTime := et\<rparr> in
        if hl \<noteq> plen then Inr (-1, ps)
        else res_bind (rd32 m 8) (\<lambda>seq.
          res_bind (ipfix_sets env mem sid' m (unat plen) 16 0 0 ps) (\<lambda>(r, ps'). case r of
              None \<Rightarrow> Inr (-1, ps')
            | Some (nd, nt) \<Rightarrow>
                Inr (0, update_statistics nd nt
                   (ps'\<lparr>snInfoMap := ipfix_account sid' seq nd nt (snInfoMap ps')\<rparr>))))))))"

definition processNetflowV9Packet :: "parser_env \<Rightarrow> (nat \<Rightarrow> u32) \<Rightarrow> bytes \<Rightarrow> u16 \<Rightarrow> source_id \<Rightarrow> parser
    \<Rightarrow> (int \<times> parser) res" where
  "processNetflowV9Packet env mem m plen sid ps =
     (if unat plen < sizeof_NetflowV9Header then Inr (-1, ps)
      else res_bind (rd32 m 16) (\<lambda>odid. res_bind (rd32 m 4) (\<lambda>up. res_bind (rd32 m 8) (\<lambda>et.
        let sid' = sid\<lparr>observationDomainId := odid, sysUpTime := up, exportTime := et\<rparr> in
        res_bind (rd16 m 2) (\<lambda>expected. res_bind (rd32 m 12) (\<lambda>seq.
          res_bind (netflow_sets env mem sid' m (unat plen) expected 20 0 0 ps) (\<lambda>(r, ps'). case r of
              None \<Rightarrow> Inr (-1, ps')
            | Some (nd, nt) \<Rightarrow>
                Inr (0, update_statistics nd nt
                   (ps'\<lparr>snInfoMap := netflow_account sid' seq nd nt (snInfoMap ps')\<rparr>)))))))))"

definition processPacket :: "parser_env \<Rightarrow> (nat \<Rightarrow> u32) \<Rightarrow> bytes \<Rightarrow> u16 \<Rightarrow> source_id \<Rightarrow> parser
    \<Rightarrow> (int \<times> parser) res" where
  "processPacket env mem m plen sid ps =
     (if plen = 0 then Inr (0, withdraw_template sid 0 True ps)
      else res_bind (rd16 m 0) (\<lambda>version.
        if version = 0x000a
        then res_bind (rd32 m 4) (\<lambda>et.
          if \<not> isWithinTimeBoundary env et then Inr (-1, ps)
          else processIpfixPacket env mem m plen sid ps)
        else if support_netflowv9 env \<and> version = 0x0009
        then res_bind (rd32 m 8) (\<lambda>et.
          if \<not> isWithinTimeBoundary env et then Inr (-1, ps)
          else processNetflowV9Packet env mem m plen sid ps)
        else Inr (-1, ps)))"

declare template_loop.simps [simp del] options_loop.simps [simp del] ipfix_sets.simps [simp del]
  netflow_sets.simps [simp del]

definition resendBufferedTemplates :: "parser \<Rightarrow> parser" where
  "resendBufferedTemplates ps =
     ps\<lparr>sent := sent ps @ map (\<lambda>b. TemplateRecord (sourceID b) (templateInfo b)) (templateBuffer ps)\<rparr>"

definition withdrawBufferedTemplates :: "parser \<Rightarrow> parser" where
  "withdrawBufferedTemplates ps = ps\<lparr>sent := sent ps @ map onPreDestroy (templateBuffer ps)\<rparr>"

definition postReconfiguration :: "parser \<Rightarrow> parser" where
  "postReconfiguration ps = resendBufferedTemplates ps"

end
