(* ===== verification/Parser_Safety.thy ===== *)
theory Parser_Safety
  imports Ipfix_Parser
begin

text \<open>
  What the parser guarantees for every message, however malformed: it reads only inside of
  the received bytes, the templates it buffers are well-formed, the Data Records it
  pushes lie inside of the message and their fields inside of the record, and it returns.
\<close>

section \<open>Well-formed templates\<close>

abbreviation flen :: "field_info \<Rightarrow> u16" where
  "flen f \<equiv> ie_length (ftype f)"

text \<open>The fields follow each other from offset \<open>r\<close> on, in 16-bit arithmetic.\<close>

fun fields_at :: "u16 \<Rightarrow> field_info list \<Rightarrow> bool" where
  "fields_at r [] = True"
| "fields_at r (f # fs) = (offset f = ucast r \<and> fields_at (r + flen f) fs)"

definition field_wf :: "field_info \<Rightarrow> bool" where
  "field_wf f \<longleftrightarrow> (isVariableLength f \<longleftrightarrow> flen f = 65535)"

definition ti_fields :: "template_info \<Rightarrow> field_info list" where
  "ti_fields ti = scopeInfo ti @ fieldInfo ti"

definition varying :: "template_info \<Rightarrow> bool" where
  "varying ti \<longleftrightarrow> (\<exists>f \<in> set (ti_fields ti). isVariableLength f)"

definition ti_wf :: "template_info \<Rightarrow> bool" where
  "ti_wf ti \<longleftrightarrow> length (fieldInfo ti) = unat (fieldCount ti) \<and>
     length (scopeInfo ti) = unat (scopeCount ti) \<and> (\<forall>f \<in> set (ti_fields ti). field_wf f)"

text \<open>
  The template and its record length: 65535 and unknown offsets when a field has variable
  length, otherwise the 16-bit sum of the lengths and consecutive offsets.
\<close>

definition bt_wf :: "buffered_template \<Rightarrow> bool" where
  "bt_wf b \<longleftrightarrow> ti_wf (templateInfo b) \<and>
     (if varying (templateInfo b)
      then recordLength b = 65535 \<and> (\<forall>f \<in> set (ti_fields (templateInfo b)). offset f = 0xFFFFFFFF)
      else recordLength b = sum_list (map flen (ti_fields (templateInfo b))) \<and>
           fields_at 0 (ti_fields (templateInfo b)))"

definition tf_post :: "nat \<Rightarrow> u16 \<Rightarrow> bool \<Rightarrow> field_info list \<Rightarrow> u16 \<Rightarrow> bool \<Rightarrow> bool" where
  "tf_post n rl v fs rl' v' \<longleftrightarrow> length fs = n \<and> (\<forall>f \<in> set fs. field_wf f) \<and> fields_at rl fs \<and>
     rl' = rl + sum_list (map flen fs) \<and> (v' \<longleftrightarrow> v \<or> (\<exists>f \<in> set fs. isVariableLength f))"

lemma template_fields_post:
  "template_fields ipfix m eos n rec rl v = Inr (Some (fs, rec', rl', v')) \<Longrightarrow> tf_post n rl v fs rl' v'"
proof (induction n arbitrary: rec rl v fs)
  case 0
  then show ?case by (simp add: tf_post_def)
next
  case (Suc n)
  from Suc.prems show ?case
    by (rule template_fields_SucE) (drule Suc.IH, auto simp: tf_post_def field_wf_def)
qed

lemma scope_fields_post:
  "scope_fields ipfix mem k m eos n sno rec rl v = Inr (Some (fs, rec', rl', v')) \<Longrightarrow>
     tf_post n rl v fs rl' v'"
proof (induction n arbitrary: sno rec rl v fs)
  case 0
  then show ?case by (simp add: tf_post_def)
next
  case (Suc n)
  from Suc.prems show ?case
    by (rule scope_fields_SucE) (drule Suc.IH, auto simp: tf_post_def field_wf_def)
qed

lemma fields_at_append:
  "fields_at r (xs @ ys) \<longleftrightarrow> fields_at r xs \<and> fields_at (r + sum_list (map flen xs)) ys"
  by (induction xs arbitrary: r) (auto simp: add.assoc)

lemma unknown_offset_simps [simp]:
  "ftype (unknown_offset f) = ftype f" "isVariableLength (unknown_offset f) = isVariableLength f"
  "offset (unknown_offset f) = 0xFFFFFFFF" "field_wf (unknown_offset f) = field_wf f"
  by (simp_all add: unknown_offset_def field_wf_def)

text \<open>The template the two parsers build from the fields they read.\<close>

lemma bt_wf_parsed:
  assumes "tf_post (unat sc) 0 False ss rl1 v1" and "tf_post (unat fc) rl1 v1 fs rl v"
  shows "bt_wf \<lparr>sourceID = sid,
    templateInfo = \<lparr>templateId = tid, setId = si, fieldCount = fc,
      fieldInfo = (if v then map unknown_offset fs else fs), scopeCount = sc,
      scopeInfo = (if v then map unknown_offset ss else ss)\<rparr>,
    recordLength = (if v then 65535 else rl), expires = e\<rparr>"
proof (cases v)
  case True
  with assms have "(\<exists>f \<in> set ss. isVariableLength f) \<or> (\<exists>f \<in> set fs. isVariableLength f)"
    by (auto simp: tf_post_def)
  with assms True show ?thesis
    by (simp add: bt_wf_def ti_wf_def varying_def ti_fields_def tf_post_def bex_Un ball_Un)
next
  case False
  with assms show ?thesis
    by (simp add: bt_wf_def ti_wf_def varying_def ti_fields_def tf_post_def fields_at_append) blast
qed

lemma bt_wf_parsed_template:
  assumes "tf_post (unat fc) 0 False fs rl v"
  shows "bt_wf \<lparr>sourceID = sid,
    templateInfo = \<lparr>templateId = tid, setId = si, fieldCount = fc,
      fieldInfo = (if v then map unknown_offset fs else fs), scopeCount = 0, scopeInfo = []\<rparr>,
    recordLength = (if v then 65535 else rl), expires = e\<rparr>"
proof -
  have "tf_post (unat (0 :: u16)) 0 False [] 0 False" by (simp add: tf_post_def)
  from bt_wf_parsed [OF this assms] show ?thesis by (cases v) simp_all
qed

section \<open>Reading template records\<close>

lemma template_fields_safe:
  "eos \<le> length m \<Longrightarrow> safe (template_fields ipfix m eos n rec rl v)"
proof (induction n arbitrary: ipfix rec rl v)
  case 0
  then show ?case by simp
next
  case (Suc n)
  then show ?case
    by (auto simp: Let_def not_less intro!: safe_bindI)
qed

lemma scope_fields_outcome:
  "eos \<le> length m \<Longrightarrow> (k < sno + n \<Longrightarrow> E HeapOverflow) \<Longrightarrow>
     outcome E (\<lambda>_. True) (scope_fields ipfix mem k m eos n sno rec rl v)"
proof (induction n arbitrary: ipfix sno rec rl v)
  case 0
  then show ?case by simp
next
  case (Suc n)
  have IH: "outcome E (\<lambda>_. True) (scope_fields i mem k m eos n (Suc sno) r l w)" for i r l w
    using Suc.IH [of "Suc sno" i r l w] Suc.prems by simp
  show ?case
    using Suc.prems
    by (auto simp: Let_def not_less outcome_bind IH intro!: outcome_rd16 outcome_rd32)
qed

section \<open>Reading data records\<close>

lemma fixed_records_ends:
  assumes "0 < rlen" and "rec \<le> endOfSet"
  shows "fixed_records rlen endOfSet rec acc =
    Some (acc @ map (\<lambda>i. rec + i * rlen) [0..<(endOfSet - rec) div rlen])"
  using assms
proof (induction "endOfSet - rec" arbitrary: rec acc rule: less_induct)
  case less
  show ?case
  proof (cases "rec + rlen \<le> endOfSet")
    case True
    then have k: "(endOfSet - rec) div rlen = Suc ((endOfSet - (rec + rlen)) div rlen)"
      using less.prems le_div_geq [of rlen "endOfSet - rec"] by simp
    have "fixed_records rlen endOfSet (rec + rlen) (acc @ [rec]) =
        Some ((acc @ [rec]) @ map (\<lambda>i. (rec + rlen) + i * rlen) [0..<(endOfSet - (rec + rlen)) div rlen])"
      using True less.prems by (intro less.hyps) auto
    then show ?thesis
      using True by (subst fixed_records.simps)
        (simp add: k upt_conv_Cons map_Suc_upt [symmetric] algebra_simps del: upt_Suc)
  next
    case False
    then have "(endOfSet - rec) div rlen = 0" using less.prems by simp
    then show ?thesis using False by (subst fixed_records.simps) simp
  qed
qed

lemma fixed_records_0:
  assumes "rec \<le> endOfSet"
  shows "fixed_records 0 endOfSet rec acc = None"
proof -
  have "rlen = 0 \<longrightarrow> \<not> rec \<le> endOfSet" if "fixed_records rlen endOfSet rec acc = Some y" for rlen y
    by (rule fixed_records.raw_induct [where P = "\<lambda>l e r a y. l = 0 \<longrightarrow> \<not> r \<le> e", OF _ that])
      (fastforce split: if_splits)
  then show ?thesis using assms by (cases "fixed_records 0 endOfSet rec acc") auto
qed

lemma field_length_safe:
  "eos \<le> length m \<Longrightarrow> safe (field_length m eos rec rl f)"
  by (auto simp: field_length_def intro!: safe_bindI)

lemma field_length_post:
  "field_length m eos rec rl f = Inr (Some (fl, rl')) \<Longrightarrow>
     fl < 65536 \<and> rl \<le> rl' \<and> (isVariableLength f \<or> flen f \<noteq> 0 \<longrightarrow> rl < rl' + fl)"
proof -
  have b: "unat (w :: byte) < 65536" for w using byte_lt [of w] by simp
  assume "field_length m eos rec rl f = Inr (Some (fl, rl'))"
  then show ?thesis
    by (auto simp: field_length_def u16_lt b unat_gt_0 split: if_splits elim!: res_bind_InrE)
qed

text \<open>A field lies in its record, and is the one the template describes.\<close>

definition in_record :: "nat \<Rightarrow> nat \<Rightarrow> field_info \<Rightarrow> bool" where
  "in_record lo hi f \<longleftrightarrow> lo \<le> unat (offset f) \<and> unat (offset f) + unat (flen f) \<le> hi"

definition same_field :: "field_info \<Rightarrow> field_info \<Rightarrow> bool" where
  "same_field f g \<longleftrightarrow> ie_id (ftype f) = ie_id (ftype g) \<and> enterprise (ftype f) = enterprise (ftype g)
     \<and> isVariableLength f = isVariableLength g \<and> (\<not> isVariableLength g \<longrightarrow> flen f = flen g)"

lemma var_fields_safe: "eos \<le> length m \<Longrightarrow> safe (var_fields m eos rec rl fs)"
  by (induction fs arbitrary: rl) (auto intro!: safe_bindI field_length_safe split: option.split)

lemma var_fields_post:
  "var_fields m eos rec rl fs = Inr (Some (fs', rl')) \<Longrightarrow>
     rl \<le> rl' \<and> list_all2 same_field fs' fs \<and>
     ((\<exists>f \<in> set fs. isVariableLength f \<or> flen f \<noteq> 0) \<longrightarrow> rl < rl') \<and>
     (rl' < 2 ^ 32 \<longrightarrow> (\<forall>f \<in> set fs'. in_record rl rl' f))"
proof (induction fs arbitrary: rl fs')
  case Nil
  then show ?case by simp
next
  case (Cons f fs)
  from Cons.prems obtain fl rl1 fs1 where fl: "field_length m eos rec rl f = Inr (Some (fl, rl1))"
    and rest: "var_fields m eos rec (rl1 + fl) fs = Inr (Some (fs1, rl'))"
    and fs': "fs' = f\<lparr>ftype := (ftype f)\<lparr>ie_length := of_nat fl\<rparr>, offset := of_nat rl1\<rparr> # fs1"
    by (auto elim!: res_bind_InrE split: option.splits)
  note IH = Cons.IH [OF rest] and len = field_length_post [OF fl]
  have "\<not> isVariableLength f \<Longrightarrow> of_nat fl = flen f"
    using fl by (auto simp: field_length_def)
  then have "same_field (f\<lparr>ftype := (ftype f)\<lparr>ie_length := of_nat fl\<rparr>, offset := of_nat rl1\<rparr>) f"
    by (simp add: same_field_def)
  moreover have "rl' < 2 ^ 32 \<Longrightarrow>
      in_record rl rl' (f\<lparr>ftype := (ftype f)\<lparr>ie_length := of_nat fl\<rparr>, offset := of_nat rl1\<rparr>)"
    using IH len by (simp add: in_record_def unat_of_nat_u16 unat_of_nat_u32)
  ultimately show ?case
    using IH len by (auto simp: fs' in_record_def)
qed

lemma var_record_safe: "eos \<le> length m \<Longrightarrow> safe (var_record m eos ti rec)"
  unfolding var_record_def by (auto intro!: safe_bindI var_fields_safe split: option.split)

text \<open>
  A Data Record delivered with template \<open>ti'\<close>, length \<open>rl\<close> and start \<open>r\<close>, for
  the buffered template \<open>ti\<close>, lies in the bytes from \<open>lo\<close> to \<open>hi\<close> of the message.
\<close>

definition var_record_ok :: "template_info \<Rightarrow> nat \<Rightarrow> nat \<Rightarrow> template_info \<times> nat \<times> nat \<Rightarrow> bool" where
  "var_record_ok ti lo hi = (\<lambda>(ti', rl, r). lo \<le> r \<and> r + rl \<le> hi \<and>
     list_all2 same_field (ti_fields ti') (ti_fields ti) \<and>
     templateId ti' = templateId ti \<and> setId ti' = setId ti \<and>
     length (scopeInfo ti') = length (scopeInfo ti) \<and>
     (hi < 2 ^ 32 \<longrightarrow> (\<forall>f \<in> set (ti_fields ti'). in_record 0 rl f)))"

lemma var_record_post:
  assumes "var_record m eos ti rec = Inr (Some (ti', rl))"
  shows "var_record_ok ti rec eos (ti', rl, rec) \<and>
    ((\<exists>f \<in> set (ti_fields ti). isVariableLength f \<or> flen f \<noteq> 0) \<longrightarrow> 0 < rl)"
proof -
  from assms obtain ss rl1 fs where ss: "var_fields m eos rec 0 (scopeInfo ti) = Inr (Some (ss, rl1))"
    and fs: "var_fields m eos rec rl1 (fieldInfo ti) = Inr (Some (fs, rl))"
    and rl: "rec + rl \<le> eos" and ti': "ti' = ti\<lparr>scopeInfo := ss, fieldInfo := fs\<rparr>"
    by (auto simp: var_record_def elim!: res_bind_InrE split: option.splits if_splits)
  note 1 = var_fields_post [OF ss] and 2 = var_fields_post [OF fs]
  have "in_record 0 rl f" if "eos < 2 ^ 32" "f \<in> set ss \<union> set fs" for f
    using 1 2 rl that by (auto simp: in_record_def)
  then show ?thesis
    using 1 2 rl by (auto simp: var_record_ok_def ti' ti_fields_def list_all2_appendI
        dest: list_all2_lengthD)
qed

lemma var_record_ok_mono:
  "var_record_ok ti lo hi x \<Longrightarrow> lo' \<le> lo \<Longrightarrow> var_record_ok ti lo' hi x"
  by (auto simp: var_record_ok_def)

lemma var_records_ends:
  assumes "eos \<le> length m" and "\<exists>f \<in> set (ti_fields ti). isVariableLength f \<or> flen f \<noteq> 0"
  shows "\<exists>rs. var_records m eos ti rec acc = Some (Inr (acc @ rs)) \<and>
    (\<forall>x \<in> set rs. var_record_ok ti rec eos x)"
proof (induction "eos - rec" arbitrary: rec acc rule: less_induct)
  case less
  show ?case
  proof (cases "rec < eos")
    case False
    then show ?thesis by (subst var_records.simps) auto
  next
    case True
    obtain x where x: "var_record m eos ti rec = Inr x"
      using var_record_safe [OF assms(1)] by (auto simp: safe_def)
    show ?thesis
    proof (cases x)
      case None
      then show ?thesis using True x by (subst var_records.simps) auto
    next
      case (Some p)
      then obtain ti' rl where p: "var_record m eos ti rec = Inr (Some (ti', rl))"
        using x by (cases p) auto
      note post = var_record_post [OF p]
      obtain rs where rs: "var_records m eos ti (rec + rl) (acc @ [(ti', rl, rec)]) =
          Some (Inr ((acc @ [(ti', rl, rec)]) @ rs))"
          "\<forall>x \<in> set rs. var_record_ok ti (rec + rl) eos x"
        using less [of "rec + rl" "acc @ [(ti', rl, rec)]"] post assms(2) True by fastforce
      then have "var_records m eos ti rec acc = Some (Inr (acc @ (ti', rl, rec) # rs))"
        using True p by (subst var_records.simps) simp
      with rs(2) post show ?thesis
        by (intro exI [of _ "(ti', rl, rec) # rs"]) (auto intro: var_record_ok_mono)
    qed
  qed
qed

text \<open>The lengths of the fields add up to less than the 16-bit counter holds.\<close>

definition no_wrap :: "template_info \<Rightarrow> bool" where
  "no_wrap ti \<longleftrightarrow> sum_list (map (\<lambda>f. unat (flen f)) (ti_fields ti)) < 65536"

definition record_ok :: "template_info \<Rightarrow> nat \<Rightarrow> nat \<Rightarrow> template_info \<times> nat \<times> nat \<Rightarrow> bool" where
  "record_ok ti lo hi = (\<lambda>(ti', rl, r). lo \<le> r \<and> r + rl \<le> hi \<and>
     list_all2 same_field (ti_fields ti') (ti_fields ti) \<and>
     templateId ti' = templateId ti \<and> setId ti' = setId ti \<and>
     (hi < 2 ^ 32 \<and> no_wrap ti' \<longrightarrow> (\<forall>f \<in> set (ti_fields ti'). in_record 0 rl f)))"

lemma unat_add_u16: "unat (a :: u16) + unat b < 65536 \<Longrightarrow> unat (a + b) = unat a + unat b"
  by (simp add: unat_word_ariths)

lemma unat_sum_list_u16:
  "sum_list (map (\<lambda>f. unat (g f)) fs) < 65536 \<Longrightarrow>
     unat (sum_list (map g fs) :: u16) = sum_list (map (\<lambda>f. unat (g f)) fs)"
  by (induction fs) (simp_all add: unat_add_u16)

lemma fields_at_in_record:
  "fields_at r fs \<Longrightarrow> unat r + sum_list (map (\<lambda>f. unat (flen f)) fs) < 65536 \<Longrightarrow> f \<in> set fs \<Longrightarrow>
     in_record (unat r) (unat r + sum_list (map (\<lambda>f. unat (flen f)) fs)) f"
proof (induction fs arbitrary: r)
  case Nil
  then show ?case by simp
next
  case (Cons g fs)
  have u: "unat (r + flen g) = unat r + unat (flen g)"
    using Cons.prems(2) by (intro unat_add_u16) simp
  show ?case
  proof (cases "f = g")
    case True
    have "unat (ucast r :: u32) = unat r"
      using u16_lt [of r] by (simp add: unsigned_ucast_eq take_bit_nat_eq_self)
    then show ?thesis using True Cons.prems(1) by (simp add: in_record_def)
  next
    case False
    with Cons.prems u Cons.IH [of "r + flen g"] show ?thesis
      by (simp add: in_record_def add.assoc)
  qed
qed

lemma list_all2_same_field_refl: "list_all2 same_field fs fs"
  by (simp add: list.rel_refl_strong same_field_def)

lemma data_records_fixed:
  assumes "recordLength b \<noteq> 0" and "recordLength b < 65535" and "rec \<le> eos"
  shows "data_records b m rec eos = Inr (map (\<lambda>i. (templateInfo b, unat (recordLength b),
      rec + i * unat (recordLength b))) [0..<(eos - rec) div unat (recordLength b)])"
proof -
  have pos: "0 < unat (recordLength b)" using assms(1) by (simp add: unat_gt_0)
  have none: "eos < rec + unat (recordLength b) \<Longrightarrow> (eos - rec) div unat (recordLength b) = 0"
    using assms(3) by simp
  from fixed_records_ends [OF pos assms(3)] assms(2) none show ?thesis
    by (auto simp: data_records_def Let_def comp_def)
qed

lemma data_records_zero:
  "recordLength b = 0 \<Longrightarrow> data_records b m rec eos = (if rec \<le> eos then Inl Diverges else Inr [])"
  by (simp add: data_records_def Let_def fixed_records_0)

lemma div_record_bound: "i < (eos - rec) div k \<Longrightarrow> rec + i * k + k \<le> eos" for i eos rec k :: nat
proof -
  assume "i < (eos - rec) div k"
  then have "Suc i * k \<le> (eos - rec) div k * k" by (intro mult_right_mono) auto
  also have "\<dots> \<le> eos - rec" by simp
  finally show ?thesis using \<open>i < (eos - rec) div k\<close> by (cases "rec \<le> eos") auto
qed

lemma data_records_outcome:
  assumes "bt_wf b" and "eos \<le> length m" and "recordLength b = 0 \<Longrightarrow> E Diverges"
  shows "outcome E (\<lambda>rs. \<forall>x \<in> set rs. record_ok (templateInfo b) rec eos x) (data_records b m rec eos)"
proof (cases "recordLength b < 65535")
  case True
  let ?ti = "templateInfo b"
  have nv: "\<not> varying ?ti" using True assms(1) by (auto simp: bt_wf_def)
  have fits: "in_record 0 (unat (recordLength b)) f" if "no_wrap ?ti" "f \<in> set (ti_fields ?ti)" for f
    using nv assms(1) that fields_at_in_record [of 0 "ti_fields ?ti" f]
    by (simp add: bt_wf_def no_wrap_def unat_sum_list_u16)
  show ?thesis
  proof (cases "recordLength b = 0 \<or> eos < rec")
    case False
    with True fits show ?thesis
      by (auto simp: data_records_fixed record_ok_def list_all2_same_field_refl div_record_bound)
  next
    case True
    then show ?thesis
      using assms(3) \<open>recordLength b < 65535\<close>
      by (auto simp: data_records_zero) (simp add: data_records_def Let_def)
  qed
next
  case False
  then have 65535: "recordLength b = 65535"
    using u16_lt [of "recordLength b"]
    by (intro order.antisym) (simp_all add: word_le_nat_alt not_less)
  have "\<exists>f \<in> set (ti_fields (templateInfo b)). isVariableLength f \<or> flen f \<noteq> 0"
  proof (rule ccontr)
    assume "\<not> ?thesis"
    then have "\<not> varying (templateInfo b)" "sum_list (map flen (ti_fields (templateInfo b))) = 0"
      by (auto simp: varying_def sum_list_0 cong: map_cong)
    with assms(1) 65535 show False by (simp add: bt_wf_def)
  qed
  from var_records_ends [OF assms(2) this, of rec "[]"] obtain rs
    where rs: "var_records m eos (templateInfo b) rec [] = Some (Inr rs)"
      and ok: "\<forall>x \<in> set rs. var_record_ok (templateInfo b) rec eos x"
    by auto
  have "\<forall>x \<in> set rs. record_ok (templateInfo b) rec eos x"
    using ok by (auto simp: var_record_ok_def record_ok_def)
  with rs False show ?thesis
    by (simp add: data_records_def Let_def)
qed

section \<open>The invariant of the parser\<close>

definition parser_inv :: "parser \<Rightarrow> bool" where
  "parser_inv ps \<longleftrightarrow> tb_inv (templateBuffer ps) \<and> (\<forall>b \<in> set (templateBuffer ps). bt_wf b) \<and>
     std_inv sid_less (snInfoMap ps)"

text \<open>
  What the following modules may rely on for a record they receive while message
  \<open>m\<close>, of which \<open>n\<close> bytes were received, is processed for source \<open>sid\<close>.
\<close>

fun sent_ok :: "source_id \<Rightarrow> bytes \<Rightarrow> nat \<Rightarrow> ipfix_record \<Rightarrow> bool" where
  "sent_ok sid m n (DataRecord sid' ti dl m' r) =
     (sid' = sid \<and> m' = m \<and> r + dl \<le> n \<and>
      (no_wrap ti \<longrightarrow> (\<forall>f \<in> set (ti_fields ti). in_record 0 dl f)))"
| "sent_ok sid m n (TemplateRecord sid' ti) = (sid' = sid \<and> ti_wf ti)"
| "sent_ok sid m n (TemplateDestructionRecord sid' ti) = ti_wf ti"

fun is_data :: "ipfix_record \<Rightarrow> bool" where
  "is_data (DataRecord sid ti dl m r) = True"
| "is_data (TemplateRecord sid ti) = False"
| "is_data (TemplateDestructionRecord sid ti) = False"

text \<open>
  A step of the parser that pushes \<open>d\<close> data records: it keeps the invariant, only
  appends acceptable records, and leaves the statistics alone.
\<close>

definition parser_step :: "source_id \<Rightarrow> bytes \<Rightarrow> nat \<Rightarrow> nat \<Rightarrow> parser \<Rightarrow> parser \<Rightarrow> bool" where
  "parser_step sid m n d ps ps' \<longleftrightarrow> parser_inv ps' \<and> snInfoMap ps' = snInfoMap ps \<and>
     templateLifetime ps' = templateLifetime ps \<and>
     statTotalMessages ps' = statTotalMessages ps \<and>
     statTotalDataRecords ps' = statTotalDataRecords ps \<and>
     statTotalTemplateRecords ps' = statTotalTemplateRecords ps \<and>
     (\<exists>rs. sent ps' = sent ps @ rs \<and> (\<forall>r \<in> set rs. sent_ok sid m n r) \<and>
           length (filter is_data rs) = d)"

lemma parser_step_refl: "parser_inv ps \<Longrightarrow> parser_step sid m n 0 ps ps"
  by (simp add: parser_step_def)

lemma parser_step_trans:
  "parser_step sid m n d ps ps1 \<Longrightarrow> parser_step sid m n d' ps1 ps2 \<Longrightarrow>
     parser_step sid m n (d + d') ps ps2"
proof -
  assume 1: "parser_step sid m n d ps ps1" and 2: "parser_step sid m n d' ps1 ps2"
  then obtain rs1 rs2 where "sent ps1 = sent ps @ rs1" "sent ps2 = sent ps1 @ rs2"
      "\<forall>r \<in> set rs1. sent_ok sid m n r" "\<forall>r \<in> set rs2. sent_ok sid m n r"
      "length (filter is_data rs1) = d" "length (filter is_data rs2) = d'"
    unfolding parser_step_def by blast
  then have "\<exists>rs. sent ps2 = sent ps @ rs \<and> (\<forall>r \<in> set rs. sent_ok sid m n r) \<and>
      length (filter is_data rs) = d + d'"
    by (intro exI [of _ "rs1 @ rs2"]) auto
  with 1 2 show ?thesis unfolding parser_step_def by simp
qed

lemma onPreDestroy_sent_ok: "bt_wf b \<Longrightarrow> sent_ok sid m n (onPreDestroy b) \<and> \<not> is_data (onPreDestroy b)"
  by (simp add: onPreDestroy_def bt_wf_def)

lemma parser_stepI:
  assumes "parser_inv ps'" and "sent ps' = sent ps @ rs" and "\<And>r. r \<in> set rs \<Longrightarrow> sent_ok sid m n r"
    and "length (filter is_data rs) = d"
    and "snInfoMap ps' = snInfoMap ps" "templateLifetime ps' = templateLifetime ps"
      "statTotalMessages ps' = statTotalMessages ps"
      "statTotalDataRecords ps' = statTotalDataRecords ps"
      "statTotalTemplateRecords ps' = statTotalTemplateRecords ps"
  shows "parser_step sid m n d ps ps'"
  using assms unfolding parser_step_def by blast

lemma destroyed_ok:
  assumes "\<forall>b \<in> set bts. bt_wf b"
  shows "r \<in> set (map onPreDestroy (filter P bts)) \<Longrightarrow> sent_ok sid m n r"
    and "filter is_data (map onPreDestroy (filter P bts)) = []"
  using assms onPreDestroy_sent_ok by (auto simp: filter_empty_conv)

lemma withdraw_step:
  assumes "parser_inv ps"
  shows "parser_step sid m n 0 ps (withdraw_template sid' tid all ps)"
proof -
  have wf: "\<forall>b \<in> set (templateBuffer ps). bt_wf b"
    using assms by (simp add: parser_inv_def)
  have "tb_inv (filter (\<lambda>b. \<not> destroys sid' tid all b) (templateBuffer ps))"
    using assms tb_inv_unlink [of "templateBuffer ps" "destroys sid' tid all"]
    by (simp add: parser_inv_def unlink_where_filter)
  then have "parser_inv (withdraw_template sid' tid all ps)"
    using assms by (simp add: parser_inv_def withdraw_template_def tb_defs)
  then show ?thesis
    by (rule parser_stepI [where rs = "map onPreDestroy (filter (destroys sid' tid all) (templateBuffer ps))"])
      (use destroyed_ok [OF wf, where P = "destroys sid' tid all"] in \<open>simp_all add: withdraw_template_def tb_defs\<close>)
qed

lemma bt_wf_expires [simp]: "bt_wf (b\<lparr>expires := e\<rparr>) = bt_wf b"
  by (simp add: bt_wf_def)

lemma store_step:
  assumes inv: "parser_inv ps"
    and wf: "bt_wf \<lparr>sourceID = sid, templateInfo = ti, recordLength = rl, expires = 0\<rparr>"
  shows "parser_step sid m n 0 ps (store_template env sid ti rl ps)"
proof -
  let ?b = "\<lparr>sourceID = sid, templateInfo = ti, recordLength = rl, expires = 0\<rparr>"
  let ?P = "isExpired (time_now env)" and ?Q = "destroys sid (templateId ti) False"
  let ?live = "filter (\<lambda>b. \<not> ?P b) (templateBuffer ps)"
  let ?d1 = "map onPreDestroy (filter ?P (templateBuffer ps))" and ?d2 = "map onPreDestroy (filter ?Q ?live)"
  have wfs: "\<forall>b \<in> set (templateBuffer ps). bt_wf b" "\<forall>b \<in> set ?live. bt_wf b"
    using inv by (simp_all add: parser_inv_def)
  have buf: "tb_inv (?b # filter (\<lambda>b. \<not> ?Q b) ?live)"
    using tb_inv_bufferTemplate [of "templateBuffer ps" "time_now env" ?b] inv
    by (simp add: parser_inv_def tb_defs)
  have "parser_inv (store_template env sid ti rl ps)"
    using buf wfs wf inv bt_wf_expires [where b = ?b]
    by (auto simp: parser_inv_def store_template_def tb_defs tb_inv_def same_key_def)
  moreover have "sent_ok sid m n (TemplateRecord sid ti)"
    using wf by (simp add: bt_wf_def)
  ultimately show ?thesis
    by (intro parser_stepI [where rs = "?d1 @ ?d2 @ [TemplateRecord sid ti]"])
      (use destroyed_ok [OF wfs(1), where P = ?P] destroyed_ok [OF wfs(2), where P = ?Q]
       in \<open>auto simp: store_template_def tb_defs\<close>)
qed

lemma parser_step_then:
  assumes "parser_step sid m n 0 ps ps1"
    and "parser_inv ps1 \<Longrightarrow> outcome E (\<lambda>(c, ps'). parser_step sid m n d ps1 ps') r"
  shows "outcome E (\<lambda>(c, ps'). parser_step sid m n d ps ps') r"
proof -
  have "parser_inv ps1" using assms(1) by (simp add: parser_step_def)
  from assms(2) [OF this] show ?thesis
    by (rule outcome_mono) (use parser_step_trans [OF assms(1)] in auto)
qed

lemma template_loop_outcome:
  assumes "endOfSet \<le> n" and "n \<le> length m" and "parser_inv ps"
  shows "outcome (\<lambda>_. False) (\<lambda>(c, ps'). parser_step sid m n 0 ps ps')
    (template_loop env sid si m endOfSet rec cnt ps)"
  using assms
proof (induction env sid si m endOfSet rec cnt ps rule: template_loop.induct)
  case (1 env sid si m endOfSet rec cnt ps)
  show ?case
  proof (cases "rec + 4 \<le> endOfSet")
    case False
    then show ?thesis
      using "1.prems" by (subst template_loop.simps) (simp add: parser_step_refl)
  next
    case True
    then obtain tid fc where rd: "rd16 m rec = Inr tid" "rd16 m (rec + 2) = Inr fc"
      using "1.prems" by (simp add: rd16_def)
    show ?thesis
    proof (cases "fc = 0")
      case z: True
      have "outcome (\<lambda>_. False) (\<lambda>(c, ps'). parser_step sid m n 0 ps ps')
          (template_loop env sid si m endOfSet (rec + 4) (cnt + 1) (withdraw_template sid tid False ps))"
        using "1.IH"(1) [OF True rd z] "1.prems"
        by (intro parser_step_then [OF withdraw_step])
      then show ?thesis
        using True rd z by (subst template_loop.simps) simp
    next
      case nz: False
      have "endOfSet \<le> length m" using "1.prems" by simp
      then obtain r where r: "template_fields (si = IpfixTemplate) m endOfSet (unat fc) (rec + 4) 0 False = Inr r"
        using template_fields_safe by (metis safe_def)
      show ?thesis
      proof (cases r)
        case None
        then show ?thesis
          using True rd nz r "1.prems" by (subst template_loop.simps) (simp add: parser_step_refl)
      next
        case (Some x)
        then obtain fs rec' rl v where x: "r = Some (fs, rec', rl, v)" by (cases x) auto
        let ?ti = "\<lparr>templateId = tid, setId = si, fieldCount = fc,
          fieldInfo = (if v then map unknown_offset fs else fs), scopeCount = 0, scopeInfo = []\<rparr>"
        have "bt_wf \<lparr>sourceID = sid, templateInfo = ?ti, recordLength = (if v then 65535 else rl), expires = 0\<rparr>"
          using r x by (intro bt_wf_parsed_template template_fields_post) simp
        then have "outcome (\<lambda>_. False) (\<lambda>(c, ps'). parser_step sid m n 0 ps ps')
          (template_loop env sid si m endOfSet rec' (cnt + 1)
             (store_template env sid ?ti (if v then 65535 else rl) ps))"
          using "1.IH"(2) [OF True rd nz r x refl refl refl] "1.prems"
          by (intro parser_step_then [OF store_step])
        then show ?thesis
          using True rd nz r x by (subst template_loop.simps) simp
      qed
    qed
  qed
qed

lemma options_loop_outcome:
  assumes "endOfSet \<le> n" and "n \<le> length m" and "parser_inv ps" and "E HeapOverflow"
  shows "outcome E (\<lambda>(c, ps'). parser_step sid m n 0 ps ps')
    (options_loop env mem sid si m endOfSet rec cnt ps)"
  using assms
proof (induction env mem sid si m endOfSet rec cnt ps rule: options_loop.induct)
  case (1 env mem sid si m endOfSet rec cnt ps)
  let ?ipfix = "si = IpfixOptionsTemplate"
  have stay: "parser_step sid m n 0 ps ps" using "1.prems" by (simp add: parser_step_refl)
  show ?case
  proof (cases "rec + 4 \<le> endOfSet")
    case False
    then show ?thesis
      using stay by (subst options_loop.simps) simp
  next
    case True
    then obtain tid fc where rd: "rd16 m rec = Inr tid" "rd16 m (rec + 2) = Inr fc"
      using "1.prems" by (simp add: rd16_def)
    show ?thesis
    proof (cases "fc = 0")
      case z: True
      have "outcome E (\<lambda>(c, ps'). parser_step sid m n 0 ps ps')
          (options_loop env mem sid si m endOfSet (rec + 4) (cnt + 1) (withdraw_template sid tid False ps))"
        using "1.IH"(1) [OF True rd z] "1.prems"
        by (intro parser_step_then [OF withdraw_step])
      then show ?thesis
        using True rd z by (subst options_loop.simps) simp
    next
      case nz: False
      show ?thesis
      proof (cases "rec + 6 > endOfSet")
        case True
        then show ?thesis
          using \<open>rec + 4 \<le> endOfSet\<close> rd nz stay by (subst options_loop.simps) simp
      next
        case six: False
        then obtain sc where sc: "rd16 m (rec + 4) = Inr sc"
          using "1.prems" by (simp add: rd16_def)
        obtain scopes fields where cnts: "options_counts si fc sc = (scopes, fields)" by fastforce
        let ?rest = "\<lambda>sfs rec1 rl1 v1. res_bind (template_fields ?ipfix m endOfSet (unat fields) rec1 rl1 v1)
          (\<lambda>r2. case r2 of None \<Rightarrow> Inr (cnt, ps) | Some (fs, rec', rl, v) \<Rightarrow>
            options_loop env mem sid si m endOfSet rec' (cnt + 1)
              (store_template env sid
                 \<lparr>templateId = tid, setId = si, fieldCount = fields,
                  fieldInfo = (if v then map unknown_offset fs else fs), scopeCount = scopes,
                  scopeInfo = (if v then map unknown_offset sfs else sfs)\<rparr>
                 (if v then 65535 else rl) ps))"
        have rest: "outcome E (\<lambda>(c, ps'). parser_step sid m n 0 ps ps') (?rest sfs rec1 rl1 v1)"
          if s: "scope_fields ?ipfix mem (unat fields) m endOfSet (unat scopes) 0 (rec + 6) 0 False =
            Inr (Some (sfs, rec1, rl1, v1))" for sfs rec1 rl1 v1
        proof -
          have "endOfSet \<le> length m" using "1.prems" by simp
          then obtain r where r: "template_fields ?ipfix m endOfSet (unat fields) rec1 rl1 v1 = Inr r"
            using template_fields_safe by (metis safe_def)
          show ?thesis
          proof (cases r)
            case None
            then show ?thesis using r stay by simp
          next
            case (Some x)
            then obtain fs rec' rl v where x: "r = Some (fs, rec', rl, v)" by (cases x) auto
            have "bt_wf \<lparr>sourceID = sid, templateInfo = \<lparr>templateId = tid, setId = si, fieldCount = fields,
                  fieldInfo = (if v then map unknown_offset fs else fs), scopeCount = scopes,
                  scopeInfo = (if v then map unknown_offset sfs else sfs)\<rparr>,
                recordLength = (if v then 65535 else rl), expires = 0\<rparr>"
              using r x by (intro bt_wf_parsed [OF scope_fields_post [OF s]] template_fields_post) simp
            from parser_step_then [OF store_step [OF "1.prems"(3) this]
                "1.IH"(2) [OF True rd nz six sc refl cnts [symmetric] refl s refl refl refl refl r x
                  refl refl refl "1.prems"(1,2) _ "1.prems"(4)]]
            show ?thesis using r x by simp
          qed
        qed
        let ?s = "scope_fields ?ipfix mem (unat fields) m endOfSet (unat scopes) 0 (rec + 6) 0 False"
        have s: "outcome E (\<lambda>_. True) ?s"
          using "1.prems" by (intro scope_fields_outcome) auto
        note step = True rd nz six sc cnts
        consider e where "?s = Inl e" | "?s = Inr None"
          | sfs rec1 rl1 v1 where "?s = Inr (Some (sfs, rec1, rl1, v1))"
          by (cases ?s) (auto, metis option.exhaust prod_cases4)
        then show ?thesis
        proof cases
          case 1
          then show ?thesis using s step by (subst options_loop.simps) (simp add: Let_def)
        next
          case 2
          then show ?thesis using stay step by (subst options_loop.simps) (simp add: Let_def)
        next
          case 3
          then show ?thesis using rest [OF 3] step
            by (subst options_loop.simps) (simp add: Let_def cong: option.case_cong)
        qed
      qed
    qed
  qed
qed

lemma processTemplateSet_outcome:
  assumes "st + 4 \<le> n" and "n \<le> length m" and "parser_inv ps"
  shows "outcome (\<lambda>_. False) (\<lambda>(c, ps'). parser_step sid m n 0 ps ps') (processTemplateSet env sid si m st n ps)"
  unfolding processTemplateSet_def outcome_bind Let_def
  using assms by (intro outcome_rd16) (auto simp: parser_step_refl template_loop_outcome)

lemma processOptionsTemplateSet_outcome:
  assumes "st + 4 \<le> n" and "n \<le> length m" and "parser_inv ps" and "E HeapOverflow"
  shows "outcome E (\<lambda>(c, ps'). parser_step sid m n 0 ps ps') (processOptionsTemplateSet env mem sid si m st n ps)"
  unfolding processOptionsTemplateSet_def outcome_bind Let_def
  using assms by (intro outcome_rd16) (auto simp: parser_step_refl options_loop_outcome)

text \<open>The search in the template buffer; it drops expired templates only.\<close>

lemma getBufferedTemplate_step:
  assumes inv: "parser_inv ps" and "getBufferedTemplate now sid' tid (templateBuffer ps) = (found, bts, destroyed)"
  shows "parser_step sid m n 0 ps (ps\<lparr>templateBuffer := bts, sent := sent ps @ destroyed\<rparr>)"
    and "found = Some b \<Longrightarrow> b \<in> set (templateBuffer ps) \<and> bt_wf b"
proof -
  have wf: "\<forall>b \<in> set (templateBuffer ps). bt_wf b" using inv by (simp add: parser_inv_def)
  consider "bts = templateBuffer ps" "destroyed = []"
    | "bts = filter (\<lambda>b. \<not> isExpired now b) (templateBuffer ps)"
      "destroyed = map onPreDestroy (filter (isExpired now) (templateBuffer ps))"
    using assms(2) by (auto simp: getBufferedTemplate_def tb_defs split: option.splits if_splits)
  then show "parser_step sid m n 0 ps (ps\<lparr>templateBuffer := bts, sent := sent ps @ destroyed\<rparr>)"
  proof cases
    case 1
    then show ?thesis using inv by (simp add: parser_step_refl)
  next
    case 2
    have "tb_inv bts"
      using inv tb_inv_unlink [of "templateBuffer ps" "isExpired now"]
      by (simp add: parser_inv_def unlink_where_filter 2)
    then show ?thesis
      by (intro parser_stepI [where rs = destroyed])
        (use wf inv destroyed_ok [OF wf, where P = "isExpired now"] in
          \<open>simp_all add: parser_inv_def 2\<close>)
  qed
  show "found = Some b \<Longrightarrow> b \<in> set (templateBuffer ps) \<and> bt_wf b"
    using assms(2) wf by (auto simp: getBufferedTemplate_def Let_def dest: search_template_Some
        split: option.splits if_splits prod.splits)
qed

end
