(* ===== verification/Parser_Messages.thy ===== *)
theory Parser_Messages
  imports Parser_Safety
begin

text \<open>
  Whole messages: the invariant and the memory safety of the parser carried from the sets
  to \<open>processPacket\<close>, when the parser returns, what it does with each kind of set, and
  its loss accounting.
\<close>

section \<open>From sets to messages\<close>

lemma processDataSet_outcome:
  assumes "st + 4 \<le> n" and "n \<le> length m" and "n < 2 ^ 32" and "parser_inv ps" and "E Diverges"
  shows "outcome E (\<lambda>(c, ps'). parser_step sid m n c ps ps') (processDataSet env sid m st n ps)"
proof -
  obtain tid l where rd: "rd16 m st = Inr tid" "rd16 m (st + 2) = Inr l"
    using assms(1,2) by (simp add: rd16_def)
  obtain found bts destroyed where
    g: "getBufferedTemplate (time_now env) sid tid (templateBuffer ps) = (found, bts, destroyed)"
    by (metis prod_cases3)
  let ?ps1 = "ps\<lparr>templateBuffer := bts, sent := sent ps @ destroyed\<rparr>"
  have step1: "parser_step sid m n 0 ps ?ps1" by (rule getBufferedTemplate_step [OF assms(4) g])
  show ?thesis
  proof (cases found)
    case None
    then show ?thesis using rd g step1 by (simp add: processDataSet_def)
  next
    case (Some b)
    let ?eos = "st + unat l"
    have wf: "bt_wf b" using getBufferedTemplate_step(2) [OF assms(4) g Some] by simp
    have step2: "parser_step sid m n (length rs) ps
        (?ps1\<lparr>sent := sent ?ps1 @ map (\<lambda>(ti, rl, r). DataRecord sid ti rl m r) rs\<rparr>)"
      if rs: "\<forall>x \<in> set rs. record_ok (templateInfo b) (st + 4) ?eos x" and "?eos \<le> n" for rs
    proof -
      have "filter is_data (map (\<lambda>(ti, rl, r). DataRecord sid ti rl m r) rs) =
          map (\<lambda>(ti, rl, r). DataRecord sid ti rl m r) rs"
        by (induction rs) auto
      moreover have "sent_ok sid m n x" if "x \<in> set (map (\<lambda>(ti, rl, r). DataRecord sid ti rl m r) rs)" for x
        using rs that \<open>?eos \<le> n\<close> assms(3) by (fastforce simp: record_ok_def)
      moreover have "parser_inv (?ps1\<lparr>sent := sent ?ps1 @ map (\<lambda>(ti, rl, r). DataRecord sid ti rl m r) rs\<rparr>)"
        using step1 by (simp add: parser_step_def parser_inv_def)
      ultimately have "parser_step sid m n (length rs) ?ps1
          (?ps1\<lparr>sent := sent ?ps1 @ map (\<lambda>(ti, rl, r). DataRecord sid ti rl m r) rs\<rparr>)"
        by (intro parser_stepI [where rs = "map (\<lambda>(ti, rl, r). DataRecord sid ti rl m r) rs"]) simp_all
      from parser_step_trans [OF step1 this] show ?thesis by simp
    qed
    have "outcome E (\<lambda>(c, ps'). parser_step sid m n c ps ps')
        (res_bind (data_records b m (st + 4) ?eos) (\<lambda>rs. Inr (length rs,
          ?ps1\<lparr>sent := sent ?ps1 @ map (\<lambda>(ti, rl, r). DataRecord sid ti rl m r) rs\<rparr>)))"
      if "?eos \<le> n"
      unfolding outcome_bind
      by (rule outcome_mono [OF data_records_outcome [OF wf, where E = E]])
        (use assms that step2 in auto)
    then show ?thesis using rd g step1 Some by (simp add: processDataSet_def Let_def)
  qed
qed

lemma ipfix_set_outcome:
  assumes "st + 4 \<le> n" and "n \<le> length m" and "n < 2 ^ 32" and "parser_inv ps"
    and "E Diverges" and "E HeapOverflow"
  shows "outcome E (\<lambda>(d, t, ps'). parser_step sid m n d ps ps') (ipfix_set env mem sid m n st tmpid ps)"
proof -
  note T = processTemplateSet_outcome [OF assms(1,2,4)]
    and O = processOptionsTemplateSet_outcome [where E = E, OF assms(1,2,4,6)]
    and D = processDataSet_outcome [where E = E, OF assms(1-5)]
  show ?thesis
    unfolding ipfix_set_def
    by (auto simp: outcome_bind parser_step_refl assms(4) intro: outcome_mono [OF T] outcome_mono [OF O]
        outcome_mono [OF D])
qed

lemma netflow_set_outcome:
  assumes "st + 4 \<le> n" and "n \<le> length m" and "n < 2 ^ 32" and "parser_inv ps"
    and "E Diverges" and "E HeapOverflow"
  shows "outcome E (\<lambda>(d, t, ps'). parser_step sid m n d ps ps') (netflow_set env mem sid m n st tmpid ps)"
proof -
  note T = processTemplateSet_outcome [OF assms(1,2,4)]
    and O = processOptionsTemplateSet_outcome [where E = E, OF assms(1,2,4,6)]
    and D = processDataSet_outcome [where E = E, OF assms(1-5)]
  show ?thesis
    unfolding netflow_set_def
    by (auto simp: outcome_bind parser_step_refl assms(4) intro: outcome_mono [OF T] outcome_mono [OF O]
        outcome_mono [OF D])
qed

text \<open>One turn of a message loop: a set, then the rest of the message.\<close>

definition sets_post :: "source_id \<Rightarrow> bytes \<Rightarrow> nat \<Rightarrow> u16 \<Rightarrow> parser \<Rightarrow> (u16 \<times> u16) option \<times> parser \<Rightarrow> bool" where
  "sets_post sid m n nd ps = (\<lambda>(r, ps'). \<exists>d. parser_step sid m n d ps ps' \<and>
     (\<forall>nd' nt'. r = Some (nd', nt') \<longrightarrow> nd' = nd + of_nat d))"

lemma sets_post_trans:
  assumes "parser_step sid m n d ps ps1" and "sets_post sid m n (nd + of_nat d) ps1 x"
  shows "sets_post sid m n nd ps x"
proof -
  obtain r ps' where x: "x = (r, ps')" by (cases x)
  with assms(2) obtain d' where d': "parser_step sid m n d' ps1 ps'"
      "\<forall>nd' nt'. r = Some (nd', nt') \<longrightarrow> nd' = nd + of_nat d + of_nat d'"
    by (auto simp: sets_post_def)
  from parser_step_trans [OF assms(1) d'(1)] d'(2) show ?thesis
    by (auto simp: sets_post_def x add.assoc intro!: exI [of _ "d + d'"])
qed

lemma sets_post_bind:
  assumes "outcome E (\<lambda>(d, t, ps'). parser_step sid m n d ps ps') r"
    and "\<And>d t ps1. r = Inr (d, t, ps1) \<Longrightarrow> parser_inv ps1 \<Longrightarrow>
      outcome E (sets_post sid m n (nd + of_nat d) ps1) (k d t ps1)"
  shows "outcome E (sets_post sid m n nd ps) (res_bind r (\<lambda>(d, t, ps'). k d t ps'))"
proof (cases r)
  case (Inl e)
  then show ?thesis using assms(1) by simp
next
  case (Inr x)
  obtain d t ps1 where x: "x = (d, t, ps1)" by (cases x)
  with Inr assms(1) have s: "parser_step sid m n d ps ps1" by simp
  then have "parser_inv ps1" by (simp add: parser_step_def)
  from assms(2) [OF Inr [unfolded x] this] show ?thesis
    by (simp add: Inr x) (rule outcome_mono, assumption, assumption, erule sets_post_trans [OF s])
qed

lemma sets_post_refl: "parser_inv ps \<Longrightarrow> sets_post sid m n nd ps (None, ps)"
  "parser_inv ps \<Longrightarrow> sets_post sid m n nd ps (Some (nd, nt), ps)"
  by (auto simp: sets_post_def parser_step_refl intro!: exI [of _ 0])

lemma ipfix_sets_outcome:
  assumes "n \<le> length m" and "n < 2 ^ 32" and "parser_inv ps" and "E Diverges" and "E HeapOverflow"
  shows "outcome E (sets_post sid m n nd ps) (ipfix_sets env mem sid m n st nd nt ps)"
  using assms
proof (induction env mem sid m n st nd nt ps rule: ipfix_sets.induct)
  case (1 env mem sid m n st nd nt ps)
  note stay = sets_post_refl [OF "1.prems"(3)]
  show ?case
  proof (cases "st + 4 \<le> n")
    case False
    then show ?thesis using stay by (subst ipfix_sets.simps) auto
  next
    case True
    then obtain l tmpid where rd: "rd16 m (st + 2) = Inr l" "rd16 m st = Inr tmpid"
      using "1.prems" by (simp add: rd16_def)
    have "outcome E (sets_post sid m n nd ps) (res_bind (ipfix_set env mem sid m n st tmpid ps)
        (\<lambda>(d, t, ps'). ipfix_sets env mem sid m n (st + unat l) (nd + of_nat d) (nt + of_nat t) ps'))"
      if l: "\<not> l < 3"
    proof (rule sets_post_bind)
      show "outcome E (\<lambda>(d, t, ps'). parser_step sid m n d ps ps') (ipfix_set env mem sid m n st tmpid ps)"
        using True "1.prems" by (intro ipfix_set_outcome) auto
    qed (use "1.IH" [OF True rd(1) l rd(2) _ refl refl "1.prems"(1,2) _ "1.prems"(4,5)] in blast)
    then show ?thesis
      using True rd stay by (subst ipfix_sets.simps) auto
  qed
qed

lemma netflow_sets_outcome:
  assumes "n \<le> length m" and "n < 2 ^ 32" and "parser_inv ps" and "E Diverges" and "E HeapOverflow"
  shows "outcome E (sets_post sid m n nd ps) (netflow_sets env mem sid m n ex st nd nt ps)"
  using assms
proof (induction env mem sid m n ex st nd nt ps rule: netflow_sets.induct)
  case (1 env mem sid m n ex st nd nt ps)
  note stay = sets_post_refl [OF "1.prems"(3)]
  show ?case
  proof (cases "unat nd + unat nt \<le> unat ex \<and> st + 4 \<le> n")
    case False
    then show ?thesis using stay by (subst netflow_sets.simps) auto
  next
    case True
    then obtain l tmpid where rd: "rd16 m (st + 2) = Inr l" "rd16 m st = Inr tmpid"
      using "1.prems" by (simp add: rd16_def)
    have "outcome E (sets_post sid m n nd ps) (res_bind (netflow_set env mem sid m n st tmpid ps)
        (\<lambda>(d, t, ps'). netflow_sets env mem sid m n ex (st + unat l) (nd + of_nat d) (nt + of_nat t) ps'))"
      if l: "\<not> l < 3"
    proof (rule sets_post_bind)
      show "outcome E (\<lambda>(d, t, ps'). parser_step sid m n d ps ps') (netflow_set env mem sid m n st tmpid ps)"
        using True "1.prems" by (intro netflow_set_outcome) auto
    qed (use "1.IH" [OF True rd(1) l rd(2) _ refl refl "1.prems"(1,2) _ "1.prems"(4,5)] in blast)
    then show ?thesis
      using True rd stay by (subst netflow_sets.simps) auto
  qed
qed

section \<open>Whole messages\<close>

text \<open>
  What a call of \<open>processPacket\<close> that returns \<open>r\<close> leaves behind. The counters of
  a message are 16 bits wide.
\<close>

definition packet_post :: "source_id \<Rightarrow> bytes \<Rightarrow> u16 \<Rightarrow> parser \<Rightarrow> int \<times> parser \<Rightarrow> bool" where
  "packet_post sid m plen ps = (\<lambda>(r, ps'). parser_inv ps' \<and> templateLifetime ps' = templateLifetime ps \<and>
     (\<exists>odid up et rs. sent ps' = sent ps @ rs \<and>
        (\<forall>x \<in> set rs. sent_ok (sid\<lparr>observationDomainId := odid, sysUpTime := up, exportTime := et\<rparr>)
           m (unat plen) x) \<and>
        (r = 0 \<and> plen \<noteq> 0 \<and> statTotalMessages ps' = statTotalMessages ps + 1 \<and>
           statTotalDataRecords ps' = statTotalDataRecords ps +
             ucast (of_nat (length (filter is_data rs)) :: u16)
         \<or> (r = -1 \<or> plen = 0 \<and> r = 0) \<and> statTotalMessages ps' = statTotalMessages ps \<and>
           statTotalDataRecords ps' = statTotalDataRecords ps)))"

lemma account_inv:
  "std_inv sid_less sm \<Longrightarrow> std_inv sid_less (ipfix_account sid seq nd nt sm)"
  "std_inv sid_less sm \<Longrightarrow> std_inv sid_less (netflow_account sid seq nd nt sm)"
  by (auto simp: ipfix_account_def netflow_account_def Let_def sid.inv_assign split: option.split)

lemma packet_post_error: "parser_inv ps \<Longrightarrow> packet_post sid m plen ps (-1, ps)"
  by (auto simp: packet_post_def)

lemma packet_post_bad_set:
  assumes "sets_post (sid\<lparr>observationDomainId := odid, sysUpTime := up, exportTime := et\<rparr>) m (unat plen) 0 ps (None, ps')"
  shows "packet_post sid m plen ps (-1, ps')"
  using assms by (fastforce simp: packet_post_def sets_post_def parser_step_def)

lemma packet_post_done:
  assumes "sets_post (sid\<lparr>observationDomainId := odid, sysUpTime := up, exportTime := et\<rparr>) m (unat plen) 0 ps
      (Some (nd, nt), ps')" and "plen \<noteq> 0" and "std_inv sid_less sm"
  shows "packet_post sid m plen ps (0, update_statistics nd nt (ps'\<lparr>snInfoMap := sm\<rparr>))"
proof -
  obtain d where "parser_step (sid\<lparr>observationDomainId := odid, sysUpTime := up, exportTime := et\<rparr>)
      m (unat plen) d ps ps'" and "nd = of_nat d"
    using assms(1) by (auto simp: sets_post_def)
  with assms(2,3) show ?thesis
    by (fastforce simp: packet_post_def parser_step_def parser_inv_def update_statistics_def)
qed

lemma u16_bound: "unat (plen :: u16) < 2 ^ 32"
  using u16_lt [of plen] by simp

lemma packet_finish:
  assumes "outcome E (sets_post (sid\<lparr>observationDomainId := odid, sysUpTime := up, exportTime := et\<rparr>)
      m (unat plen) 0 ps) r" and "plen \<noteq> 0"
    and "\<And>nd nt ps'. parser_inv ps' \<Longrightarrow> std_inv sid_less (acc nd nt ps')"
  shows "outcome E (packet_post sid m plen ps) (res_bind r (\<lambda>(r, ps'). case r of
      None \<Rightarrow> Inr (-1, ps')
    | Some (nd, nt) \<Rightarrow> Inr (0, update_statistics nd nt (ps'\<lparr>snInfoMap := acc nd nt ps'\<rparr>))))"
  unfolding outcome_bind
proof (rule outcome_mono [OF assms(1)], assumption)
  fix x
  assume p: "sets_post (sid\<lparr>observationDomainId := odid, sysUpTime := up, exportTime := et\<rparr>) m (unat plen) 0 ps x"
  obtain o' ps' where x: "x = (o', ps')" by (cases x)
  from p have "parser_inv ps'" by (auto simp: x sets_post_def parser_step_def)
  then show "outcome E (packet_post sid m plen ps) (case x of (r, ps') \<Rightarrow> case r of
        None \<Rightarrow> Inr (-1, ps')
      | Some (nd, nt) \<Rightarrow> Inr (0, update_statistics nd nt (ps'\<lparr>snInfoMap := acc nd nt ps'\<rparr>)))"
    using p assms(2,3) by (auto simp: x intro: packet_post_bad_set packet_post_done split: option.split)
qed

lemma processIpfixPacket_outcome:
  assumes "parser_inv ps" and "unat plen \<le> length m" and "E Diverges" and "E HeapOverflow"
  shows "outcome E (packet_post sid m plen ps) (processIpfixPacket env mem m plen sid ps)"
proof (cases "unat plen < 20")
  case True
  then show ?thesis
    using assms by (simp add: processIpfixPacket_def sizeof_IpfixHeader_def packet_post_error)
next
  case False
  then have nz: "plen \<noteq> 0" by auto
  from False assms(2) obtain odid et hl seq where rd: "rd32 m 12 = Inr odid" "rd32 m 4 = Inr et"
      "rd16 m 2 = Inr hl" "rd32 m 8 = Inr seq"
    by (auto simp: rd32_def rd16_def)
  let ?sid = "sid\<lparr>observationDomainId := odid, sysUpTime := sysUpTime sid, exportTime := et\<rparr>"
  have "outcome E (sets_post ?sid m (unat plen) 0 ps) (ipfix_sets env mem ?sid m (unat plen) 16 0 0 ps)"
    using assms u16_bound by (intro ipfix_sets_outcome) auto
  from packet_finish [OF this nz, where acc = "\<lambda>nd nt ps'.
      ipfix_account (sid\<lparr>observationDomainId := odid, exportTime := et\<rparr>) seq nd nt (snInfoMap ps')"]
  show ?thesis
    using False rd account_inv(1) packet_post_error [OF assms(1)]
    by (simp add: processIpfixPacket_def sizeof_IpfixHeader_def Let_def parser_inv_def)
qed

lemma processNetflowV9Packet_outcome:
  assumes "parser_inv ps" and "unat plen \<le> length m" and "E Diverges" and "E HeapOverflow"
  shows "outcome E (packet_post sid m plen ps) (processNetflowV9Packet env mem m plen sid ps)"
proof (cases "unat plen < 24")
  case True
  then show ?thesis
    using assms by (simp add: processNetflowV9Packet_def sizeof_NetflowV9Header_def packet_post_error)
next
  case False
  then have nz: "plen \<noteq> 0" by auto
  from False assms(2) obtain odid up et ex seq where rd: "rd32 m 16 = Inr odid" "rd32 m 4 = Inr up"
      "rd32 m 8 = Inr et" "rd16 m 2 = Inr ex" "rd32 m 12 = Inr seq"
    by (auto simp: rd32_def rd16_def)
  let ?sid = "sid\<lparr>observationDomainId := odid, sysUpTime := up, exportTime := et\<rparr>"
  have "outcome E (sets_post ?sid m (unat plen) 0 ps) (netflow_sets env mem ?sid m (unat plen) ex 20 0 0 ps)"
    using assms u16_bound by (intro netflow_sets_outcome) auto
  from packet_finish [OF this nz, where acc = "\<lambda>nd nt ps'. netflow_account ?sid seq nd nt (snInfoMap ps')"]
  show ?thesis
    using False rd account_inv(2)
    by (simp add: processNetflowV9Packet_def sizeof_NetflowV9Header_def Let_def parser_inv_def)
qed

lemma processPacket_outcome:
  assumes "parser_inv ps" and "unat plen \<le> length m" and "12 \<le> length m"
    and "E Diverges" and "E HeapOverflow"
  shows "outcome E (packet_post sid m plen ps) (processPacket env mem m plen sid ps)"
proof (cases "plen = 0")
  case True
  have "parser_step sid m (unat plen) 0 ps (withdraw_template sid 0 True ps)" (is "parser_step _ _ _ _ _ ?ps'")
    by (rule withdraw_step [OF assms(1)])
  then obtain rs where rs: "sent ?ps' = sent ps @ rs" "\<forall>x \<in> set rs. sent_ok sid m (unat plen) x"
      and st: "parser_inv ?ps'" "templateLifetime ?ps' = templateLifetime ps"
        "statTotalMessages ?ps' = statTotalMessages ps" "statTotalDataRecords ?ps' = statTotalDataRecords ps"
    by (auto simp: parser_step_def)
  have "packet_post sid m plen ps (0, ?ps')"
    unfolding packet_post_def
    by (simp add: st True, intro exI [of _ "observationDomainId sid"] exI [of _ "sysUpTime sid"]
        exI [of _ "exportTime sid"] exI [of _ rs]) (use rs True in simp)
  with True show ?thesis by (simp add: processPacket_def)
next
  case False
  from assms(3) obtain v et4 et8 where "rd16 m 0 = Inr v" "rd32 m 4 = Inr et4" "rd32 m 8 = Inr et8"
    by (auto simp: rd32_def rd16_def)
  with False show ?thesis
    using assms packet_post_error [OF assms(1)] processIpfixPacket_outcome processNetflowV9Packet_outcome
    by (auto simp: processPacket_def)
qed

section \<open>Loss accounting\<close>

text \<open>
  The accounting of a sequence of messages from one source: their numbers of data and of
  template records, with sequence numbers that count the data records sent so far.
\<close>

fun account_run :: "source_id \<Rightarrow> u32 \<Rightarrow> (u16 \<times> u16) list \<Rightarrow> (source_id, sn_info) std_map
    \<Rightarrow> (source_id, sn_info) std_map" where
  "account_run sid seq [] sm = sm"
| "account_run sid seq ((nd, nt) # ms) sm =
     account_run sid (seq + ucast nd) ms (ipfix_account sid seq nd nt sm)"

lemma account_run_known:
  assumes "protocol sid = 17" and "std_find sid_less sid sm = Some i" and "expectedSN i = seq"
  shows "\<exists>j. std_find sid_less sid (account_run sid seq ms sm) = Some j \<and>
    expectedSN j = seq + sum_list (map (ucast \<circ> fst) ms) \<and>
    receivedMessages j = receivedMessages i + of_nat (length ms) \<and>
    receivedDataRecords j = receivedDataRecords i + sum_list (map (ucast \<circ> fst) ms) \<and>
    lostDataRecords j = lostDataRecords i \<and> outOfOrderMessages j = outOfOrderMessages i"
  using assms
proof (induction ms arbitrary: seq sm i)
  case Nil
  then show ?case by simp
next
  case (Cons p ms)
  obtain nd nt where p: "p = (nd, nt)" by (cases p)
  let ?i = "i\<lparr>expectedSN := seq + ucast nd, receivedMessages := receivedMessages i + 1,
    receivedDataRecords := receivedDataRecords i + ucast nd,
    receivedTemplateRecords := receivedTemplateRecords i + ucast nt\<rparr>"
  have "std_find sid_less sid (ipfix_account sid seq nd nt sm) = Some ?i"
    using Cons.prems by (simp add: ipfix_account_def sid.find_assign_same sid.equiv_refl)
  from Cons.IH [OF Cons.prems(1) this] show ?case
    by (simp add: p add.assoc)
qed

section \<open>Records of variable length\<close>

text \<open>
  The encoding of a field's value in a data record: a field of variable length carries its
  length in one byte, or in three bytes from 255 on.
\<close>

definition enc_field :: "field_info \<Rightarrow> bytes \<Rightarrow> bytes" where
  "enc_field f v =
     (if \<not> isVariableLength f then v
      else if length v < 255 then of_nat (length v) # v
      else 255 # htons_bytes (of_nat (length v)) @ v)"

definition value_ok :: "field_info \<Rightarrow> bytes \<Rightarrow> bool" where
  "value_ok f v \<longleftrightarrow> (if isVariableLength f then length v < 65536 else length v = unat (flen f))"

definition field_slice :: "bytes \<Rightarrow> nat \<Rightarrow> field_info \<Rightarrow> bytes" where
  "field_slice m rec f = take (unat (flen f)) (drop (rec + unat (offset f)) m)"

lemma of_nat_byte_neq_255: "n < 255 \<Longrightarrow> (of_nat n :: byte) \<noteq> 255"
proof
  assume "n < 255" and "(of_nat n :: byte) = 255"
  then have "unat (of_nat n :: byte) = 255" by simp
  with \<open>n < 255\<close> show False by (simp add: unat_of_nat_byte)
qed

lemma field_length_enc:
  assumes "value_ok f v" and "length xs = rec + rl"
    and "length xs + length (enc_field f v) \<le> eos" and "m = xs @ enc_field f v @ ys"
  shows "\<exists>rl'. field_length m eos rec rl f = Inr (Some (length v, rl')) \<and>
    rl' + length v = rl + length (enc_field f v) \<and> (\<exists>zs. m = zs @ v @ ys \<and> length zs = rec + rl')"
proof (cases "isVariableLength f")
  case False
  then show ?thesis
    using assms by (auto simp: field_length_def value_ok_def enc_field_def)
next
  case var: True
  show ?thesis
  proof (cases "length v < 255")
    case True
    have "rd8 m (rec + rl) = Inr (of_nat (length v))"
      using assms(2,4) rd8_at [of xs "of_nat (length v)" "v @ ys"] True var by (simp add: enc_field_def)
    then show ?thesis
      using assms var True of_nat_byte_neq_255 [OF True]
      by (auto simp: field_length_def enc_field_def unat_of_nat_byte
          intro!: exI [of _ "xs @ [of_nat (length v)]"])
  next
    case False
    let ?h = "htons_bytes (of_nat (length v))"
    have m: "m = xs @ 255 # ?h @ v @ ys"
      using assms(4) var False by (simp add: enc_field_def)
    have 8: "rd8 m (rec + rl) = Inr 255"
      using rd8_at [of xs 255 "?h @ v @ ys"] assms(2) m by simp
    have 16: "rd16 m (rec + (rl + 1)) = Inr (of_nat (length v))"
      using rd16_at [of "xs @ [255]" "of_nat (length v)" "v @ ys"] assms(2) m by simp
    have "length v < 65536" using assms(1) var by (simp add: value_ok_def)
    then show ?thesis
      using assms(2,3) var False 8 16
      by (auto simp: field_length_def enc_field_def unat_of_nat_u16 m intro!: exI [of _ "xs @ 255 # ?h"])
  qed
qed

lemma var_fields_enc:
  assumes "list_all2 value_ok fs vs" and "length xs = rec + rl"
    and "length xs + length (concat (map2 enc_field fs vs)) \<le> eos" and "eos < 2 ^ 32"
    and "m = xs @ concat (map2 enc_field fs vs) @ ys"
  shows "\<exists>fs'. var_fields m eos rec rl fs = Inr (Some (fs', rl + length (concat (map2 enc_field fs vs)))) \<and>
    map (field_slice m rec) fs' = vs"
  using assms
proof (induction fs vs arbitrary: xs rl rule: list_all2_induct)
  case Nil
  then show ?case by simp
next
  case (Cons f fs v vs)
  let ?e = "enc_field f v" and ?es = "concat (map2 enc_field fs vs)"
  from field_length_enc [of f v xs rec rl eos m "?es @ ys"] obtain rl' zs
    where fl: "field_length m eos rec rl f = Inr (Some (length v, rl'))"
      and rl': "rl' + length v = rl + length ?e" and zs: "m = zs @ v @ ?es @ ys" "length zs = rec + rl'"
    using Cons.hyps(1) Cons.prems by auto
  from Cons.IH [of "xs @ ?e" "rl' + length v"] obtain fs'
    where IH: "var_fields m eos rec (rl' + length v) fs = Inr (Some (fs', rl' + length v + length ?es))"
      "map (field_slice m rec) fs' = vs"
    using Cons.prems rl' by auto
  have lt: "length v < 65536" using Cons.hyps(1) u16_lt by (auto simp: value_ok_def split: if_splits)
  have "rl' < 2 ^ 32" using Cons.prems rl' by simp
  then have "field_slice m rec (f\<lparr>ftype := (ftype f)\<lparr>ie_length := of_nat (length v)\<rparr>, offset := of_nat rl'\<rparr>) = v"
    using lt zs by (simp add: field_slice_def unat_of_nat_u16 unat_of_nat_u32)
  then show ?case
    using IH rl' by (simp add: fl add.assoc)
qed

section \<open>Records of fixed length\<close>

lemma processDataSet_fixed_records:
  assumes "rd16 m st = Inr tid" and "rd16 m (st + 2) = Inr l" and "4 \<le> unat l"
    and "st + unat l \<le> endOfMessage"
    and "live_template (time_now env) (templateBuffer ps) sid tid = Some b"
    and "handled_set_id env (setId (templateInfo b))"
    and "recordLength b \<noteq> 0" and "recordLength b < 65535"
  shows "processDataSet env sid m st endOfMessage ps =
    (let rl = unat (recordLength b); k = (unat l - 4) div rl
     in Inr (k, ps\<lparr>sent := sent ps @
          map (\<lambda>i. DataRecord sid (templateInfo b) rl m (st + 4 + i * rl)) [0..<k]\<rparr>))"
proof -
  have g: "getBufferedTemplate (time_now env) sid tid (templateBuffer ps) = (Some b, templateBuffer ps, [])"
    using assms(5) by (auto simp: live_template_def getBufferedTemplate_def Let_def
        split: option.splits if_splits prod.splits)
  have "data_records b m (st + 4) (st + unat l) = Inr (map (\<lambda>i. (templateInfo b, unat (recordLength b),
      st + 4 + i * unat (recordLength b))) [0..<(unat l - 4) div unat (recordLength b)])"
    using data_records_fixed [OF assms(7,8), of "st + 4" "st + unat l" m] assms(3) by simp
  then show ?thesis
    using assms g by (simp add: processDataSet_def Let_def comp_def)
qed

section \<open>Properties\<close>

text \<open>
  An IPFIX message with a template of one field of 4 bytes and a Data Set of two records,
  and a parser that knows the template.
\<close>

definition example_env :: parser_env where
  "example_env = \<lparr>support_netflowv9 = True, export_time_sanity_check = False, time_now = 1000\<rparr>"

definition example_message :: bytes where
  "example_message =
     [0, 10, 0, 40,  0, 0, 3, 232,  0, 0, 0, 0,  0, 0, 0, 1,
      0, 2, 0, 12,  1, 0, 0, 1,  0, 8, 0, 4,
      1, 0, 0, 12,  10, 0, 0, 1,  10, 0, 0, 2]"

definition example_parser :: parser where
  "example_parser = IpfixParser_new\<lparr>templateBuffer := [\<lparr>sourceID = example_source,
     templateInfo = example_template, recordLength = 4, expires = 1070\<rparr>]\<rparr>"

lemmas parser_run = processPacket_def processIpfixPacket_def sizeof_IpfixHeader_def
  isWithinTimeBoundary_def ipfix_sets.simps ipfix_set_def processTemplateSet_def template_loop.simps
  processOptionsTemplateSet_def options_loop.simps options_counts_def processDataSet_def
  rd16_def rd32_def rd8_def ntohs_bytes_def ntohl_bytes_def Let_def data_records_def
  store_template_def tb_defs getBufferedTemplate_def handled_set_id_def isExpired_def
  unknown_offset_def IPFIX_ENTERPRISE_TYPE_def IPFIX_SetId_Data_Start_def IpfixParser_new_def
  DEFAULT_TEMPLATE_EXPIRE_SECS_def

lemmas example_defs = example_env_def example_source_def example_message_def example_template_def
  example_parser_def



text \<open>
  C16: a Data Set for a live template of fixed record length \<open>rl\<close> yields exactly
  \<open>(length - 4) div rl\<close> Data Records, one after the other from the start of the set's
  content, in order, each with the buffered template; nothing else of the parser changes.
\<close>

theorem processDataSet_fixed:
  assumes "rd16 m st = Inr tid" and "rd16 m (st + 2) = Inr l" and "4 \<le> unat l"
    and "st + unat l \<le> endOfMessage"
    and "live_template (time_now env) (templateBuffer ps) sid tid = Some b"
    and "handled_set_id env (setId (templateInfo b))"
    and "recordLength b \<noteq> 0" and "recordLength b < 65535"
  shows "processDataSet env sid m st endOfMessage ps =
    (let rl = unat (recordLength b); k = (unat l - 4) div rl
     in Inr (k, ps\<lparr>sent := sent ps @
          map (\<lambda>i. DataRecord sid (templateInfo b) rl m (st + 4 + i * rl)) [0..<k]\<rparr>))"
  by (rule processDataSet_fixed_records [OF assms])

theorem processDataSet_fixed_witness:
  "processDataSet example_env example_source example_message 28 40 example_parser =
     Inr (2, example_parser\<lparr>sent := [DataRecord example_source example_template 4 example_message 32,
                                     DataRecord example_source example_template 4 example_message 36]\<rparr>)"
proof -
  have "live_template (time_now example_env) (templateBuffer example_parser) example_source 256 =
      Some \<lparr>sourceID = example_source, templateInfo = example_template, recordLength = 4, expires = 1070\<rparr>"
    by (simp add: live_template_def getBufferedTemplate_def example_defs isExpired_def IpfixParser_new_def)
  moreover have "rd16 example_message 28 = Inr 256" "rd16 example_message (28 + 2) = Inr 12"
    by (simp_all add: rd16_def example_message_def ntohs_bytes_def)
  moreover have "handled_set_id example_env (setId example_template)" "sent example_parser = []"
    by (simp_all add: handled_set_id_def example_defs IpfixParser_new_def)
  ultimately show ?thesis
    using processDataSet_fixed [of example_message 28 256 12 40 example_env example_parser example_source]
    by (simp add: Let_def upt_rec)
qed

text \<open>
  C19: a Data Set makes the parser run forever exactly when its template is known, of a
  handled type and describes records of length 0 and the set is long enough for its
  header and inside of the message.
\<close>

theorem processDataSet_diverges_iff:
  assumes "parser_inv ps" and "st + 4 \<le> n" and "n \<le> length m" and "n < 2 ^ 32"
  shows "processDataSet env sid m st n ps = Inl Diverges \<longleftrightarrow>
    (\<exists>tid l b. rd16 m st = Inr tid \<and> rd16 m (st + 2) = Inr l \<and>
       live_template (time_now env) (templateBuffer ps) sid tid = Some b \<and>
       recordLength b = 0 \<and> handled_set_id env (setId (templateInfo b)) \<and>
       4 \<le> unat l \<and> st + unat l \<le> n)"
proof -
  obtain tid l where rd: "rd16 m st = Inr tid" "rd16 m (st + 2) = Inr l"
    using assms(2,3) by (simp add: rd16_def)
  obtain found bts destroyed where
    g: "getBufferedTemplate (time_now env) sid tid (templateBuffer ps) = (found, bts, destroyed)"
    by (metis prod_cases3)
  have "data_records b m (st + 4) (st + unat l) = Inl Diverges \<longleftrightarrow> recordLength b = 0 \<and> 4 \<le> unat l"
    if "found = Some b" "st + unat l \<le> n" for b
  proof (cases "recordLength b = 0")
    case False
    have "bt_wf b" using getBufferedTemplate_step(2) [OF assms(1) g that(1)] by simp
    from data_records_outcome [where E = "\<lambda>_. False" and m = m and rec = "st + 4", OF this]
    have "outcome (\<lambda>_. False) (\<lambda>rs. \<forall>x \<in> set rs. record_ok (templateInfo b) (st + 4) (st + unat l) x)
        (data_records b m (st + 4) (st + unat l))"
      using False that(2) assms(3) by simp
    then show ?thesis using False by auto
  qed (simp add: data_records_zero)
  then show ?thesis
    using rd g by (cases found) (auto simp: processDataSet_def live_template_def res_bind_eq_Inl Let_def
        split: if_splits)
qed

theorem processDataSet_diverges_iff_witness:
  "processDataSet example_env example_source [1, 0, 0, 8, 1, 2, 3, 4] 0 8
     (example_parser\<lparr>templateBuffer := [\<lparr>sourceID = example_source,
        templateInfo = example_template\<lparr>fieldInfo := [\<lparr>ftype = \<lparr>ie_id = 8, enterprise = 0, ie_length = 0\<rparr>,
          offset = 0, isVariableLength = False\<rparr>]\<rparr>, recordLength = 0, expires = 1070\<rparr>]\<rparr>) = Inl Diverges"
proof -
  let ?b = "\<lparr>sourceID = example_source,
    templateInfo = example_template\<lparr>fieldInfo := [\<lparr>ftype = \<lparr>ie_id = 8, enterprise = 0, ie_length = 0\<rparr>,
      offset = 0, isVariableLength = False\<rparr>]\<rparr>, recordLength = 0, expires = 1070\<rparr>"
  let ?ps = "example_parser\<lparr>templateBuffer := [?b]\<rparr>" and ?m = "[1, 0, 0, 8, 1, 2, 3, 4] :: bytes"
  have "parser_inv ?ps"
    by (simp add: parser_inv_def tb_inv_def bt_wf_def ti_wf_def ti_fields_def varying_def field_wf_def
        example_defs IpfixParser_new_def)
  moreover have "live_template (time_now example_env) (templateBuffer ?ps) example_source 256 = Some ?b"
    by (simp add: live_template_def getBufferedTemplate_def example_defs isExpired_def)
  moreover have "rd16 ?m 0 = Inr 256" "rd16 ?m (Suc (Suc 0)) = Inr 8"
    by (simp_all add: rd16_def ntohs_bytes_def)
  moreover have "handled_set_id example_env (setId (templateInfo ?b))"
    by (simp add: handled_set_id_def example_defs)
  ultimately show ?thesis
    by (intro iffD2 [OF processDataSet_diverges_iff])
      simp_all
qed

text \<open>
  A received message with a template whose only field has length 0, followed by a
  Data Set for it, sends a fresh parser into an endless loop.
\<close>

theorem zero_length_template_diverges:
  "processPacket example_env mem
     [0, 10, 0, 36,  0, 0, 3, 232,  0, 0, 0, 0,  0, 0, 0, 1,
      0, 2, 0, 12,  1, 0, 0, 1,  0, 8, 0, 0,  1, 0, 0, 8,  1, 2, 3, 4] 36
     example_source IpfixParser_new = Inl Diverges"
  by (simp add: parser_run example_defs fixed_records_0 cong: res_bind_weak_cong)

text \<open>
  An IPFIX Options Template record whose fields are all scope fields makes the
  parser write outside of the array it allocated.
\<close>

theorem options_template_heap_overflow:
  "processPacket example_env mem
     [0, 10, 0, 30,  0, 0, 3, 232,  0, 0, 0, 0,  0, 0, 0, 1,
      0, 3, 0, 14,  1, 1, 0, 1,  0, 1,  0, 144, 0, 4] 30
     example_source IpfixParser_new = Inl HeapOverflow"
  by (simp add: parser_run example_defs cong: res_bind_weak_cong)

text \<open>
  C15: a record of a template with fields of variable length, whose values are encoded in
  the record one after the other, is delivered complete: the record's length is the length of
  the encoding, and reading every scope and data field at the offset and length of the
  delivered template gives back its value.
\<close>

theorem var_record_roundtrip:
  assumes "list_all2 value_ok (scopeInfo ti) svs" and "list_all2 value_ok (fieldInfo ti) fvs"
    and "m = xs @ concat (map2 enc_field (scopeInfo ti) svs) @ concat (map2 enc_field (fieldInfo ti) fvs) @ ys"
    and "length m - length ys \<le> eos" and "eos < 2 ^ 32"
  shows "\<exists>ti'. var_record m eos ti (length xs) =
      Inr (Some (ti', length m - length ys - length xs)) \<and>
    map (field_slice m (length xs)) (scopeInfo ti') = svs \<and>
    map (field_slice m (length xs)) (fieldInfo ti') = fvs"
proof -
  let ?s = "concat (map2 enc_field (scopeInfo ti) svs)" and ?f = "concat (map2 enc_field (fieldInfo ti) fvs)"
  from var_fields_enc [OF assms(1), of xs "length xs" 0 eos m "?f @ ys"] obtain ss
    where ss: "var_fields m eos (length xs) 0 (scopeInfo ti) = Inr (Some (ss, length ?s))"
      "map (field_slice m (length xs)) ss = svs"
    using assms(3,4,5) by auto
  from var_fields_enc [OF assms(2), of "xs @ ?s" "length xs" "length ?s" eos m ys] obtain fs
    where fs: "var_fields m eos (length xs) (length ?s) (fieldInfo ti) = Inr (Some (fs, length ?s + length ?f))"
      "map (field_slice m (length xs)) fs = fvs"
    using assms(3,4,5) by auto
  have "length xs + length ?s + length ?f \<le> eos" using assms(3,4) by simp
  then show ?thesis
    using ss fs assms(3) by (simp add: var_record_def)
qed

theorem var_record_roundtrip_witness:
  "\<exists>ti'. var_record [9, 2, 65, 66] 4 (example_template\<lparr>fieldInfo := [\<lparr>ftype = \<lparr>ie_id = 82, enterprise = 0,
       ie_length = 65535\<rparr>, offset = 0xFFFFFFFF, isVariableLength = True\<rparr>]\<rparr>) 1 = Inr (Some (ti', 3)) \<and>
     map (field_slice [9, 2, 65, 66] 1) (fieldInfo ti') = [[65, 66]]"
  using var_record_roundtrip [of "example_template\<lparr>fieldInfo := [\<lparr>ftype = \<lparr>ie_id = 82, enterprise = 0,
       ie_length = 65535\<rparr>, offset = 0xFFFFFFFF, isVariableLength = True\<rparr>]\<rparr>" "[]" "[[65, 66]]"
      "[9, 2, 65, 66]" "[9]" "[]" 4]
  by (auto simp: value_ok_def enc_field_def example_template_def numeral_3_eq_3)

text \<open>
  C20: for a new UDP source whose messages carry sequence numbers that count its data
  records, the parser reports no loss and no reordering, over any number of messages and
  across the wrap-around of the sequence number, and its counters are the number of
  messages and of data records received.
\<close>

theorem in_order_no_loss:
  assumes "protocol sid = 17" and "std_find sid_less sid sm = None" and "ms \<noteq> []"
  shows "\<exists>i. std_find sid_less sid (account_run sid seq ms sm) = Some i \<and>
    lostDataRecords i = 0 \<and> outOfOrderMessages i = 0 \<and> receivedMessages i = of_nat (length ms) \<and>
    receivedDataRecords i = sum_list (map (ucast \<circ> fst) ms)"
proof -
  obtain nd nt ms' where ms: "ms = (nd, nt) # ms'" using assms(3) by (cases ms) auto
  let ?i = "SNInfo_new\<lparr>expectedSN := seq + ucast nd, receivedMessages := 1,
    receivedDataRecords := ucast nd, receivedTemplateRecords := ucast nt\<rparr>"
  have "std_find sid_less sid (ipfix_account sid seq nd nt sm) = Some ?i"
    using assms by (simp add: ipfix_account_def sid.find_assign_same sid.equiv_refl)
  from account_run_known [OF assms(1) this, of "seq + ucast nd" ms'] show ?thesis
    by (auto simp: ms SNInfo_new_def)
qed

theorem in_order_no_loss_witness:
  "\<exists>i. std_find sid_less example_source (account_run example_source 0xFFFFFFFF [(2, 1), (3, 0)] []) = Some i \<and>
     lostDataRecords i = 0 \<and> outOfOrderMessages i = 0 \<and> receivedMessages i = 2 \<and> receivedDataRecords i = 5"
  using in_order_no_loss [of example_source "[]" "[(2, 1), (3, 0)]" "0xFFFFFFFF"]
  by (auto simp: example_source_def)

end
