(* ===== verification/Export_Collect.thy ===== *)
theory Export_Collect
  imports Exporter_Messages Parser_Messages
begin

text \<open>
  The two ends of the protocol together: what the collector's parser
  (src/src/modules/ipfix/IpfixParser.cpp) makes of the messages the exporter library
  (src/src/common/ipfixlolib/ipfixlolib.c) sends. The messages are those of the theory
  \<open>Exporter_Messages\<close>; nothing is assumed of their bytes.
\<close>

section \<open>Template Sets\<close>

text \<open>The fields a collector reads from the specifiers the exporter writes, from offset \<open>off\<close> on.\<close>

fun wire_fields :: "u16 \<Rightarrow> tfield list \<Rightarrow> field_info list" where
  "wire_fields off [] = []"
| "wire_fields off ((ty, l, eid) # fs) =
     \<lparr>ftype = \<lparr>ie_id = ty AND NOT IPFIX_ENTERPRISE_TYPE, enterprise = eid, ie_length = l\<rparr>,
      offset = ucast off, isVariableLength = (l = 65535)\<rparr> # wire_fields (off + l) fs"

definition wire_length :: "tfield list \<Rightarrow> u16" where
  "wire_length fs = sum_list (map (\<lambda>(ty, l, eid). l) fs)"

definition wire_varying :: "tfield list \<Rightarrow> bool" where
  "wire_varying fs = list_ex (\<lambda>(ty, l, eid). l = 65535) fs"

definition wire_template :: "u16 \<Rightarrow> tfield list \<Rightarrow> template_info" where
  "wire_template tid fs =
     \<lparr>templateId = tid, setId = IpfixTemplate, fieldCount = of_nat (length fs),
      fieldInfo = (if wire_varying fs then map unknown_offset (wire_fields 0 fs) else wire_fields 0 fs),
      scopeCount = 0, scopeInfo = []\<rparr>"

definition wire_store :: "parser_env \<Rightarrow> source_id \<Rightarrow> u16 \<times> tfield list \<Rightarrow> parser \<Rightarrow> parser" where
  "wire_store env sid = (\<lambda>(tid, fs).
     store_template env sid (wire_template tid fs) (if wire_varying fs then 65535 else wire_length fs))"

lemma enterprise_bits:
  "(ty OR IPFIX_ENTERPRISE_BIT) AND IPFIX_ENTERPRISE_TYPE \<noteq> 0"
  "(ty OR IPFIX_ENTERPRISE_BIT) AND NOT IPFIX_ENTERPRISE_TYPE = ty AND NOT IPFIX_ENTERPRISE_TYPE"
  "\<not> ipfix_enterprise_flag_set ty \<Longrightarrow> ty AND IPFIX_ENTERPRISE_TYPE = 0"
  "\<not> ipfix_enterprise_flag_set ty \<Longrightarrow> ty AND NOT IPFIX_ENTERPRISE_TYPE = ty"
proof -
  let ?b = "0x8000 :: u16"
  have eq: "IPFIX_ENTERPRISE_BIT = ?b" "IPFIX_ENTERPRISE_TYPE = ?b"
    by (simp_all add: IPFIX_ENTERPRISE_BIT_def IPFIX_ENTERPRISE_TYPE_def)
  have "(ty OR ?b) AND ?b = ?b" by (rule bit_eqI) (auto simp: bit_simps)
  then show "(ty OR IPFIX_ENTERPRISE_BIT) AND IPFIX_ENTERPRISE_TYPE \<noteq> 0" unfolding eq by simp
  show "(ty OR IPFIX_ENTERPRISE_BIT) AND NOT IPFIX_ENTERPRISE_TYPE = ty AND NOT IPFIX_ENTERPRISE_TYPE"
    unfolding eq by (rule bit_eqI) (auto simp: bit_simps)
  assume "\<not> ipfix_enterprise_flag_set ty"
  then have ne: "ty AND 2 ^ 15 \<noteq> 2 ^ 15" by (simp add: ipfix_enterprise_flag_set_def eq)
  have "ty AND 2 ^ 15 = 2 ^ 15" if "bit ty 15"
    by (rule bit_eqI) (use that in \<open>auto simp only: bit_and_iff bit_exp_iff\<close>)
  with ne have "ty AND 2 ^ 15 = 0" by (subst and_exp_eq_0_iff_not_bit) auto
  then show z: "ty AND IPFIX_ENTERPRISE_TYPE = 0" by (simp add: eq)
  have "(ty AND NOT ?b) OR (ty AND ?b) = ty" by (rule bit_eqI) (auto simp: bit_simps)
  then show "ty AND NOT IPFIX_ENTERPRISE_TYPE = ty" using z unfolding eq by simp
qed

lemma rd_at:
  "length xs = n \<Longrightarrow> rd16 (xs @ htons_bytes w @ ys) n = Inr w"
  "length xs = n \<Longrightarrow> rd32 (xs @ htonl_bytes v @ ys) n = Inr v"
  using rd16_at rd32_at by auto

lemma wire_Cons [simp]:
  "wire_length ((ty, l, eid) # fs) = l + wire_length fs"
  "wire_varying ((ty, l, eid) # fs) = (l = 65535 \<or> wire_varying fs)"
  by (simp_all add: wire_length_def wire_varying_def)

lemma template_fields_specs:
  assumes "m = xs @ concat (map spec_bytes fs) @ ys" and "length xs + length (concat (map spec_bytes fs)) \<le> eos"
  shows "Ipfix_Parser.template_fields True m eos (length fs) (length xs) rl v =
    Inr (Some (wire_fields rl fs, length xs + length (concat (map spec_bytes fs)), rl + wire_length fs,
      v \<or> wire_varying fs))"
  using assms
proof (induction fs arbitrary: xs rl v)
  case Nil
  then show ?case by (simp add: wire_length_def wire_varying_def)
next
  case (Cons f fs)
  obtain ty l eid where f: "f = (ty, l, eid)" by (cases f)
  let ?s = "spec_bytes f" and ?r = "concat (map spec_bytes fs) @ ys"
  have IH: "Ipfix_Parser.template_fields True m eos (length fs) (length xs + length ?s) (rl + l) (v \<or> l = 65535) =
      Inr (Some (wire_fields (rl + l) fs, length xs + length ?s + length (concat (map spec_bytes fs)),
        rl + l + wire_length fs, (v \<or> l = 65535) \<or> wire_varying fs))"
    using Cons.IH [of "xs @ ?s" "rl + l" "v \<or> l = 65535"] Cons.prems by simp
  show ?case
  proof (cases "eid \<noteq> 0 \<or> ipfix_enterprise_flag_set ty")
    case True
    then have s: "?s = htons_bytes (ty OR IPFIX_ENTERPRISE_BIT) @ htons_bytes l @ htonl_bytes eid"
      by (auto simp: spec_bytes_def f)
    have "rd16 m (length xs) = Inr (ty OR IPFIX_ENTERPRISE_BIT)" "rd16 m (length xs + 2) = Inr l"
        "rd32 m (length xs + 4) = Inr eid"
      using rd_at(1) [of xs _ _ "htons_bytes l @ htonl_bytes eid @ ?r"]
        rd_at(1) [of "xs @ htons_bytes (ty OR IPFIX_ENTERPRISE_BIT)" _ l "htonl_bytes eid @ ?r"]
        rd_at(2) [of "xs @ htons_bytes (ty OR IPFIX_ENTERPRISE_BIT) @ htons_bytes l" _ eid ?r] Cons.prems(1) s
      by simp_all
    moreover have "length xs + 8 \<le> eos" using Cons.prems(2) s by simp
    ultimately show ?thesis
      using IH s by (simp add: enterprise_bits f add.assoc Let_def)
  next
    case False
    then have s: "?s = htons_bytes ty @ htons_bytes l" by (auto simp: spec_bytes_def f)
    have "rd16 m (length xs) = Inr ty" "rd16 m (length xs + 2) = Inr l"
      using rd_at(1) [of xs _ _ "htons_bytes l @ ?r"] rd_at(1) [of "xs @ htons_bytes ty" _ l ?r] Cons.prems(1) s
      by simp_all
    moreover have "length xs + 4 \<le> eos" using Cons.prems(2) s by simp
    ultimately show ?thesis
      using IH s False by (simp add: enterprise_bits f add.assoc Let_def)
  qed
qed

text \<open>The Template Set of one template, as \<open>ipfix_end_template\<close> leaves it.\<close>

abbreviation template_set :: "u16 \<times> tfield list \<Rightarrow> bytes" where
  "template_set \<equiv> \<lambda>(tid, fs).
     template_set_bytes IPFIX_PROTOCOL (8 + length (concat (map spec_bytes fs))) tid (of_nat (length fs)) fs"

lemma length_template_set_bytes:
  "length (template_set_bytes p n tid fc fs) = 8 + length (concat (map spec_bytes fs))"
  by (simp add: template_set_bytes_def)

lemma of_nat_u16_nonzero: "0 < n \<Longrightarrow> n < 65536 \<Longrightarrow> (of_nat n :: u16) \<noteq> 0"
  using unat_of_nat_u16 [of n] by fastforce

lemma length_specs_ge: "4 * length fs \<le> length (concat (map spec_bytes fs))"
  using length_spec_bytes(2) by (induction fs) (auto intro: add_mono)

lemma processTemplateSet_wire:
  assumes "m = xs @ template_set (tid, fs) @ ys" and "fs \<noteq> []"
    and "length xs + length (template_set (tid, fs)) \<le> eom" and "eom < 65536"
  shows "processTemplateSet env sid IpfixTemplate m (length xs) eom ps = Inr (1, wire_store env sid (tid, fs) ps)"
    and "rd16 m (length xs) = Inr 2" and "rd16 m (length xs + 2) = Inr (of_nat (length (template_set (tid, fs))))"
proof -
  let ?s = "concat (map spec_bytes fs)" and ?fc = "of_nat (length fs) :: u16"
  let ?n = "8 + length ?s"
  have m: "m = xs @ htons_bytes 2 @ htons_bytes (of_nat ?n) @ htons_bytes tid @ htons_bytes ?fc @ ?s @ ys"
    using assms(1) by (simp add: template_set_bytes_def template_set_id_def)
  have n: "length xs + ?n \<le> eom" using assms(3) by (simp add: length_template_set_bytes)
  have "length fs < 65536" "0 < length fs" using n assms(2,4) length_specs_ge [of fs] by simp_all
  then have fc: "unat ?fc = length fs" "?fc \<noteq> 0" by (simp_all add: unat_of_nat_u16 of_nat_u16_nonzero)
  show r0: "rd16 m (length xs) = Inr 2" using rd_at(1) [OF refl] by (simp add: m)
  have r2: "rd16 m (length xs + 2) = Inr (of_nat ?n)"
    using rd_at(1) [of "xs @ htons_bytes 2" "length xs + 2"] by (simp add: m)
  then show "rd16 m (length xs + 2) = Inr (of_nat (length (template_set (tid, fs))))"
    by (simp add: length_template_set_bytes)
  have "rd16 m (length xs + 4) = Inr tid"
    using rd_at(1) [of "xs @ htons_bytes 2 @ htons_bytes (of_nat ?n)" "length xs + 4"] by (simp add: m)
  moreover have "rd16 m (6 + length xs) = Inr ?fc"
    using rd_at(1) [of "xs @ htons_bytes 2 @ htons_bytes (of_nat ?n) @ htons_bytes tid" "6 + length xs"]
    by (simp add: m)
  moreover have "Ipfix_Parser.template_fields True m (length xs + ?n) (length fs) (8 + length xs) 0 False =
      Inr (Some (wire_fields 0 fs, length xs + ?n, wire_length fs, wire_varying fs))"
    using template_fields_specs [of m "xs @ htons_bytes 2 @ htons_bytes (of_nat ?n) @ htons_bytes tid @ htons_bytes ?fc"
        fs ys "length xs + ?n" 0 False]
    by (simp add: m add.commute)
  ultimately have "template_loop env sid IpfixTemplate m (length xs + ?n) (length xs + 4) 0 ps =
      Inr (1, wire_store env sid (tid, fs) ps)"
    using fc by (simp add: template_loop.simps wire_store_def wire_template_def)
  then show "processTemplateSet env sid IpfixTemplate m (length xs) eom ps = Inr (1, wire_store env sid (tid, fs) ps)"
    using r2 n assms(4) unat_of_nat_u16 [of ?n] by (simp add: processTemplateSet_def Let_def)
qed

text \<open>A message body of Template Sets: every template is stored, in the order of the sets.\<close>

lemma ipfix_sets_templates:
  assumes "m = xs @ concat (map template_set ts)" and "\<forall>(tid, fs) \<in> set ts. fs \<noteq> []" and "length m < 65536"
  shows "ipfix_sets env mem sid m (length m) (length xs) nd nt ps =
    Inr (Some (nd, nt + of_nat (length ts)), fold (wire_store env sid) ts ps)"
  using assms
proof (induction ts arbitrary: xs nt ps)
  case Nil
  then show ?case by (simp add: ipfix_sets.simps)
next
  case (Cons t ts)
  obtain tid fs where t: "t = (tid, fs)" by (cases t)
  let ?s = "template_set t" and ?r = "concat (map template_set ts)"
  have m: "m = xs @ template_set (tid, fs) @ ?r" using Cons.prems(1) t by simp
  have len: "length m = length xs + length ?s + length ?r" using Cons.prems(1) by simp
  have 8: "8 \<le> length ?s" by (simp add: t length_template_set_bytes)
  have "unat (of_nat (length ?s) :: u16) = length ?s" using len Cons.prems(3) by (intro unat_of_nat_u16) simp
  then have "\<not> (of_nat (length ?s) :: u16) < 3" using 8 by (simp add: word_less_nat_alt)
  note w = processTemplateSet_wire [OF m, of "length m"]
  show ?case
    using w Cons.prems(2,3) len 8 t \<open>unat _ = _\<close> \<open>\<not> _ < 3\<close> Cons.IH [of "xs @ ?s" "nt + 1" "wire_store env sid t ps"] Cons.prems(1)
    by (subst ipfix_sets.simps) (simp add: ipfix_set_def add.assoc)
qed

section \<open>Data Sets\<close>

text \<open>A record fits a template of fixed length when every value has the length of its field.\<close>

definition record_fits :: "tfield list \<Rightarrow> bytes list \<Rightarrow> bool" where
  "record_fits fs r = list_all2 (\<lambda>(ty, l, eid) v. length v = unat l) fs r"

definition fixed_size :: "tfield list \<Rightarrow> nat" where
  "fixed_size fs = sum_list (map (\<lambda>(ty, l, eid). unat l) fs)"

lemma unat_wire_length: "fixed_size fs < 65536 \<Longrightarrow> unat (wire_length fs) = fixed_size fs"
proof (induction fs)
  case Nil
  show ?case by (simp add: fixed_size_def wire_length_def)
next
  case (Cons f fs)
  obtain ty l eid where "f = (ty, l, eid)" by (cases f)
  with Cons unat_add_u16 [of l "wire_length fs"] show ?case by (simp add: fixed_size_def)
qed

lemma fixed_not_varying: "fixed_size fs < 65535 \<Longrightarrow> \<not> wire_varying fs"
proof (induction fs)
  case Nil
  show ?case by (simp add: wire_varying_def)
next
  case (Cons f fs)
  obtain ty l eid where "f = (ty, l, eid)" by (cases f)
  with Cons show ?case by (auto simp: fixed_size_def)
qed

lemma record_size: "record_fits fs r \<Longrightarrow> length (concat r) = fixed_size fs"
  unfolding record_fits_def by (induction rule: list_all2_induct) (auto simp: fixed_size_def)

lemma wire_fields_slices:
  assumes "record_fits fs r" and "unat off + fixed_size fs < 65536"
    and "m = xs @ zs @ concat r @ ys" and "length zs = unat off"
  shows "map (field_slice m (length xs)) (wire_fields off fs) = r"
  using assms unfolding record_fits_def
proof (induction arbitrary: off zs rule: list_all2_induct)
  case Nil
  then show ?case by simp
next
  case (Cons f fs v r)
  obtain ty l eid where f: "f = (ty, l, eid)" by (cases f)
  have v: "length v = unat l" using Cons.hyps(1) f by simp
  have u: "unat (off + l) = unat off + unat l"
    using Cons.prems(1) f by (intro unat_add_u16) (simp add: fixed_size_def)
  have "map (field_slice m (length xs)) (wire_fields (off + l) fs) = r"
    using Cons.IH [of "off + l" "zs @ v"] Cons.prems u v f by (simp add: fixed_size_def)
  moreover have "unat (ucast off :: u32) = unat off" 
    using u16_lt [of off] by (simp add: unsigned_ucast_eq take_bit_nat_eq_self)
  then have "field_slice m (length xs) \<lparr>ftype = \<lparr>ie_id = ty AND NOT IPFIX_ENTERPRISE_TYPE, enterprise = eid,
      ie_length = l\<rparr>, offset = ucast off, isVariableLength = (l = 65535)\<rparr> = v"
    using Cons.prems(2,3) v by (simp add: field_slice_def)
  ultimately show ?case by (simp add: f)
qed

lemma slices_all:
  assumes "\<forall>r \<in> set rs. record_fits fs r" and "fixed_size fs < 65536"
    and "m = xs @ concat (concat rs) @ ys"
  shows "map (\<lambda>i. map (field_slice m (length xs + i * fixed_size fs)) (wire_fields 0 fs)) [0..<length rs] = rs"
  using assms
proof (induction rs arbitrary: xs)
  case Nil
  then show ?case by simp
next
  case (Cons r rs)
  have r: "length (concat r) = fixed_size fs" using Cons.prems(1) record_size by simp
  have "map (field_slice m (length xs)) (wire_fields 0 fs) = r"
    using wire_fields_slices [of fs r 0 m xs "[]" "concat (concat rs) @ ys"] Cons.prems by simp
  moreover have "map (\<lambda>i. map (field_slice m (length xs + fixed_size fs + i * fixed_size fs)) (wire_fields 0 fs))
      [0..<length rs] = rs"
    using Cons.IH [of "xs @ concat r"] Cons.prems r by simp
  ultimately show ?case
    by (simp add: upt_conv_Cons map_Suc_upt [symmetric] add.assoc comp_def del: upt_Suc)
qed

section \<open>Messages\<close>

lemma ipfix_msg_reads:
  assumes "m = ipfix_msg t sn odid body"
  shows "rd16 m 0 = Inr 10" and "rd16 m 2 = Inr (of_nat (16 + length body))" and "rd32 m 4 = Inr t"
    and "rd32 m 8 = Inr sn" and "rd32 m 12 = Inr odid" and "length m = 16 + length body"
proof -
  let ?v = "htons_bytes 10" and ?l = "htons_bytes (of_nat (16 + length body))"
  have m: "m = ?v @ ?l @ htonl_bytes t @ htonl_bytes sn @ htonl_bytes odid @ body"
    using assms by (simp add: ipfix_msg_def)
  show "rd16 m 0 = Inr 10" using rd_at(1) [of "[]" 0] by (simp add: m)
  show "rd16 m 2 = Inr (of_nat (16 + length body))" using rd_at(1) [of ?v 2] by (simp add: m)
  show "rd32 m 4 = Inr t" using rd_at(2) [of "?v @ ?l" 4] by (simp add: m)
  show "rd32 m 8 = Inr sn" using rd_at(2) [of "?v @ ?l @ htonl_bytes t" 8] by (simp add: m)
  show "rd32 m 12 = Inr odid" using rd_at(2) [of "?v @ ?l @ htonl_bytes t @ htonl_bytes sn" 12] by (simp add: m)
  show "length m = 16 + length body" by (simp add: m)
qed

abbreviation msg_source :: "source_id \<Rightarrow> u32 \<Rightarrow> u32 \<Rightarrow> source_id" where
  "msg_source sid odid t \<equiv> sid\<lparr>observationDomainId := odid, exportTime := t\<rparr>"

text \<open>What the parser's state is after the sets of a message are processed.\<close>

definition accounted :: "source_id \<Rightarrow> u32 \<Rightarrow> u16 \<Rightarrow> u16 \<Rightarrow> parser \<Rightarrow> parser" where
  "accounted sid sn nd nt ps =
     update_statistics nd nt (ps\<lparr>snInfoMap := ipfix_account sid sn nd nt (snInfoMap ps)\<rparr>)"

lemma accounted_simps [simp]:
  "templateBuffer (accounted sid sn nd nt ps) = templateBuffer ps" "sent (accounted sid sn nd nt ps) = sent ps"
  "templateLifetime (accounted sid sn nd nt ps) = templateLifetime ps"
  "snInfoMap (accounted sid sn nd nt ps) = ipfix_account sid sn nd nt (snInfoMap ps)"
  by (simp_all add: accounted_def update_statistics_def)

lemma processPacket_msg:
  assumes "m = ipfix_msg t sn odid body" and "4 \<le> length body" and "16 + length body < 65536"
    and "isWithinTimeBoundary env t"
    and "ipfix_sets env mem (msg_source sid odid t) m (length m) 16 0 0 ps = Inr (Some (nd, nt), ps')"
  shows "processPacket env mem m (of_nat (length m)) sid ps =
    Inr (0, accounted (msg_source sid odid t) sn nd nt ps')"
proof -
  let ?l = "of_nat (length m) :: u16"
  note rd = ipfix_msg_reads [OF assms(1)]
  have l: "unat ?l = length m" "?l \<noteq> 0"
    using assms(3) rd(6) unat_of_nat_u16 [of "length m"] of_nat_u16_nonzero [of "length m"] by simp_all
  have "rd16 m 2 = Inr ?l" using rd(2,6) by simp
  then have "processIpfixPacket env mem m ?l sid ps = Inr (0, accounted (msg_source sid odid t) sn nd nt ps')"
    using l rd assms(2,5) by (simp add: processIpfixPacket_def sizeof_IpfixHeader_def Let_def accounted_def)
  then show ?thesis
    using l(2) rd assms(4) by (simp add: processPacket_def)
qed

text \<open>The parser looks a stored template up for the messages of the same source.\<close>

lemma wire_store_live:
  assumes "sid_eq sid sid'"
    and "protocol sid = 17 \<and> templateLifetime ps > 0 \<longrightarrow> now \<le> time_now env + int (unat (templateLifetime ps))"
  shows "\<exists>b. live_template now (templateBuffer (wire_store env sid (tid, fs) ps)) sid' tid = Some b \<and>
    templateInfo b = wire_template tid fs \<and> recordLength b = (if wire_varying fs then 65535 else wire_length fs)"
  using assms
  by (auto simp: live_template_def getBufferedTemplate_def wire_store_def store_template_def bufferTemplate_def
      wire_template_def isExpired_def split: prod.split)

lemma wire_store_sent:
  "\<exists>ds. sent (wire_store env sid (tid, fs) ps) = sent ps @ map onPreDestroy ds @ [TemplateRecord sid (wire_template tid fs)]"
  by (auto simp: wire_store_def store_template_def tb_defs unlink_where_filter simp flip: map_append)

lemma wire_store_simps [simp]:
  "snInfoMap (wire_store env sid t ps) = snInfoMap ps" "templateLifetime (wire_store env sid t ps) = templateLifetime ps"
  by (cases t; simp add: wire_store_def store_template_def split_beta Let_def)+

text \<open>A message with one Data Set of records of a known template.\<close>

lemma processPacket_data:
  assumes "m = ipfix_msg t sn odid (set_bytes (tid, concat rs))" and "255 < tid" and "rs \<noteq> []"
    and "\<forall>r \<in> set rs. record_fits fs r" and "0 < fixed_size fs" and "fixed_size fs < 65535"
    and "20 + length rs * fixed_size fs < 65536" and "isWithinTimeBoundary env t"
    and "live_template (time_now env) (templateBuffer ps) (msg_source sid odid t) tid = Some b"
    and "templateInfo b = wire_template tid fs" and "recordLength b = wire_length fs"
  shows "processPacket env mem m (of_nat (length m)) sid ps =
    Inr (0, accounted (msg_source sid odid t) sn (of_nat (length rs)) 0 (ps\<lparr>sent := sent ps @
      map (\<lambda>i. DataRecord (msg_source sid odid t) (wire_template tid fs) (fixed_size fs) m (20 + i * fixed_size fs))
        [0..<length rs]\<rparr>))"
proof -
  let ?d = "concat rs" and ?sz = "fixed_size fs"
  have size: "fields_size ?d = length rs * ?sz"
    using assms(4) record_size by (induction rs) (auto simp: fields_size_def length_concat)
  let ?l = "of_nat (4 + fields_size ?d) :: u16"
  have l: "unat ?l = 4 + length rs * ?sz"
    unfolding size using assms(7) by (intro unat_of_nat_u16) simp
  have body: "length (set_bytes (tid, ?d)) = 4 + length rs * ?sz" using size by (simp add: length_set_bytes)
  have len: "length m = 20 + length rs * ?sz" using ipfix_msg_reads(6) [OF assms(1)] body by simp
  obtain h where h: "m = h @ htons_bytes tid @ htons_bytes ?l @ concat ?d" "length h = 16"
    using assms(1) by (auto simp: ipfix_msg_def set_bytes_def)
  have r: "rd16 m 16 = Inr tid" "rd16 m (16 + 2) = Inr ?l"
    using rd_at(1) [of h 16 tid] rd_at(1) [of "h @ htons_bytes tid" 18 ?l] h by simp_all
  have rl: "unat (wire_length fs) = ?sz" using assms(6) by (simp add: unat_wire_length)
  have pds: "processDataSet env (msg_source sid odid t) m 16 (length m) ps =
      Inr (length rs, ps\<lparr>sent := sent ps @ map (\<lambda>i. DataRecord (msg_source sid odid t) (wire_template tid fs) ?sz m
        (16 + 4 + i * ?sz)) [0..<length rs]\<rparr>)"
  proof -
    have "handled_set_id env (setId (templateInfo b))" by (simp add: handled_set_id_def wire_template_def assms(10))
    moreover have "recordLength b \<noteq> 0" "recordLength b < 65535"
      using assms(5,6,11) rl by (auto simp: word_less_nat_alt)
    ultimately show ?thesis
      using processDataSet_fixed_records [OF r _ _ assms(9), of "length m"] l len assms(5) rl
      by (simp add: Let_def assms(10,11))
  qed
  have "\<not> ?l < 3" "tid \<noteq> 2" "tid \<noteq> 3" "IPFIX_SetId_Data_Start \<le> tid"
    using l assms(2) by (auto simp: word_less_nat_alt word_le_nat_alt IPFIX_SetId_Data_Start_def)
  then have "ipfix_sets env mem (msg_source sid odid t) m (length m) 16 0 0 ps = Inr (Some (of_nat (length rs), 0),
      ps\<lparr>sent := sent ps @ map (\<lambda>i. DataRecord (msg_source sid odid t) (wire_template tid fs) ?sz m
        (20 + i * ?sz)) [0..<length rs]\<rparr>)"
    using r pds l len by (subst ipfix_sets.simps) (simp add: ipfix_set_def, simp add: ipfix_sets.simps)
  from processPacket_msg [OF assms(1) _ _ assms(8) this] show ?thesis
    using body assms(7) by simp
qed

section \<open>The exporter's calls\<close>

text \<open>The calls of an application that exports the records \<open>rs\<close> in one Data Set.\<close>

definition set_calls :: "u16 \<Rightarrow> bytes list list \<Rightarrow> buf_op list" where
  "set_calls tid rs = StartSet tid # map PutField (concat rs) @ [EndSet (of_nat (length rs))]"

lemma abs_put_fields:
  assumes "2 + length gs + length vs \<le> IPFIX_MAX_SENDBUFSIZE" and "\<forall>v \<in> set vs. length v < 2 ^ 32"
  shows "abs_run (map PutField vs) ([], Some (i, gs, k)) = (replicate (length vs) 0, [], Some (i, gs @ vs, k))"
    and "run_fits (map PutField vs) ([], Some (i, gs, k))"
  using assms by (induction vs arbitrary: gs) (simp_all add: iovs_used_def)

lemma run_without_end:
  "(\<forall>n. EndSet n \<notin> set as) \<Longrightarrow> exporter_run (map DataCall as) ex =
     res_bind (buf_run as (data_sendbuffer ex)) (\<lambda>(rs, b). Inr (rs, ex\<lparr>data_sendbuffer := b\<rparr>))"
proof (induction as arbitrary: ex)
  case Nil
  then show ?case by simp
next
  case (Cons a as)
  have "data_call a ex = res_bind (buf_step a (data_sendbuffer ex)) (\<lambda>(r, b). Inr (r, ex\<lparr>data_sendbuffer := b\<rparr>))"
    using Cons.prems by (cases a) (auto simp: data_call_def)
  then show ?case
    using Cons by (auto simp: res_bind_def split: sum.split prod.split)
qed

lemma end_set_increment:
  assumes "ipfix_end_data_set n 0 b = Inr (0, s', b')"
  shows "ipfix_end_data_set n s b = Inr (0, s + ucast n, b')"
  using assms by (auto simp: ipfix_end_data_set_def Let_def res_bind_eq_Inr split: if_splits)

lemma set_calls_run:
  assumes "exporter_at ([], None) ex" and "2 + length (concat rs) \<le> IPFIX_MAX_SENDBUFSIZE"
    and "4 + fields_size (concat rs) < 65536"
  shows "\<exists>b. exporter_run (map DataCall (set_calls tid rs)) ex = Inr (replicate (length (concat rs) + 2) 0,
      ex\<lparr>sn_increment := sn_increment ex + ucast (of_nat (length rs) :: u16), data_sendbuffer := b\<rparr>) \<and>
    sb_rel (export_protocol ex) b [(tid, concat rs)] None"
proof -
  let ?vs = "concat rs" and ?p = "export_protocol ex" and ?n = "of_nat (length rs) :: u16"
  let ?as = "StartSet tid # map PutField ?vs"
  have "length v \<le> fields_size ?vs" if "v \<in> set ?vs" for v
    unfolding fields_size_def using that by (intro member_le_sum_list) auto
  then have small: "\<forall>v \<in> set ?vs. length v < 2 ^ 32" using assms(3) by fastforce
  have rel: "sb_rel ?p (data_sendbuffer ex) [] None" using assms(1) by (simp add: exporter_at_def)
  have start: "abs_step (StartSet tid) ([], None) = (0, [], Some (tid, [], 0))"
    by (simp add: iovs_used_def IPFIX_MAX_SENDBUFSIZE_def IPFIX_MAX_SETS_PER_PACKET_def)
  have "abs_run ?as ([], None) = (0 # replicate (length ?vs) 0, [], Some (tid, ?vs, 0))" "run_fits ?as ([], None)"
    using abs_put_fields [of "[]" ?vs tid 0] assms(2) small start by simp_all
  from buf_run_refines [OF rel this(2,1)] obtain b1
    where b1: "buf_run ?as (data_sendbuffer ex) = Inr (0 # replicate (length ?vs) 0, b1)"
      "sb_rel ?p b1 [] (Some (tid, ?vs, 0))" by auto
  from buf_step_refines [OF b1(2), of "EndSet ?n"] assms(3) obtain b
    where b: "buf_step (EndSet ?n) b1 = Inr (0, b)" "sb_rel ?p b [(tid, ?vs)] None" by auto
  then obtain s where "ipfix_end_data_set ?n 0 b1 = Inr (0, s, b)" by (auto elim!: res_bind_InrE)
  from end_set_increment [OF this] have "ipfix_end_data_set ?n (sn_increment ex) b1 =
      Inr (0, sn_increment ex + ucast ?n, b)" .
  then have "exporter_run [DataCall (EndSet ?n)] (ex\<lparr>data_sendbuffer := b1\<rparr>) =
      Inr ([0], ex\<lparr>sn_increment := sn_increment ex + ucast ?n, data_sendbuffer := b\<rparr>)"
    by (simp add: data_call_def)
  moreover have "exporter_run (map DataCall ?as) ex = Inr (0 # replicate (length ?vs) 0, ex\<lparr>data_sendbuffer := b1\<rparr>)"
    using run_without_end [of ?as ex] b1(1) by auto
  moreover have "map DataCall (set_calls tid rs) = map DataCall ?as @ [DataCall (EndSet ?n)]"
    by (simp add: set_calls_def)
  moreover have "(0 # replicate (length ?vs) 0) @ [0] = replicate (length ?vs + 2) (0 :: int)"
    by (simp add: replicate_append_same)
  ultimately show ?thesis
    using b(2) exporter_run_append [of "map DataCall ?as" "[DataCall (EndSet ?n)]" ex] by (intro exI [where x = b]) simp
qed

definition export_calls :: "os_env \<Rightarrow> (nat \<Rightarrow> byte) \<Rightarrow> u16 \<Rightarrow> tfield list \<Rightarrow> bytes list list \<Rightarrow> exporter_call list" where
  "export_calls os mem tid fs rs = template_calls os mem tid fs @ map DataCall (set_calls tid rs) @ [Send os]"

text \<open>A fresh exporter for IPFIX with a connected UDP collector \<open>i\<close> whose sends succeed.\<close>

definition udp_ready :: "os_env \<Rightarrow> nat \<Rightarrow> ipfix_exporter \<Rightarrow> bool" where
  "udp_ready os i ex \<longleftrightarrow>
     exporter_at ([], None) ex \<and> files_end os \<and> export_protocol ex = IPFIX_PROTOCOL \<and> sn_increment ex = 0 \<and>
     udp_items 0 (template_arr ex) = [] \<and>
     uint (template_transmission_timer ex) < time_of os (length (collector_arr ex), 0) \<and>
     i < length (collector_arr ex) \<and> col_protocol (collector_arr ex ! i) = UDP \<and>
     cstate (collector_arr ex ! i) = C_CONNECTED \<and> (\<forall>ph s bs. fst (sendmsg os (i, ph) s bs) \<noteq> -1)"

lemma udp_items_update:
  "udp_items n ts = [] \<Longrightarrow> k < length ts \<Longrightarrow> tstate t = T_COMMITED \<Longrightarrow> udp_items n (ts[k := t]) = [(n + k, fields_length t)]"
proof (induction ts arbitrary: n k)
  case (Cons x ts)
  then show ?case by (cases k) (auto split: if_splits)
qed simp

lemma exporter_run_effect:
  assumes "exporter_at x ex" and "calls_ok cs x" and "exporter_run cs ex = Inr (rs, ex')"
  shows "exporter_at (fold call_effect cs x) ex'"
  using assms
proof (induction cs arbitrary: x ex rs)
  case Nil
  then show ?case by simp
next
  case (Cons c cs)
  obtain r ex1 where "exporter_step c ex = Inr (r, ex1)" "exporter_at (call_effect c x) ex1"
    using exporter_step_at [OF Cons.prems(1), of c] Cons.prems(2) by auto
  then show ?case using Cons.IH [of "call_effect c x" ex1] Cons.prems(2,3) by (auto elim!: res_bind_InrE)
qed

lemma template_calls_keep:
  assumes "files_end os"
  shows "calls_ok (template_calls os mem tid fs) x" and "fold call_effect (template_calls os mem tid fs) x = x"
proof -
  have "calls_ok (map (\<lambda>(ty, l, eid). PutTemplateField tid ty l eid) fs @ [EndTemplate tid]) x"
      "fold call_effect (map (\<lambda>(ty, l, eid). PutTemplateField tid ty l eid) fs @ [EndTemplate tid]) x = x"
    by (induction fs) auto
  then show "calls_ok (template_calls os mem tid fs) x" "fold call_effect (template_calls os mem tid fs) x = x"
    using assms by (simp_all add: template_calls_def)
qed

lemma export_messages:
  assumes "udp_ready os i ex" and "255 < tid" and "ipfix_find_template tid (template_arr ex) = None"
    and "ipfix_get_free_template_slot (template_arr ex) = Some k"
    and "24 + length (concat (map spec_bytes fs)) < 65536"
    and "2 + length (concat rs) \<le> IPFIX_MAX_SENDBUFSIZE" and "20 + fields_size (concat rs) < 65536"
  shows "\<exists>ex'. exporter_run (export_calls os mem tid fs rs) ex =
      Inr (replicate (length fs + length (concat rs) + 5) 0, ex') \<and>
    msgs i ex' = msgs i ex @
      [ipfix_msg (msg_time os (i, 0)) (sequence_number ex) (observation_domain_id ex) (template_set (tid, fs)),
       ipfix_msg (msg_time os (i, 10)) (sequence_number ex) (observation_domain_id ex) (set_bytes (tid, concat rs))] \<and>
    sequence_number ex' = sequence_number ex + ucast (of_nat (length rs) :: u16)"
proof -
  note r = assms(1) [unfolded udp_ready_def]
  have fs: "length fs < 2 ^ 16" using assms(5) length_specs_ge [of fs] by simp
  obtain t where t: "exporter_run (template_calls os mem tid fs) ex = Inr (replicate (length fs + 2) 0,
        ex\<lparr>template_arr := (template_arr ex)[k := t], last_template_transmission_time := 0\<rparr>)"
      "tstate t = T_COMMITED" "fields_length t = length (template_set (tid, fs))"
      "ipfix_lo_template.template_fields t = Some (template_set (tid, fs))"
    using template_run [OF assms(2-4) fs, of os mem] r by (auto simp: Let_def length_template_set_bytes)
  let ?ex1 = "ex\<lparr>template_arr := (template_arr ex)[k := t], last_template_transmission_time := 0\<rparr>"
  have k: "k < length (template_arr ex)"
    using find_index_Some [OF assms(4) [unfolded ipfix_get_free_template_slot_def]] by simp
  have at1: "exporter_at ([], None) ?ex1"
    using exporter_run_effect [OF _ _ t(1), of "([], None)"] template_calls_keep r by simp
  obtain b where b: "exporter_run (map DataCall (set_calls tid rs)) ?ex1 = Inr (replicate (length (concat rs) + 2) 0,
        ?ex1\<lparr>sn_increment := ucast (of_nat (length rs) :: u16), data_sendbuffer := b\<rparr>)"
      "sb_rel IPFIX_PROTOCOL b [(tid, concat rs)] None"
    using set_calls_run [OF at1 assms(6), of tid] assms(7) r by auto
  let ?ex2 = "?ex1\<lparr>sn_increment := ucast (of_nat (length rs) :: u16), data_sendbuffer := b\<rparr>"
  have at2: "exporter_at ([(tid, concat rs)], None) ?ex2"
    using at1 b(2) r by (auto simp: exporter_at_def exporter_inv_def buffers_ready_def cols_inv_def)
  have items: "udp_items 0 (template_arr ?ex2) = [(k, length (template_set (tid, fs)))]"
    using udp_items_update [of 0 "template_arr ex" k t] k t(2,3) r by simp
  have tl: "length (template_set (tid, fs)) = 8 + length (concat (map spec_bytes fs))"
    by (simp add: length_template_set_bytes)
  have "\<exists>ex'. ipfix_send os ?ex2 = Inr (0, ex') \<and> msgs i ex' = msgs i ?ex2 @ udp_messages os i [(tid, concat rs)] ?ex2 \<and>
      sequence_number ex' = (if [(tid, concat rs)] = [] then sequence_number ?ex2 else sequence_number ?ex2 + sn_increment ?ex2) \<and>
      sn_increment ex' = (if [(tid, concat rs)] = [] then sn_increment ?ex2 else 0)"
    by (rule send_messages [OF at2])
      (use r items tl assms(5,7) in \<open>simp_all add: sets_size_def\<close>)
  then obtain ex' where s: "ipfix_send os ?ex2 = Inr (0, ex')"
      "msgs i ex' = msgs i ?ex2 @ udp_messages os i [(tid, concat rs)] ?ex2"
      "sequence_number ex' = sequence_number ex + ucast (of_nat (length rs) :: u16)"
    by auto
  have "items_bytes (tmem ?ex2) [(k, length (template_set (tid, fs)))] = template_set (tid, fs)"
    using k t(4) by (simp add: items_bytes_def tmem_def)
  then have "udp_messages os i [(tid, concat rs)] ?ex2 =
      [ipfix_msg (msg_time os (i, 0)) (sequence_number ex) (observation_domain_id ex) (template_set (tid, fs)),
       ipfix_msg (msg_time os (i, 10)) (sequence_number ex) (observation_domain_id ex) (set_bytes (tid, concat rs))]"
    unfolding udp_messages_def Let_def items using r by simp
  moreover have "exporter_run (export_calls os mem tid fs rs) ex =
      Inr (replicate (length fs + 2) 0 @ replicate (length (concat rs) + 2) 0 @ [0], ex')"
    using t(1) b(1) s(1) by (simp add: export_calls_def exporter_run_append)
  moreover have "replicate (length fs + 2) (0 :: int) @ replicate (length (concat rs) + 2) 0 @ [0] =
      replicate (length fs + length (concat rs) + 5) 0"
  proof -
    have one: "[0 :: int] = replicate 1 0" by simp
    show ?thesis
      unfolding one replicate_add [symmetric] by (rule arg_cong [where f = "\<lambda>n. replicate n 0"]) simp
  qed
  moreover have "msgs i ?ex2 = msgs i ex" by (simp add: msgs_def)
  ultimately show ?thesis using s(2,3) by (intro exI [where x = ex']) simp
qed

section \<open>From the exporter to the collector\<close>

lemma sid_exportTime [simp]:
  "sid_eq (s\<lparr>observationDomainId := o1, exportTime := t1\<rparr>) (s\<lparr>observationDomainId := o1, exportTime := t2\<rparr>)"
  "equiv_key sid_less (s\<lparr>observationDomainId := o1, exportTime := t1\<rparr>) (s\<lparr>observationDomainId := o1, exportTime := t2\<rparr>)"
proof -
  let ?s = "s\<lparr>observationDomainId := o1\<rparr>"
  have "sid_less (?s\<lparr>exportTime := a\<rparr>) (?s\<lparr>exportTime := b\<rparr>) = sid_less ?s ?s" for a b by (simp add: sid_less_def)
  then show "equiv_key sid_less (?s\<lparr>exportTime := t1\<rparr>) (?s\<lparr>exportTime := t2\<rparr>)"
    by (simp add: equiv_key_def sid.irrefl)
  show "sid_eq (?s\<lparr>exportTime := t1\<rparr>) (?s\<lparr>exportTime := t2\<rparr>)" by (simp add: sid_eq_def memcmp_pad)
qed

lemma collect_messages:
  assumes "m1 = ipfix_msg t1 sn odid (template_set (tid, fs))"
    and "m2 = ipfix_msg t2 sn odid (set_bytes (tid, concat rs))" and "255 < tid" and "rs \<noteq> []"
    and "\<forall>r \<in> set rs. record_fits fs r" and "0 < fixed_size fs" and "fixed_size fs < 65535"
    and "24 + length (concat (map spec_bytes fs)) < 65536" and "20 + length rs * fixed_size fs < 65536"
    and "isWithinTimeBoundary env1 t1" and "isWithinTimeBoundary env2 t2"
    and "templateLifetime ps > 0 \<longrightarrow> time_now env2 \<le> time_now env1 + int (unat (templateLifetime ps))"
  shows "\<exists>ps1 ps2 ds. processPacket env1 mem m1 (of_nat (length m1)) sid ps = Inr (0, ps1) \<and>
    processPacket env2 mem m2 (of_nat (length m2)) sid ps1 = Inr (0, ps2) \<and>
    sent ps2 = sent ps @ map onPreDestroy ds @ [TemplateRecord (msg_source sid odid t1) (wire_template tid fs)] @
      map (\<lambda>i. DataRecord (msg_source sid odid t2) (wire_template tid fs) (fixed_size fs) m2 (20 + i * fixed_size fs))
        [0..<length rs] \<and>
    snInfoMap ps2 = ipfix_account (msg_source sid odid t2) sn (of_nat (length rs)) 0
      (ipfix_account (msg_source sid odid t1) sn 0 1 (snInfoMap ps))"
proof -
  let ?s1 = "msg_source sid odid t1" and ?s2 = "msg_source sid odid t2"
  let ?ps = "wire_store env1 ?s1 (tid, fs) ps" and ?ps1 = "accounted ?s1 sn 0 1 (wire_store env1 ?s1 (tid, fs) ps)"
  have fs: "fs \<noteq> []" using assms(6) by (auto simp: fixed_size_def)
  have v: "\<not> wire_varying fs" using assms(7) by (rule fixed_not_varying)
  have tl: "length (template_set (tid, fs)) = 8 + length (concat (map spec_bytes fs))"
    by (simp add: length_template_set_bytes)
  obtain h where h: "m1 = h @ template_set (tid, fs)" "length h = 16" using assms(1) by (auto simp: ipfix_msg_def)
  have "length m1 < 65536" using h tl assms(8) by simp
  then have "ipfix_sets env1 mem ?s1 m1 (length m1) 16 0 0 ps = Inr (Some (0, 1), ?ps)"
    using ipfix_sets_templates [of m1 h "[(tid, fs)]" env1 mem ?s1 0 0 ps] h fs by simp
  from processPacket_msg [OF assms(1) _ _ assms(10) this]
  have p1: "processPacket env1 mem m1 (of_nat (length m1)) sid ps = Inr (0, ?ps1)" using tl assms(8) by simp
  obtain b where "live_template (time_now env2) (templateBuffer ?ps1) ?s2 tid = Some b"
      "templateInfo b = wire_template tid fs" "recordLength b = wire_length fs"
    using wire_store_live [of ?s1 ?s2 ps "time_now env2" env1 tid fs] assms(12) v by auto
  note p2 = processPacket_data [OF assms(2-7,9,11) this]
  obtain ds where "sent ?ps = sent ps @ map onPreDestroy ds @ [TemplateRecord ?s1 (wire_template tid fs)]"
    using wire_store_sent by blast
  with p1 p2 [of mem] show ?thesis
    by (intro exI [where x = ?ps1] exI [where x = "accounted ?s2 sn (of_nat (length rs)) 0 (?ps1\<lparr>sent := sent ?ps1 @
          map (\<lambda>i. DataRecord ?s2 (wire_template tid fs) (fixed_size fs) m2 (20 + i * fixed_size fs)) [0..<length rs]\<rparr>)"]
        exI [where x = ds]) simp
qed

lemma account_two:
  assumes "protocol sid = 17" and "std_find sid_less (msg_source sid odid t1) sm = None"
  shows "\<exists>i. std_find sid_less (msg_source sid odid t2)
      (ipfix_account (msg_source sid odid t2) sn nd nt (ipfix_account (msg_source sid odid t1) sn 0 nt' sm)) = Some i \<and>
    expectedSN i = sn + ucast nd \<and> receivedDataRecords i = ucast nd \<and> lostDataRecords i = 0 \<and> outOfOrderMessages i = 0"
proof -
  let ?s1 = "msg_source sid odid t1" and ?s2 = "msg_source sid odid t2"
  let ?i = "SNInfo_new\<lparr>expectedSN := sn, receivedMessages := 1, receivedTemplateRecords := ucast nt'\<rparr>"
  let ?sm = "std_assign sid_less ?s1 ?i sm"
  have 1: "ipfix_account ?s1 sn 0 nt' sm = ?sm"
    using assms by (simp add: ipfix_account_def SNInfo_new_def)
  have "std_find sid_less ?s2 ?sm = Some ?i" by (rule sid.find_assign_same) simp
  then show ?thesis
    unfolding 1 using assms(1)
    by (simp add: ipfix_account_def SNInfo_new_def sid.find_assign_same [OF sid.equiv_refl])
qed

text \<open>
  C1: end to end. An application defines a template and exports records with it; the
  exporter sends the collector two messages. The collector's parser accepts both, hands on the
  template with the same field ids, enterprise numbers and lengths, and then one Data Record
  per exported record, in order; reading each field of these records at the offset and length the
  template gives yields the exported values. The parser then expects the exporter's next
  sequence number and reports no loss.
\<close>

theorem export_collect:
  assumes "udp_ready os i ex" and "255 < tid" and "ipfix_find_template tid (template_arr ex) = None"
    and "ipfix_get_free_template_slot (template_arr ex) = Some k"
    and "24 + length (concat (map spec_bytes fs)) < 65536" and "0 < fixed_size fs" and "fixed_size fs < 65535"
    and "rs \<noteq> []" and "\<forall>r \<in> set rs. record_fits fs r"
    and "2 + length (concat rs) \<le> IPFIX_MAX_SENDBUFSIZE" and "20 + length rs * fixed_size fs < 65536"
    and "isWithinTimeBoundary env1 (msg_time os (i, 0))" and "isWithinTimeBoundary env2 (msg_time os (i, 10))"
    and "templateLifetime ps > 0 \<longrightarrow> time_now env2 \<le> time_now env1 + int (unat (templateLifetime ps))"
    and "protocol sid = 17"
    and "std_find sid_less (msg_source sid (observation_domain_id ex) (msg_time os (i, 0))) (snInfoMap ps) = None"
  shows "\<exists>ex' m1 m2 ps1 ps2 ds inf.
    exporter_run (export_calls os mem tid fs rs) ex = Inr (replicate (length fs + length (concat rs) + 5) 0, ex') \<and>
    msgs i ex' = msgs i ex @ [m1, m2] \<and>
    processPacket env1 mem' m1 (of_nat (length m1)) sid ps = Inr (0, ps1) \<and>
    processPacket env2 mem' m2 (of_nat (length m2)) sid ps1 = Inr (0, ps2) \<and>
    (let s1 = msg_source sid (observation_domain_id ex) (msg_time os (i, 0));
         s2 = msg_source sid (observation_domain_id ex) (msg_time os (i, 10));
         ti = wire_template tid fs; sz = fixed_size fs in
     sent ps2 = sent ps @ map onPreDestroy ds @ [TemplateRecord s1 ti] @
       map (\<lambda>j. DataRecord s2 ti sz m2 (20 + j * sz)) [0..<length rs] \<and>
     map (\<lambda>j. map (field_slice m2 (20 + j * sz)) (fieldInfo ti)) [0..<length rs] = rs \<and>
     std_find sid_less s2 (snInfoMap ps2) = Some inf \<and> expectedSN inf = sequence_number ex' \<and>
     receivedDataRecords inf = of_nat (length rs) \<and> lostDataRecords inf = 0 \<and> outOfOrderMessages inf = 0)"
proof -
  let ?t1 = "msg_time os (i, 0)" and ?t2 = "msg_time os (i, 10)" and ?o = "observation_domain_id ex"
  let ?sn = "sequence_number ex" and ?sz = "fixed_size fs" and ?n = "of_nat (length rs) :: u16"
  let ?m1 = "ipfix_msg ?t1 ?sn ?o (template_set (tid, fs))" and ?m2 = "ipfix_msg ?t2 ?sn ?o (set_bytes (tid, concat rs))"
  have size: "fields_size (concat rs) = length rs * ?sz"
    using assms(9) record_size by (induction rs) (auto simp: fields_size_def length_concat)
  have n: "(ucast ?n :: u32) = of_nat (length rs)"
  proof -
    have "length rs \<le> length rs * ?sz" using assms(6) by simp
    then have "length rs < 65536" using assms(11) by linarith
    then show ?thesis by (intro word_unat_eq_iff [THEN iffD2])
      (simp add: unsigned_ucast_eq unat_of_nat_u16 unat_of_nat_u32 take_bit_nat_eq_self)
  qed
  obtain ex' where ex': "exporter_run (export_calls os mem tid fs rs) ex = Inr (replicate (length fs + length (concat rs) + 5) 0, ex')"
      "msgs i ex' = msgs i ex @ [?m1, ?m2]" "sequence_number ex' = ?sn + ucast ?n"
    using export_messages [OF assms(1-5,10), of mem] assms(11) size by auto
  obtain ps1 ps2 ds where ps: "processPacket env1 mem' ?m1 (of_nat (length ?m1)) sid ps = Inr (0, ps1)"
      "processPacket env2 mem' ?m2 (of_nat (length ?m2)) sid ps1 = Inr (0, ps2)"
      "sent ps2 = sent ps @ map onPreDestroy ds @ [TemplateRecord (msg_source sid ?o ?t1) (wire_template tid fs)] @
        map (\<lambda>i. DataRecord (msg_source sid ?o ?t2) (wire_template tid fs) ?sz ?m2 (20 + i * ?sz)) [0..<length rs]"
      "snInfoMap ps2 = ipfix_account (msg_source sid ?o ?t2) ?sn ?n 0 (ipfix_account (msg_source sid ?o ?t1) ?sn 0 1 (snInfoMap ps))"
    using collect_messages [OF refl refl assms(2,8,9,6,7,5,11,12,13,14)] by blast
  obtain inf where "std_find sid_less (msg_source sid ?o ?t2) (snInfoMap ps2) = Some inf" "expectedSN inf = ?sn + ucast ?n"
      "receivedDataRecords inf = of_nat (length rs)" "lostDataRecords inf = 0" "outOfOrderMessages inf = 0"
    using account_two [OF assms(15,16), of ?t2 ?sn ?n 0 1] ps(4) n by auto
  moreover have "map (\<lambda>j. map (field_slice ?m2 (20 + j * ?sz)) (fieldInfo (wire_template tid fs))) [0..<length rs] = rs"
    using slices_all [OF assms(9), of ?m2 "take 20 ?m2" "[]"] assms(7) fixed_not_varying [OF assms(7)]
    by (simp add: wire_template_def ipfix_msg_def set_bytes_def)
  ultimately show ?thesis
    using ex' ps by (intro exI [where x = ex'] exI [where x = ?m1] exI [where x = ?m2] exI [where x = ps1]
        exI [where x = ps2] exI [where x = ds] exI [where x = inf]) (simp add: Let_def)
qed

definition idle_exporter :: ipfix_exporter where
  "idle_exporter = (example_exporter IPFIX_PROTOCOL UDP T_UNUSED (ipfix_init_sendbuffer undefined IPFIX_PROTOCOL))\<lparr>sn_increment := 0\<rparr>"

lemma idle_exporter_ready: "udp_ready example_os 0 idle_exporter"
proof -
  have "exporter_at ([], None) idle_exporter"
    using example_exporter_at [OF init_sb_rel, of UDP IPFIX_PROTOCOL T_UNUSED undefined]
    by (simp add: idle_exporter_def exporter_at_def exporter_inv_def buffers_ready_def cols_inv_def)
  then show ?thesis
    by (simp add: udp_ready_def files_end_example idle_exporter_def example_exporter_simps)
      (simp add: example_exporter_def example_os_def)
qed

theorem export_collect_witness:
  "\<exists>ex' m1 m2 ps1 ps2.
    exporter_run (export_calls example_os (\<lambda>_. 0) 257 [(8, 4, 0), (100, 2, 9)] [[[10, 0, 0, 1], [1, 2]], [[10, 0, 0, 2], [3, 4]]])
      idle_exporter = Inr (replicate 11 0, ex') \<and>
    msgs 0 ex' = [m1, m2] \<and>
    processPacket example_env (\<lambda>_. 0) m1 (of_nat (length m1)) example_source IpfixParser_new = Inr (0, ps1) \<and>
    processPacket example_env (\<lambda>_. 0) m2 (of_nat (length m2)) example_source ps1 = Inr (0, ps2) \<and>
    map (\<lambda>j. map (field_slice m2 (20 + j * 6)) (fieldInfo (wire_template 257 [(8, 4, 0), (100, 2, 9)]))) [0, 1] =
      [[[10, 0, 0, 1], [1, 2]], [[10, 0, 0, 2], [3, 4]]]"
proof -
  let ?fs = "[(8, 4, 0), (100, 2, 9)] :: tfield list" and ?rs = "[[[10, 0, 0, 1], [1, 2]], [[10, 0, 0, 2], [3, 4]]] :: bytes list list"
  have "ipfix_find_template 257 (template_arr idle_exporter) = None"
      "ipfix_get_free_template_slot (template_arr idle_exporter) = Some 0" "msgs 0 idle_exporter = []"
    by (simp_all add: idle_exporter_def example_exporter_def example_lo_template_def ipfix_find_template_def
        ipfix_get_free_template_slot_def msgs_def)
  moreover have "24 + length (concat (map spec_bytes ?fs)) < 65536"
    by (simp add: spec_bytes_def ipfix_enterprise_flag_set_def IPFIX_ENTERPRISE_BIT_def)
  moreover have "fixed_size ?fs = 6" "\<forall>r \<in> set ?rs. record_fits ?fs r" "2 + length (concat ?rs) \<le> IPFIX_MAX_SENDBUFSIZE"
    by (simp_all add: fixed_size_def record_fits_def IPFIX_MAX_SENDBUFSIZE_def)
  moreover have "isWithinTimeBoundary example_env t" "protocol example_source = 17" "snInfoMap IpfixParser_new = []" for t
    by (simp_all add: isWithinTimeBoundary_def example_defs IpfixParser_new_def)
  ultimately obtain ex' m1 m2 ps1 ps2 where
    "exporter_run (export_calls example_os (\<lambda>_. 0) 257 ?fs ?rs) idle_exporter = Inr (replicate 11 0, ex')"
    "msgs 0 ex' = [m1, m2]"
    "processPacket example_env (\<lambda>_. 0) m1 (of_nat (length m1)) example_source IpfixParser_new = Inr (0, ps1)"
    "processPacket example_env (\<lambda>_. 0) m2 (of_nat (length m2)) example_source ps1 = Inr (0, ps2)"
    "map (\<lambda>j. map (field_slice m2 (20 + j * 6)) (fieldInfo (wire_template 257 ?fs))) [0, 1] = ?rs"
    using export_collect [OF idle_exporter_ready, of 257 0 ?fs ?rs example_env example_env IpfixParser_new example_source
        "\<lambda>_. 0" "\<lambda>_. 0"]
    by (auto simp: Let_def del: map_eq_Cons_D)
  then show ?thesis by (intro exI conjI)
qed

end
