(* ===== verification/Crc.thy ===== *)
theory Crc
  imports Vermont_Prelude
begin

text \<open>
  The CRC hash functions (src/src/common/crc.hpp), with which the aggregators and detectors
  choose hash buckets. Both are driven by a table; the theory shows that they compute the bit
  by bit division by their polynomials, and how the results of parts of a stream combine.
\<close>

section \<open>The code\<close>

definition crc16_table :: "u16 list" where
  "crc16_table =
     [0x0000, 0x1021, 0x2042, 0x3063, 0x4084, 0x50A5, 0x60C6, 0x70E7,
      0x8108, 0x9129, 0xA14A, 0xB16B, 0xC18C, 0xD1AD, 0xE1CE, 0xF1EF,
      0x1231, 0x0210, 0x3273, 0x2252, 0x52B5, 0x4294, 0x72F7, 0x62D6,
      0x9339, 0x8318, 0xB37B, 0xA35A, 0xD3BD, 0xC39C, 0xF3FF, 0xE3DE,
      0x2462, 0x3443, 0x0420, 0x1401, 0x64E6, 0x74C7, 0x44A4, 0x5485,
      0xA56A, 0xB54B, 0x8528, 0x9509, 0xE5EE, 0xF5CF, 0xC5AC, 0xD58D,
      0x3653, 0x2672, 0x1611, 0x0630, 0x76D7, 0x66F6, 0x5695, 0x46B4,
      0xB75B, 0xA77A, 0x9719, 0x8738, 0xF7DF, 0xE7FE, 0xD79D, 0xC7BC,
      0x48C4, 0x58E5, 0x6886, 0x78A7, 0x0840, 0x1861, 0x2802, 0x3823,
      0xC9CC, 0xD9ED, 0xE98E, 0xF9AF, 0x8948, 0x9969, 0xA90A, 0xB92B,
      0x5AF5, 0x4AD4, 0x7AB7, 0x6A96, 0x1A71, 0x0A50, 0x3A33, 0x2A12,
      0xDBFD, 0xCBDC, 0xFBBF, 0xEB9E, 0x9B79, 0x8B58, 0xBB3B, 0xAB1A,
      0x6CA6, 0x7C87, 0x4CE4, 0x5CC5, 0x2C22, 0x3C03, 0x0C60, 0x1C41,
      0xEDAE, 0xFD8F, 0xCDEC, 0xDDCD, 0xAD2A, 0xBD0B, 0x8D68, 0x9D49,
      0x7E97, 0x6EB6, 0x5ED5, 0x4EF4, 0x3E13, 0x2E32, 0x1E51, 0x0E70,
      0xFF9F, 0xEFBE, 0xDFDD, 0xCFFC, 0xBF1B, 0xAF3A, 0x9F59, 0x8F78,
      0x9188, 0x81A9, 0xB1CA, 0xA1EB, 0xD10C, 0xC12D, 0xF14E, 0xE16F,
      0x1080, 0x00A1, 0x30C2, 0x20E3, 0x5004, 0x4025, 0x7046, 0x6067,
      0x83B9, 0x9398, 0xA3FB, 0xB3DA, 0xC33D, 0xD31C, 0xE37F, 0xF35E,
      0x02B1, 0x1290, 0x22F3, 0x32D2, 0x4235, 0x5214, 0x6277, 0x7256,
      0xB5EA, 0xA5CB, 0x95A8, 0x8589, 0xF56E, 0xE54F, 0xD52C, 0xC50D,
      0x34E2, 0x24C3, 0x14A0, 0x0481, 0x7466, 0x6447, 0x5424, 0x4405,
      0xA7DB, 0xB7FA, 0x8799, 0x97B8, 0xE75F, 0xF77E, 0xC71D, 0xD73C,
      0x26D3, 0x36F2, 0x0691, 0x16B0, 0x6657, 0x7676, 0x4615, 0x5634,
      0xD94C, 0xC96D, 0xF90E, 0xE92F, 0x99C8, 0x89E9, 0xB98A, 0xA9AB,
      0x5844, 0x4865, 0x7806, 0x6827, 0x18C0, 0x08E1, 0x3882, 0x28A3,
      0xCB7D, 0xDB5C, 0xEB3F, 0xFB1E, 0x8BF9, 0x9BD8, 0xABBB, 0xBB9A,
      0x4A75, 0x5A54, 0x6A37, 0x7A16, 0x0AF1, 0x1AD0, 0x2AB3, 0x3A92,
      0xFD2E, 0xED0F, 0xDD6C, 0xCD4D, 0xBDAA, 0xAD8B, 0x9DE8, 0x8DC9,
      0x7C26, 0x6C07, 0x5C64, 0x4C45, 0x3CA2, 0x2C83, 0x1CE0, 0x0CC1,
      0xEF1F, 0xFF3E, 0xCF5D, 0xDF7C, 0xAF9B, 0xBFBA, 0x8FD9, 0x9FF8,
      0x6E17, 0x7E36, 0x4E55, 0x5E74, 0x2E93, 0x3EB2, 0x0ED1, 0x1EF0]"

text \<open>One round of the loop: \<open>byte ^ (i >> 8)\<close> is cut to 8 bits.\<close>

definition crc16_step :: "u16 \<Rightarrow> byte \<Rightarrow> u16" where
  "crc16_step i b =
     (let index = (ucast ((ucast b :: u16) XOR drop_bit 8 i) :: byte);
          entry = crc16_table ! unat index
      in push_bit 8 i XOR entry)"

fun crc16_loop :: "nat \<Rightarrow> bytes \<Rightarrow> nat \<Rightarrow> u16 \<Rightarrow> u16 res" where
  "crc16_loop 0 dat pos i = Inr i"
| "crc16_loop (Suc n) dat pos i = res_bind (rd8 dat pos) (\<lambda>b. crc16_loop n dat (pos + 1) (crc16_step i b))"

definition crc16 :: "u16 \<Rightarrow> u16 \<Rightarrow> bytes \<Rightarrow> u16 res" where
  "crc16 seed n dat = crc16_loop (unat n) dat 0 seed"

definition crc32_tab :: "u32 list" where
  "crc32_tab =
     [0x00000000, 0x77073096, 0xee0e612c, 0x990951ba, 0x076dc419, 0x706af48f,
      0xe963a535, 0x9e6495a3, 0x0edb8832, 0x79dcb8a4, 0xe0d5e91e, 0x97d2d988,
      0x09b64c2b, 0x7eb17cbd, 0xe7b82d07, 0x90bf1d91, 0x1db71064, 0x6ab020f2,
      0xf3b97148, 0x84be41de, 0x1adad47d, 0x6ddde4eb, 0xf4d4b551, 0x83d385c7,
      0x136c9856, 0x646ba8c0, 0xfd62f97a, 0x8a65c9ec, 0x14015c4f, 0x63066cd9,
      0xfa0f3d63, 0x8d080df5, 0x3b6e20c8, 0x4c69105e, 0xd56041e4, 0xa2677172,
      0x3c03e4d1, 0x4b04d447, 0xd20d85fd, 0xa50ab56b, 0x35b5a8fa, 0x42b2986c,
      0xdbbbc9d6, 0xacbcf940, 0x32d86ce3, 0x45df5c75, 0xdcd60dcf, 0xabd13d59,
      0x26d930ac, 0x51de003a, 0xc8d75180, 0xbfd06116, 0x21b4f4b5, 0x56b3c423,
      0xcfba9599, 0xb8bda50f, 0x2802b89e, 0x5f058808, 0xc60cd9b2, 0xb10be924,
      0x2f6f7c87, 0x58684c11, 0xc1611dab, 0xb6662d3d, 0x76dc4190, 0x01db7106,
      0x98d220bc, 0xefd5102a, 0x71b18589, 0x06b6b51f, 0x9fbfe4a5, 0xe8b8d433,
      0x7807c9a2, 0x0f00f934, 0x9609a88e, 0xe10e9818, 0x7f6a0dbb, 0x086d3d2d,
      0x91646c97, 0xe6635c01, 0x6b6b51f4, 0x1c6c6162, 0x856530d8, 0xf262004e,
      0x6c0695ed, 0x1b01a57b, 0x8208f4c1, 0xf50fc457, 0x65b0d9c6, 0x12b7e950,
      0x8bbeb8ea, 0xfcb9887c, 0x62dd1ddf, 0x15da2d49, 0x8cd37cf3, 0xfbd44c65,
      0x4db26158, 0x3ab551ce, 0xa3bc0074, 0xd4bb30e2, 0x4adfa541, 0x3dd895d7,
      0xa4d1c46d, 0xd3d6f4fb, 0x4369e96a, 0x346ed9fc, 0xad678846, 0xda60b8d0,
      0x44042d73, 0x33031de5, 0xaa0a4c5f, 0xdd0d7cc9, 0x5005713c, 0x270241aa,
      0xbe0b1010, 0xc90c2086, 0x5768b525, 0x206f85b3, 0xb966d409, 0xce61e49f,
      0x5edef90e, 0x29d9c998, 0xb0d09822, 0xc7d7a8b4, 0x59b33d17, 0x2eb40d81,
      0xb7bd5c3b, 0xc0ba6cad, 0xedb88320, 0x9abfb3b6, 0x03b6e20c, 0x74b1d29a,
      0xead54739, 0x9dd277af, 0x04db2615, 0x73dc1683, 0xe3630b12, 0x94643b84,
      0x0d6d6a3e, 0x7a6a5aa8, 0xe40ecf0b, 0x9309ff9d, 0x0a00ae27, 0x7d079eb1,
      0xf00f9344, 0x8708a3d2, 0x1e01f268, 0x6906c2fe, 0xf762575d, 0x806567cb,
      0x196c3671, 0x6e6b06e7, 0xfed41b76, 0x89d32be0, 0x10da7a5a, 0x67dd4acc,
      0xf9b9df6f, 0x8ebeeff9, 0x17b7be43, 0x60b08ed5, 0xd6d6a3e8, 0xa1d1937e,
      0x38d8c2c4, 0x4fdff252, 0xd1bb67f1, 0xa6bc5767, 0x3fb506dd, 0x48b2364b,
      0xd80d2bda, 0xaf0a1b4c, 0x36034af6, 0x41047a60, 0xdf60efc3, 0xa867df55,
      0x316e8eef, 0x4669be79, 0xcb61b38c, 0xbc66831a, 0x256fd2a0, 0x5268e236,
      0xcc0c7795, 0xbb0b4703, 0x220216b9, 0x5505262f, 0xc5ba3bbe, 0xb2bd0b28,
      0x2bb45a92, 0x5cb36a04, 0xc2d7ffa7, 0xb5d0cf31, 0x2cd99e8b, 0x5bdeae1d,
      0x9b64c2b0, 0xec63f226, 0x756aa39c, 0x026d930a, 0x9c0906a9, 0xeb0e363f,
      0x72076785, 0x05005713, 0x95bf4a82, 0xe2b87a14, 0x7bb12bae, 0x0cb61b38,
      0x92d28e9b, 0xe5d5be0d, 0x7cdcefb7, 0x0bdbdf21, 0x86d3d2d4, 0xf1d4e242,
      0x68ddb3f8, 0x1fda836e, 0x81be16cd, 0xf6b9265b, 0x6fb077e1, 0x18b74777,
      0x88085ae6, 0xff0f6a70, 0x66063bca, 0x11010b5c, 0x8f659eff, 0xf862ae69,
      0x616bffd3, 0x166ccf45, 0xa00ae278, 0xd70dd2ee, 0x4e048354, 0x3903b3c2,
      0xa7672661, 0xd06016f7, 0x4969474d, 0x3e6e77db, 0xaed16a4a, 0xd9d65adc,
      0x40df0b66, 0x37d83bf0, 0xa9bcae53, 0xdebb9ec5, 0x47b2cf7f, 0x30b5ffe9,
      0xbdbdf21c, 0xcabac28a, 0x53b39330, 0x24b4a3a6, 0xbad03605, 0xcdd70693,
      0x54de5729, 0x23d967bf, 0xb3667a2e, 0xc4614ab8, 0x5d681b02, 0x2a6f2b94,
      0xb40bbe37, 0xc30c8ea1, 0x5a05df1b, 0x2d02ef8d]"

definition crc32_step :: "u32 \<Rightarrow> byte \<Rightarrow> u32" where
  "crc32_step crc b = crc32_tab ! unat ((crc XOR ucast b) AND 0xFF) XOR drop_bit 8 crc"

fun crc32_loop :: "nat \<Rightarrow> bytes \<Rightarrow> nat \<Rightarrow> u32 \<Rightarrow> u32 res" where
  "crc32_loop 0 dat pos crc = Inr crc"
| "crc32_loop (Suc n) dat pos crc = res_bind (rd8 dat pos) (\<lambda>b. crc32_loop n dat (pos + 1) (crc32_step crc b))"

definition crc32 :: "u32 \<Rightarrow> u32 \<Rightarrow> bytes \<Rightarrow> u32 res" where
  "crc32 seed n dat = res_bind (crc32_loop (unat n) dat 0 seed) (\<lambda>crc. Inr (crc XOR NOT 0))"

section \<open>Division bit by bit\<close>

text \<open>
  The polynomials are x^16 + x^12 + x^5 + 1, highest bit first, and the reflected polynomial
  of Ethernet, lowest bit first.
\<close>

definition shift16 :: "u16 \<Rightarrow> u16" where
  "shift16 c = push_bit 1 c XOR (if bit c 15 then 0x1021 else 0)"

definition shift32 :: "u32 \<Rightarrow> u32" where
  "shift32 c = drop_bit 1 c XOR (if bit c 0 then 0xEDB88320 else 0)"

definition crc16_bits :: "u16 \<Rightarrow> bytes \<Rightarrow> u16" where
  "crc16_bits seed bs = foldl (\<lambda>c b. (shift16 ^^ 8) (c XOR push_bit 8 (ucast b))) seed bs"

definition crc32_bits :: "u32 \<Rightarrow> bytes \<Rightarrow> u32" where
  "crc32_bits seed bs = foldl (\<lambda>c b. (shift32 ^^ 8) (c XOR ucast b)) seed bs"

text \<open>Both are linear for the exclusive or, and a linear function is known from the powers of two.\<close>

fun span :: "('a::len word \<Rightarrow> 'a word) \<Rightarrow> nat \<Rightarrow> 'a word list" where
  "span g 0 = [0]"
| "span g (Suc k) = span g k @ map (\<lambda>x. g (2 ^ k) XOR x) (span g k)"

lemma of_nat_split:
  assumes "n < 2 ^ k"
  shows "of_nat (2 ^ k + n) = (2 ^ k XOR of_nat n :: 'a::len word)"
proof -
  have "\<not> bit n k" using assms by (simp add: bit_iff_odd)
  then have "(2 :: nat) ^ k AND n = 0" by (intro bit_eqI) (auto simp: bit_and_iff bit_exp_iff)
  then have "2 ^ k + n = 2 ^ k XOR n"
    by (simp add: disjunctive_xor_eq_or disjunctive_add_eq_or)
  then show ?thesis
    by (simp only: of_nat_xor_eq of_nat_power of_nat_numeral)
qed

locale xor_linear =
  fixes g :: "'a::len word \<Rightarrow> 'a word"
  assumes linear: "g (a XOR b) = g a XOR g b"
begin

lemma zero: "g 0 = 0"
  using linear [of 0 0] by simp

lemma pow: "(g ^^ n) (a XOR b) = (g ^^ n) a XOR (g ^^ n) b"
  by (induction n arbitrary: a b) (simp_all add: linear funpow_swap1)

lemma span_all: "span g k = map (\<lambda>n. g (of_nat n)) [0..<2 ^ k]"
proof (induction k)
  case 0
  show ?case by (simp add: zero)
next
  case (Suc k)
  have "map (\<lambda>n. g (of_nat n)) [2 ^ k..<2 ^ k + 2 ^ k] = map (\<lambda>n. g (of_nat (2 ^ k + n))) [0..<2 ^ k]"
    by (rule nth_equalityI) simp_all
  also have "\<dots> = map (\<lambda>n. g (2 ^ k) XOR g (of_nat n)) [0..<2 ^ k]"
    using of_nat_split [where 'a = 'a] by (intro map_cong refl) (simp add: linear)
  finally show ?case
    by (simp add: Suc mult_2 upt_add_eq_append [of 0] comp_def)
qed

end

interpretation s16: xor_linear shift16
  by unfold_locales (rule bit_eqI, auto simp: shift16_def bit_simps)

interpretation s32: xor_linear shift32
  by unfold_locales (rule bit_eqI, auto simp: shift32_def bit_simps)

text \<open>The effect of the eight shifts for one byte, placed at the end where it enters.\<close>

definition byte16 :: "u16 \<Rightarrow> u16" where "byte16 c = (shift16 ^^ 8) (push_bit 8 c)"
definition byte32 :: "u32 \<Rightarrow> u32" where "byte32 c = (shift32 ^^ 8) c"

interpretation b16: xor_linear byte16
  by unfold_locales (simp add: byte16_def push_bit_xor s16.pow)

interpretation b32: xor_linear byte32
  by unfold_locales (simp add: byte32_def s32.pow)

lemma funpow_8: "(f ^^ 8) x = f (f (f (f (f (f (f (f x)))))))"
  by (simp add: eval_nat_numeral)

lemma byte16_powers:
  "byte16 1 = 0x1021"
  "byte16 2 = 0x2042"
  "byte16 4 = 0x4084"
  "byte16 8 = 0x8108"
  "byte16 16 = 0x1231"
  "byte16 32 = 0x2462"
  "byte16 64 = 0x48c4"
  "byte16 128 = 0x9188"
  by (simp_all add: byte16_def funpow_8 shift16_def)

lemma byte32_powers:
  "byte32 1 = 0x77073096"
  "byte32 2 = 0xee0e612c"
  "byte32 4 = 0x76dc419"
  "byte32 8 = 0xedb8832"
  "byte32 16 = 0x1db71064"
  "byte32 32 = 0x3b6e20c8"
  "byte32 64 = 0x76dc4190"
  "byte32 128 = 0xedb88320"
  by (simp_all add: byte32_def funpow_8 shift32_def)

lemma span_numeral:
  "span g (numeral w) = span g (pred_numeral w) @ map (\<lambda>x. g (2 ^ pred_numeral w) XOR x) (span g (pred_numeral w))"
  "span g 1 = [0, g 1]"
  by (simp_all add: numeral_eq_Suc)

lemma crc16_table_entries: "crc16_table = map (\<lambda>n. byte16 (of_nat n)) [0..<256]"
proof -
  have "crc16_table = span byte16 8"
    by (simp add: crc16_table_def span_numeral byte16_powers)
  then show ?thesis using b16.span_all [of 8] by simp
qed

lemma crc32_tab_entries: "crc32_tab = map (\<lambda>n. byte32 (of_nat n)) [0..<256]"
proof -
  have "crc32_tab = span byte32 8"
    by (simp add: crc32_tab_def span_numeral byte32_powers)
  then show ?thesis using b32.span_all [of 8] by simp
qed

lemma table_lookup:
  "crc16_table ! unat (b :: byte) = byte16 (ucast b)" "crc32_tab ! unat b = byte32 (ucast b)"
  using byte_lt [of b]
  by (simp_all add: crc16_table_entries crc32_tab_entries del: upt_conv_Cons)

lemma bit_255: "bit (0xFF :: int) n \<longleftrightarrow> n < 8"
proof -
  have "(0xFF :: int) = mask 8" by (simp add: mask_eq_exp_minus_1)
  then show ?thesis by (simp only: bit_mask_iff) simp
qed

lemma bit_byte: "bit (b :: byte) n \<Longrightarrow> n < 8"
  using bit_imp_le_length [of b n] by simp

lemma shift16_low:
  "n \<le> 8 \<Longrightarrow> (shift16 ^^ n) (take_bit 8 i) = push_bit n (take_bit 8 i)"
proof (induction n)
  case (Suc n)
  have "\<not> bit (push_bit n (take_bit 8 i)) 15" using Suc.prems by (auto simp: bit_simps)
  then have "shift16 (push_bit n (take_bit 8 i)) = push_bit (Suc n) (take_bit 8 i)"
    by (simp only: shift16_def if_False push_bit_push_bit) simp
  with Suc show ?case by simp
qed simp

lemma shift32_high:
  "n \<le> 8 \<Longrightarrow> (shift32 ^^ n) (push_bit 8 c) = drop_bit n (push_bit 8 c)"
proof (induction n)
  case (Suc n)
  have "\<not> bit (drop_bit n (push_bit 8 c)) 0" using Suc.prems by (auto simp: bit_simps)
  with Suc show ?case by (simp add: shift32_def)
qed simp

lemma crc16_step_bits: "crc16_step i b = (shift16 ^^ 8) (i XOR push_bit 8 (ucast b))"
proof -
  let ?x = "ucast ((ucast b :: u16) XOR drop_bit 8 i) :: byte"
  have "i XOR push_bit 8 (ucast b) = push_bit 8 (ucast ?x) XOR take_bit 8 i"
    by (rule bit_eqI) (auto simp: bit_simps dest: bit_byte)
  moreover have "push_bit 8 (take_bit 8 i) = push_bit 8 i"
    by (rule bit_eqI) (auto simp: bit_simps)
  ultimately show ?thesis
    by (simp add: crc16_step_def Let_def table_lookup byte16_def s16.pow shift16_low [of 8] xor.commute)
qed

lemma crc32_step_bits: "crc32_step c b = (shift32 ^^ 8) (c XOR ucast b)"
proof -
  let ?h = "push_bit 8 (drop_bit 8 c)"
  obtain x :: byte where x: "(c XOR ucast b) AND 0xFF = ucast x" and c: "c XOR ucast b = ucast x XOR ?h"
  proof (rule that)
    show "(c XOR ucast b) AND 0xFF = ucast (ucast (c XOR ucast b) :: byte)"
      by (rule bit_eqI) (auto simp: bit_simps bit_255)
    show "c XOR ucast b = ucast (ucast (c XOR ucast b) :: byte) XOR ?h"
      by (rule bit_eqI) (auto simp: bit_simps dest: bit_byte)
  qed
  have "drop_bit 8 ?h = drop_bit 8 c"
    by (rule bit_eqI) (auto simp: bit_simps dest: bit_imp_le_length)
  moreover have "unat (ucast x :: u32) = unat x" for x :: byte
    using byte_lt [of x] by (simp add: unsigned_ucast_eq take_bit_nat_eq_self)
  ultimately show ?thesis
    unfolding crc32_step_def x unfolding c by (simp add: table_lookup byte32_def s32.pow shift32_high [of 8])
qed

section \<open>Properties\<close>

lemma crc16_loop_bits:
  "pos + n \<le> length dat \<Longrightarrow> crc16_loop n dat pos i = Inr (crc16_bits i (take n (drop pos dat)))"
proof (induction n arbitrary: pos i)
  case (Suc n)
  then have "take (Suc n) (drop pos dat) = dat ! pos # take n (drop (Suc pos) dat)"
    by (simp add: Cons_nth_drop_Suc [symmetric])
  with Suc show ?case by (simp add: rd8_ok crc16_bits_def crc16_step_bits)
qed (simp add: crc16_bits_def)

lemma crc32_loop_bits:
  "pos + n \<le> length dat \<Longrightarrow> crc32_loop n dat pos c = Inr (crc32_bits c (take n (drop pos dat)))"
proof (induction n arbitrary: pos c)
  case (Suc n)
  then have "take (Suc n) (drop pos dat) = dat ! pos # take n (drop (Suc pos) dat)"
    by (simp add: Cons_nth_drop_Suc [symmetric])
  with Suc show ?case by (simp add: rd8_ok crc32_bits_def crc32_step_bits)
qed (simp add: crc32_bits_def)

lemma crc16_all: "length zs < 2 ^ 16 \<Longrightarrow> crc16 seed (of_nat (length zs)) zs = Inr (crc16_bits seed zs)"
  by (simp add: crc16_def crc16_loop_bits unat_of_nat_u16)

lemma crc32_all: "length zs < 2 ^ 16 \<Longrightarrow> crc32 seed (of_nat (length zs)) zs = Inr (NOT (crc32_bits seed zs))"
  by (simp add: crc32_def crc32_loop_bits unat_of_nat_u32)

text \<open>
  C24: the two table-driven checksums, on any data at least as long as the given length, compute
  the remainders of the bit by bit divisions; crc32 returns the complement of its remainder.
  Every entry of both tables is the right one.
\<close>

theorem crc_tables_exact:
  assumes "unat n16 \<le> length dat" and "unat n32 \<le> length dat'"
  shows "crc16 seed n16 dat = Inr (crc16_bits seed (take (unat n16) dat)) \<and>
    crc32 seed' n32 dat' = Inr (NOT (crc32_bits seed' (take (unat n32) dat')))"
  using assms by (simp add: crc16_def crc32_def crc16_loop_bits crc32_loop_bits)

theorem crc_tables_exact_witness:
  "crc16 0 2 [49, 50] = Inr 0x20b5 \<and>
   crc32 0xFFFFFFFF 2 [49, 50] = Inr 0x4f5344cd"
  using crc_tables_exact [of 2 "[49, 50]" 2 "[49, 50]" 0 "0xFFFFFFFF"]
  by (simp add: crc16_bits_def crc32_bits_def funpow_8 shift16_def shift32_def)

text \<open>
  A checksum over two parts of a stream. For crc16 the result for the first part is the seed
  for the second; for crc32 its complement is, as crc32 complements its result: a chain of
  crc32 calls that passes results on is not the checksum of the whole.
\<close>

theorem crc_cumulative:
  assumes "length xs + length ys < 2 ^ 16"
  shows "crc16 seed (of_nat (length (xs @ ys))) (xs @ ys) =
      res_bind (crc16 seed (of_nat (length xs)) xs) (\<lambda>c. crc16 c (of_nat (length ys)) ys) \<and>
    crc32 seed' (of_nat (length (xs @ ys))) (xs @ ys) =
      res_bind (crc32 seed' (of_nat (length xs)) xs) (\<lambda>c. crc32 (NOT c) (of_nat (length ys)) ys)"
proof -
  have "length (xs @ ys) < 2 ^ 16" "length xs < 2 ^ 16" "length ys < 2 ^ 16" using assms by simp_all
  note this [THEN crc16_all] this [THEN crc32_all]
  then show ?thesis
    by (simp add: crc16_bits_def crc32_bits_def del: length_append)
qed

theorem crc_cumulative_witness:
  "crc16 0 (of_nat (length [49, 50, 51 :: byte])) [49, 50, 51] =
     res_bind (crc16 0 (of_nat (length [49, 50 :: byte])) [49, 50]) (\<lambda>c. crc16 c (of_nat (length [51 :: byte])) [51])"
  using crc_cumulative [of "[49, 50]" "[51]" 0 0] by simp

end
