(* ===== verification/Packet.thy ===== *)
theory Packet
  imports Encoding
begin

text \<open>
  Captured packets (src/src/modules/packet/Packet.h): the copy of the captured bytes, the
  classification of the network and transport headers, and the access to fields of a packet.

  The member \<open>data\<close> of a packet is one array: 30 bytes for the layer 2 header, then
  PCAP_MAX_CAPTURE_LENGTH bytes from the network header on. A read outside of it is the fault
  \<open>OutOfBounds\<close>; a position relative to the network header is counted from byte 30. The bytes
  of the array that the captured packet does not overwrite keep what the object held before. The
  pointers \<open>transportHeader\<close> and \<open>payload\<close> are positions relative to the network header, or
  \<open>None\<close> for NULL. Offsets and lengths are \<open>nat\<close>: each offset is bounded by the array, since
  the code reads there, before it grows by at most 2048.
\<close>

section \<open>The packet\<close>

datatype ip_protocol_type = NONE | TCP | UDP | ICMP | IGMP

definition PCAP_MAX_CAPTURE_LENGTH :: nat where "PCAP_MAX_CAPTURE_LENGTH = 128"
definition maxLayer2HeaderLength :: nat where "maxLayer2HeaderLength = 30"

definition PCLASS_NET_IP4 :: u64 where "PCLASS_NET_IP4 = 0x00000001"
definition PCLASS_NET_IP6 :: u64 where "PCLASS_NET_IP6 = 0x00000002"
definition PCLASS_TRN_TCP :: u64 where "PCLASS_TRN_TCP = 0x00001000"
definition PCLASS_TRN_UDP :: u64 where "PCLASS_TRN_UDP = 0x00002000"
definition PCLASS_TRN_ICMP :: u64 where "PCLASS_TRN_ICMP = 0x00004000"
definition PCLASS_TRN_IGMP :: u64 where "PCLASS_TRN_IGMP = 0x00008000"
definition PCLASS_TRNMASK :: u64 where "PCLASS_TRNMASK = 0x00fff000"
definition PCLASS_PAYLOAD :: u64 where "PCLASS_PAYLOAD = 0x80000000"

lemmas pclass_defs = PCLASS_NET_IP4_def PCLASS_NET_IP6_def PCLASS_TRN_TCP_def PCLASS_TRN_UDP_def
  PCLASS_TRN_ICMP_def PCLASS_TRN_IGMP_def PCLASS_TRNMASK_def PCLASS_PAYLOAD_def

datatype head_type = HEAD_RAW | HEAD_NETWORK | HEAD_NETWORK_AND_BEYOND | HEAD_TRANSPORT
  | HEAD_TRANSPORT_AND_BEYOND | HEAD_PAYLOAD | HEAD_NONE

record packet =
  observationDomainID :: u32
  layer2HeaderLen :: nat
  data :: bytes
  transportHeader :: "nat option"
  payload :: "nat option"
  transportHeaderOffset :: nat
  payloadOffset :: nat
  classification :: u64
  ipProtocolType :: ip_protocol_type
  data_length :: nat
  pcapPacketLength :: u32
  timestamp :: "int \<times> int"
  time_sec_nbo :: bytes
  time_usec_nbo :: bytes
  time_msec_nbo :: bytes
  varlength :: bytes
  varlength_index :: nat

text \<open>Reads relative to the start of the network header.\<close>

definition net8 :: "packet \<Rightarrow> nat \<Rightarrow> byte res" where
  "net8 p i = rd8 (data p) (maxLayer2HeaderLength + i)"

definition net16 :: "packet \<Rightarrow> nat \<Rightarrow> u16 res" where
  "net16 p i = rd16 (data p) (maxLayer2HeaderLength + i)"

section \<open>Classification\<close>

text \<open>
  The loop over the IPv6 extension headers: the protocol after them and the offset of the
  transport header. 0, 60, 43 and 135 are Hop-by-Hop Options, Destination Options, Routing and
  Mobility; 44 is Fragment and 51 the Authentication Header.
\<close>

function ext_headers :: "packet \<Rightarrow> byte \<Rightarrow> nat \<Rightarrow> (byte \<times> nat) res" where
  "ext_headers p protocol off =
     (if protocol \<in> {0, 60, 43, 135}
      then res_bind (net8 p off) (\<lambda>nh. res_bind (net8 p (off + 1)) (\<lambda>hl.
             ext_headers p nh (off + (unat hl * 8 + 8))))
      else if protocol = 44
      then res_bind (net16 p (off + 2)) (\<lambda>f.
             if f AND 0xFFF8 = 0
             then res_bind (net8 p off) (\<lambda>nh. ext_headers p nh (off + 8))
             else Inr (protocol, 0))
      else if protocol = 51
      then res_bind (net8 p off) (\<lambda>nh. res_bind (net8 p (off + 1)) (\<lambda>hl.
             ext_headers p nh (off + (unat hl + 2) * 4)))
      else Inr (protocol, off))"
  by pat_completeness auto
termination
  by (relation "measure (\<lambda>(p, protocol, off). length (data p) - off)")
    (auto simp: net8_def rd8_def split: if_splits)

declare ext_headers.simps [simp del]

text \<open>Cutting the padding of layer 2: \<open>netHeader + 2\<close> is the total length of an IPv4 packet.\<close>

definition crop_padding :: "packet \<Rightarrow> packet res" where
  "crop_padding p = res_bind (net16 p 2) (\<lambda>ip_total_length.
     let endOfIpOffset = layer2HeaderLen p + unat ip_total_length
     in Inr (if data_length p > endOfIpOffset then p\<lparr>data_length := endOfIpOffset\<rparr> else p))"

definition classify_ip4 :: "packet \<Rightarrow> (byte \<times> packet) res" where
  "classify_ip4 p = res_bind (net8 p 9) (\<lambda>protocol. res_bind (net8 p 0) (\<lambda>b0.
     res_bind (crop_padding (p\<lparr>classification := classification p OR PCLASS_NET_IP4,
         transportHeaderOffset := unat (b0 AND 0x0f) * 4\<rparr>)) (\<lambda>p1.
     res_bind (net16 p1 6) (\<lambda>f.
       Inr (protocol,
            if transportHeaderOffset p1 < data_length p1 \<and> f AND 0x1FFF = 0
            then p1\<lparr>transportHeader := Some (transportHeaderOffset p1)\<rparr>
            else p1\<lparr>transportHeaderOffset := 0\<rparr>)))))"

definition classify_ip6 :: "packet \<Rightarrow> (byte \<times> packet) res" where
  "classify_ip6 p = res_bind (net8 p 7) (\<lambda>nh.
     res_bind (ext_headers p nh 40) (\<lambda>(protocol, off).
     res_bind (crop_padding (p\<lparr>classification := classification p OR PCLASS_NET_IP6,
         transportHeaderOffset := off\<rparr>)) (\<lambda>p1.
       Inr (protocol, p1\<lparr>transportHeader := Some (transportHeaderOffset p1)\<rparr>))))"

text \<open>A transport header of fixed length \<open>n\<close>.\<close>

definition fixed_header :: "nat \<Rightarrow> ip_protocol_type \<Rightarrow> u64 \<Rightarrow> packet \<Rightarrow> packet" where
  "fixed_header n ty c p =
     (if transportHeaderOffset p + n \<le> data_length p
      then p\<lparr>payloadOffset := transportHeaderOffset p + n, ipProtocolType := ty,
             classification := classification p OR c\<rparr>
      else p\<lparr>payloadOffset := transportHeaderOffset p\<rparr>)"

definition tcp_header :: "nat \<Rightarrow> packet \<Rightarrow> packet res" where
  "tcp_header th p =
     (if transportHeaderOffset p + 12 < data_length p
      then res_bind (net8 p (th + 12)) (\<lambda>b.
        let tcdataOffset = unat (drop_bit 4 b); po = transportHeaderOffset p + tcdataOffset * 4 in
        Inr (if po \<le> data_length p
             then p\<lparr>payloadOffset := po, ipProtocolType := TCP,
                    classification := classification p OR PCLASS_TRN_TCP\<rparr>
             else p\<lparr>payloadOffset := transportHeaderOffset p\<rparr>))
      else Inr (p\<lparr>payloadOffset := transportHeaderOffset p\<rparr>))"

definition classify_transport :: "byte \<Rightarrow> nat \<Rightarrow> packet \<Rightarrow> packet res" where
  "classify_transport protocol th p =
     (if protocol = 1 then Inr (fixed_header 4 ICMP PCLASS_TRN_ICMP p)
      else if protocol = 2 then Inr (fixed_header 8 IGMP PCLASS_TRN_IGMP p)
      else if protocol = 6 then tcp_header th p
      else if protocol = 17 then Inr (fixed_header 8 UDP PCLASS_TRN_UDP p)
      else Inr (p\<lparr>payloadOffset := transportHeaderOffset p\<rparr>))"

definition classify_payload :: "packet \<Rightarrow> packet" where
  "classify_payload p =
     (if payloadOffset p > 0 \<and> payloadOffset p < data_length p
      then p\<lparr>classification := classification p OR PCLASS_PAYLOAD, payload := Some (payloadOffset p)\<rparr>
      else p\<lparr>payloadOffset := 0\<rparr>)"

text \<open>\<open>*data.netHeader >> 4\<close> is read only when the header may be present.\<close>

definition classify :: "packet \<Rightarrow> packet res" where
  "classify p =
     res_bind (if 20 + layer2HeaderLen p \<le> data_length p then res_bind (net8 p 0) (\<lambda>b. Inr (drop_bit 4 b = 4)) else Inr False)
     (\<lambda>v4. res_bind (if v4 then classify_ip4 p
                     else res_bind (if 40 + layer2HeaderLen p \<le> data_length p
                                    then res_bind (net8 p 0) (\<lambda>b. Inr (drop_bit 4 b = 6)) else Inr False)
                            (\<lambda>v6. if v6 then classify_ip6 p else Inr (0, p)))
     (\<lambda>(protocol, p1). case transportHeader p1 of
          None \<Rightarrow> Inr p1
        | Some th \<Rightarrow>
            if protocol \<noteq> 0
            then res_bind (classify_transport protocol th p1) (\<lambda>p2. Inr (classify_payload p2))
            else Inr p1))"

section \<open>Initialisation\<close>

text \<open>The link types of libpcap the code knows; the argument stands for any other number.\<close>

datatype data_link_type = DLT_EN10MB | DLT_LOOP | DLT_NULL | DLT_LINUX_SLL | DLT_other nat

definition ETHERTYPE_VLAN :: u16 where "ETHERTYPE_VLAN = 0x8100"

definition getLayer2HeaderLen :: "bytes \<Rightarrow> data_link_type \<Rightarrow> nat res" where
  "getLayer2HeaderLen packetData dlt =
     (case dlt of
        DLT_EN10MB \<Rightarrow> res_bind (rd16 packetData 12) (\<lambda>et. Inr (14 + (if et = ETHERTYPE_VLAN then 4 else 0)))
      | DLT_LOOP \<Rightarrow> Inr 4
      | DLT_NULL \<Rightarrow> Inr 4
      | DLT_LINUX_SLL \<Rightarrow> Inr 16
      | DLT_other n \<Rightarrow> Inl (Exception ''Received packet on not supported link layer''))"

text \<open>The timestamps in network byte order, from the seconds and microseconds of the capture.\<close>

definition set_times :: "packet \<Rightarrow> packet" where
  "set_times p =
     p\<lparr>time_sec_nbo := htonl_bytes (word_of_int (fst (timestamp p))),
       time_usec_nbo := htonl_bytes (word_of_int (snd (timestamp p))),
       time_msec_nbo := htonll_bytes (word_of_int (fst (timestamp p)) * 1000 + word_of_int (snd (timestamp p) div 1000))\<rparr>"

text \<open>The members both versions of \<open>init\<close> reset, on the object \<open>old\<close> of the instance manager.\<close>

definition reset_packet :: "int \<times> int \<Rightarrow> u32 \<Rightarrow> u32 \<Rightarrow> packet \<Rightarrow> packet" where
  "reset_packet time obsdomainid origplen old =
     old\<lparr>transportHeader := None, payload := None, transportHeaderOffset := 0, payloadOffset := 0,
         classification := 0, timestamp := time, varlength_index := 0, ipProtocolType := NONE,
         observationDomainID := obsdomainid, pcapPacketLength := origplen\<rparr>"

definition packet_init :: "bytes \<Rightarrow> nat \<Rightarrow> int \<times> int \<Rightarrow> u32 \<Rightarrow> u32 \<Rightarrow> data_link_type \<Rightarrow> packet \<Rightarrow> packet res" where
  "packet_init packetData len time obsdomainid origplen dlt old =
     res_bind (getLayer2HeaderLen packetData dlt) (\<lambda>l2.
       if len > PCAP_MAX_CAPTURE_LENGTH \<or> len < l2
       then Inl (Exception ''received packet is bigger than maximum length or smaller than layer 2 len'')
       else if len > length packetData then Inl OutOfBounds
       else classify (set_times ((reset_packet time obsdomainid origplen old)
              \<lparr>data_length := len, layer2HeaderLen := l2,
               data := put_bytes (data old) (maxLayer2HeaderLength - l2) (take len packetData)\<rparr>)))"

fun copy_segments :: "nat \<Rightarrow> (bytes \<times> nat) list \<Rightarrow> nat \<Rightarrow> bytes \<Rightarrow> (nat \<times> bytes) res" where
  "copy_segments l2 [] n d = Inr (n, d)"
| "copy_segments l2 ((seg, len) # segs) n d =
     (if n + len > PCAP_MAX_CAPTURE_LENGTH
      then Inl (Exception ''received packet is bigger than maximum length'')
      else if len > length seg then Inl OutOfBounds
      else copy_segments l2 segs (n + len) (put_bytes d (maxLayer2HeaderLength - l2 + n) (take len seg)))"

text \<open>The packet in segments; the array of pointers ends with a null pointer.\<close>

definition packet_init_segments :: "(bytes \<times> nat) list \<Rightarrow> int \<times> int \<Rightarrow> u32 \<Rightarrow> u32 \<Rightarrow> data_link_type \<Rightarrow> packet \<Rightarrow> packet res" where
  "packet_init_segments segs time obsdomainid origplen dlt old =
     (case segs of
        [] \<Rightarrow> Inl OutOfBounds
      | (seg, len) # rest \<Rightarrow>
          res_bind (getLayer2HeaderLen seg dlt) (\<lambda>l2.
          res_bind (copy_segments l2 segs 0 (data old)) (\<lambda>(n, d).
            classify (set_times ((reset_packet time obsdomainid origplen old)
              \<lparr>data_length := n, layer2HeaderLen := l2, data := d\<rparr>)))))"

section \<open>Fields of a packet\<close>

text \<open>
  Pointers into the array \<open>data\<close> are positions in it; arithmetic on a null pointer is the fault
  \<open>OutOfBounds\<close>. \<open>None\<close> is the result NULL. For HEAD_NETWORK the code leaves the offset out.
\<close>

definition beyond :: "nat option \<Rightarrow> nat \<Rightarrow> nat option res" where
  "beyond ptr offset = (case ptr of None \<Rightarrow> Inl OutOfBounds
     | Some o1 \<Rightarrow> Inr (Some (maxLayer2HeaderLength + o1 + offset)))"

definition getPacketData :: "nat \<Rightarrow> head_type \<Rightarrow> nat \<Rightarrow> packet \<Rightarrow> nat option res" where
  "getPacketData offset header fieldLength p =
     (case header of
        HEAD_NETWORK \<Rightarrow> Inr (Some maxLayer2HeaderLength)
      | HEAD_TRANSPORT \<Rightarrow> beyond (transportHeader p) offset
      | HEAD_RAW \<Rightarrow> Inr (if offset + fieldLength \<le> data_length p
                        then Some (maxLayer2HeaderLength - layer2HeaderLen p + offset) else None)
      | HEAD_NETWORK_AND_BEYOND \<Rightarrow> Inr (if offset + fieldLength \<le> data_length p
                        then Some (maxLayer2HeaderLength + offset) else None)
      | HEAD_TRANSPORT_AND_BEYOND \<Rightarrow>
          if transportHeaderOffset p + offset + fieldLength \<le> data_length p
          then beyond (transportHeader p) offset else Inr None
      | HEAD_PAYLOAD \<Rightarrow>
          if payloadOffset p + offset + fieldLength \<le> data_length p
          then beyond (payload p) offset else Inr None
      | HEAD_NONE \<Rightarrow> Inr None)"

text \<open>The length and position of a field of variable length.\<close>

definition variable_extent :: "nat \<Rightarrow> head_type \<Rightarrow> packet \<Rightarrow> (int \<times> nat option) option res" where
  "variable_extent offset header p =
     (let dl = int (data_length p); th = int (transportHeaderOffset p); po = int (payloadOffset p);
          off = int offset; at = (\<lambda>len r. res_bind r (\<lambda>pos. Inr (Some (len, pos))))
      in case header of
        HEAD_RAW \<Rightarrow> at (dl - off) (Inr (Some (maxLayer2HeaderLength - layer2HeaderLen p + offset)))
      | HEAD_NETWORK \<Rightarrow> at (if transportHeader p = None then dl - off else th - off)
                           (Inr (Some (maxLayer2HeaderLength + offset)))
      | HEAD_TRANSPORT \<Rightarrow> at (if payload p = None then dl - th - off else po - th - off)
                             (beyond (transportHeader p) offset)
      | HEAD_NETWORK_AND_BEYOND \<Rightarrow> at (dl - off) (Inr (Some (maxLayer2HeaderLength + offset)))
      | HEAD_TRANSPORT_AND_BEYOND \<Rightarrow> at (dl - th - off) (beyond (transportHeader p) offset)
      | HEAD_PAYLOAD \<Rightarrow> at (dl - po - off) (beyond (payload p) offset)
      | HEAD_NONE \<Rightarrow> Inr None)"

text \<open>
  The result is the position of the data, its length, and the position and number of the octets in
  \<open>varlength\<close> that encode the length.
\<close>

definition getVariableLengthPacketData :: "nat \<Rightarrow> head_type \<Rightarrow> packet
    \<Rightarrow> ((nat option \<times> nat \<times> nat \<times> nat) option \<times> packet) res" where
  "getVariableLengthPacketData offset header p =
     (let i = varlength_index p in
      if \<not> i < 12 then Inr (None, p)
      else res_bind (variable_extent offset header p) (\<lambda>x. case x of
          None \<Rightarrow> Inr (None, p)
        | Some (len, pos) \<Rightarrow>
            if len \<le> 0 then Inr (None, p)
            else let l = (word_of_int len :: u16) in
              if unat l < 255
              then Inr (Some (pos, unat l, i, 1),
                     p\<lparr>varlength := (varlength p)[i := ucast l], varlength_index := i + 1\<rparr>)
              else if i + 3 \<le> 12
              then Inr (Some (pos, unat l, i, 3),
                     p\<lparr>varlength := (varlength p)[i := 255, i + 1 := ucast l, i + 2 := ucast (drop_bit 8 l)],
                       varlength_index := i + 3\<rparr>)
              else Inr (None, p)))"

section \<open>The invariant of a classified packet\<close>

definition class_of :: "ip_protocol_type \<Rightarrow> u64" where
  "class_of ty = (case ty of NONE \<Rightarrow> 0 | TCP \<Rightarrow> PCLASS_TRN_TCP | UDP \<Rightarrow> PCLASS_TRN_UDP
     | ICMP \<Rightarrow> PCLASS_TRN_ICMP | IGMP \<Rightarrow> PCLASS_TRN_IGMP)"

text \<open>The bytes of the transport header that the classification has found inside of the packet.\<close>

definition header_size :: "ip_protocol_type \<Rightarrow> nat" where
  "header_size ty = (case ty of NONE \<Rightarrow> 0 | TCP \<Rightarrow> 13 | UDP \<Rightarrow> 8 | ICMP \<Rightarrow> 4 | IGMP \<Rightarrow> 8)"

definition packet_sized :: "packet \<Rightarrow> bool" where
  "packet_sized p \<longleftrightarrow> length (data p) = maxLayer2HeaderLength + PCAP_MAX_CAPTURE_LENGTH \<and>
     layer2HeaderLen p \<le> maxLayer2HeaderLength \<and> data_length p \<le> PCAP_MAX_CAPTURE_LENGTH"

definition packet_inv :: "packet \<Rightarrow> bool" where
  "packet_inv p \<longleftrightarrow> packet_sized p \<and>
     (\<exists>net \<in> {0, PCLASS_NET_IP4, PCLASS_NET_IP6}. classification p =
        net OR class_of (ipProtocolType p) OR (if payload p = None then 0 else PCLASS_PAYLOAD)) \<and>
     (case transportHeader p of None \<Rightarrow> transportHeaderOffset p = 0 \<and> ipProtocolType p = NONE \<and> payload p = None
      | Some th \<Rightarrow> th = transportHeaderOffset p) \<and>
     (ipProtocolType p \<noteq> NONE \<longrightarrow> transportHeaderOffset p + header_size (ipProtocolType p) \<le> data_length p) \<and>
     (case payload p of None \<Rightarrow> payloadOffset p = 0
      | Some po \<Rightarrow> po = payloadOffset p \<and> transportHeaderOffset p \<le> po \<and> 0 < po \<and> po < data_length p)"

lemma net8_ok: "packet_sized p \<Longrightarrow> i < 128 \<Longrightarrow> \<exists>b. net8 p i = Inr b"
  by (simp add: packet_sized_def net8_def rd8_def maxLayer2HeaderLength_def PCAP_MAX_CAPTURE_LENGTH_def)

lemma net16_ok: "packet_sized p \<Longrightarrow> i + 2 \<le> 128 \<Longrightarrow> \<exists>b. net16 p i = Inr b"
  by (simp add: packet_sized_def net16_def rd16_def maxLayer2HeaderLength_def PCAP_MAX_CAPTURE_LENGTH_def)

text \<open>The state between the network and the transport part of the classification.\<close>

definition net_classified :: "packet \<Rightarrow> bool" where
  "net_classified p \<longleftrightarrow> packet_sized p \<and> classification p \<in> {0, PCLASS_NET_IP4, PCLASS_NET_IP6} \<and>
     ipProtocolType p = NONE \<and> payload p = None \<and> payloadOffset p = 0 \<and>
     (case transportHeader p of None \<Rightarrow> transportHeaderOffset p = 0 | Some th \<Rightarrow> th = transportHeaderOffset p)"

definition fresh_packet :: "packet \<Rightarrow> bool" where
  "fresh_packet p \<longleftrightarrow> packet_sized p \<and> classification p = 0 \<and> ipProtocolType p = NONE \<and> payload p = None \<and>
     payloadOffset p = 0 \<and> transportHeader p = None \<and> transportHeaderOffset p = 0"

lemma crop_padding_ok:
  assumes "packet_sized p"
  shows "\<exists>n \<le> data_length p. crop_padding p = Inr (p\<lparr>data_length := n\<rparr>)"
proof -
  obtain w where "net16 p 2 = Inr w" using net16_ok [OF assms, of 2] by auto
  then show ?thesis
    by (intro exI [of _ "min (data_length p) (layer2HeaderLen p + unat w)"]) (auto simp: crop_padding_def Let_def min_def)
qed

lemma packet_sized_simps [simp]:
  "packet_sized (p\<lparr>classification := c, transportHeaderOffset := n\<rparr>) = packet_sized p"
  "net8 (p\<lparr>classification := c, transportHeaderOffset := n\<rparr>) i = net8 p i"
  "net16 (p\<lparr>classification := c, transportHeaderOffset := n\<rparr>) i = net16 p i"
  "net16 (p\<lparr>classification := c, transportHeaderOffset := n, data_length := k\<rparr>) i = net16 p i"
  by (simp_all add: packet_sized_def net8_def net16_def)

lemma classify_ip4_ok:
  assumes "fresh_packet p"
  shows "\<exists>protocol p1. classify_ip4 p = Inr (protocol, p1) \<and> net_classified p1"
proof -
  have s: "packet_sized p" using assms by (simp add: fresh_packet_def)
  obtain pr b0 f where r: "net8 p 9 = Inr pr" "net8 p 0 = Inr b0" "net16 p 6 = Inr f"
    using net8_ok [OF s, of 9] net8_ok [OF s, of 0] net16_ok [OF s, of 6] by auto
  let ?p = "p\<lparr>classification := classification p OR PCLASS_NET_IP4, transportHeaderOffset := unat (b0 AND 0x0f) * 4\<rparr>"
  obtain n where n: "n \<le> data_length p" "crop_padding ?p = Inr (?p\<lparr>data_length := n\<rparr>)"
    using crop_padding_ok [of ?p] s by auto
  show ?thesis
    unfolding classify_ip4_def using r n s assms
    by (auto simp: net_classified_def fresh_packet_def packet_sized_def)
qed

lemma classify_ip6_ok:
  assumes "fresh_packet p" and "net8 p 7 = Inr nh" and "ext_headers p nh 40 = Inr (protocol, off)"
  shows "\<exists>p1. classify_ip6 p = Inr (protocol, p1) \<and> net_classified p1 \<and> transportHeader p1 = Some off"
proof -
  have s: "packet_sized p" using assms by (simp add: fresh_packet_def)
  let ?p = "p\<lparr>classification := classification p OR PCLASS_NET_IP6, transportHeaderOffset := off\<rparr>"
  obtain n where n: "n \<le> data_length p" "crop_padding ?p = Inr (?p\<lparr>data_length := n\<rparr>)"
    using crop_padding_ok [of ?p] s by auto
  show ?thesis
    unfolding classify_ip6_def using assms n s
    by (auto simp: net_classified_def fresh_packet_def packet_sized_def)
qed

text \<open>What the transport part may assume and must establish.\<close>

definition transport_classified :: "nat \<Rightarrow> packet \<Rightarrow> packet \<Rightarrow> bool" where
  "transport_classified th p q \<longleftrightarrow>
     (\<exists>ty po. transportHeaderOffset p + header_size ty \<le> (if ty = NONE then transportHeaderOffset p else data_length p) \<and>
        transportHeaderOffset p \<le> po \<and>
        q = p\<lparr>payloadOffset := po, ipProtocolType := ty, classification := classification p OR class_of ty\<rparr>)"

lemma fixed_header_ok:
  assumes "ipProtocolType p = NONE" and "c = class_of ty" and "n = header_size ty"
  shows "transport_classified th p (fixed_header n ty c p)"
proof (cases "transportHeaderOffset p + n \<le> data_length p")
  case True
  then show ?thesis
    using assms by (auto simp: fixed_header_def transport_classified_def header_size_def
        intro!: exI [of _ ty] exI [of _ "transportHeaderOffset p + n"])
next
  case False
  then show ?thesis
    using assms by (auto simp: fixed_header_def transport_classified_def header_size_def class_of_def
        intro!: exI [of _ NONE] exI [of _ "transportHeaderOffset p"])
qed

lemma unclassified_ok:
  "ipProtocolType p = NONE \<Longrightarrow> transport_classified th p (p\<lparr>payloadOffset := transportHeaderOffset p\<rparr>)"
  by (auto simp: transport_classified_def header_size_def class_of_def
      intro!: exI [of _ NONE] exI [of _ "transportHeaderOffset p"])

lemma tcp_header_ok:
  assumes "packet_sized p" and "ipProtocolType p = NONE" and "th = transportHeaderOffset p"
  shows "\<exists>q. tcp_header th p = Inr q \<and> transport_classified th p q"
proof (cases "transportHeaderOffset p + 12 < data_length p")
  case True
  then obtain b where b: "net8 p (th + 12) = Inr b"
    using net8_ok [OF assms(1), of "th + 12"] assms(1,3)
    by (auto simp: packet_sized_def PCAP_MAX_CAPTURE_LENGTH_def)
  let ?po = "transportHeaderOffset p + unat (drop_bit 4 b) * 4"
  show ?thesis
  proof (cases "?po \<le> data_length p")
    case le: True
    with True b show ?thesis
      by (auto simp: tcp_header_def transport_classified_def header_size_def class_of_def Let_def
          intro!: exI [of _ TCP] exI [of _ ?po])
  next
    case False
    with True b unclassified_ok [OF assms(2)] show ?thesis by (auto simp: tcp_header_def Let_def)
  qed
next
  case False
  with unclassified_ok [OF assms(2)] show ?thesis by (auto simp: tcp_header_def)
qed

lemma classify_transport_ok:
  assumes "packet_sized p" and "ipProtocolType p = NONE" and "th = transportHeaderOffset p"
  shows "\<exists>q. classify_transport protocol th p = Inr q \<and> transport_classified th p q"
  using tcp_header_ok [OF assms] unclassified_ok [OF assms(2)]
    fixed_header_ok [OF assms(2), of PCLASS_TRN_ICMP ICMP 4] fixed_header_ok [OF assms(2), of PCLASS_TRN_IGMP IGMP 8]
    fixed_header_ok [OF assms(2), of PCLASS_TRN_UDP UDP 8]
  by (auto simp: classify_transport_def class_of_def header_size_def)

lemma classify_payload_inv:
  assumes "net_classified p" and "transportHeader p = Some th" and "transport_classified th p q"
  shows "packet_inv (classify_payload q)"
proof -
  obtain ty po where q: "q = p\<lparr>payloadOffset := po, ipProtocolType := ty, classification := classification p OR class_of ty\<rparr>"
    and h: "transportHeaderOffset p + header_size ty \<le> (if ty = NONE then transportHeaderOffset p else data_length p)"
      "transportHeaderOffset p \<le> po"
    using assms(3) by (auto simp: transport_classified_def)
  have th: "th = transportHeaderOffset p" "packet_sized p" "payload p = None"
      "classification p \<in> {0, PCLASS_NET_IP4, PCLASS_NET_IP6}"
    using assms(1,2) by (simp_all add: net_classified_def)
  then have *: "\<exists>net \<in> {0, PCLASS_NET_IP4, PCLASS_NET_IP6}. (classification p OR class_of ty) OR c = net OR class_of ty OR c" for c
    by (intro bexI [of _ "classification p"]) (simp_all add: or.assoc)
  have "packet_sized (classify_payload q)"
    using th(2) by (simp add: q classify_payload_def packet_sized_def)
  then show ?thesis
    using h th assms(2) * [of 0] * [of PCLASS_PAYLOAD]
    by (auto simp: packet_inv_def q classify_payload_def)
qed

lemma net_classified_inv:
  "net_classified p \<Longrightarrow> packet_inv p"
  by (auto simp: packet_inv_def net_classified_def class_of_def header_size_def split: option.splits)

lemma classify_rest:
  assumes "net_classified p1"
  shows "\<exists>q. (case transportHeader p1 of None \<Rightarrow> Inr p1 | Some th \<Rightarrow>
      if protocol \<noteq> 0 then res_bind (classify_transport protocol th p1) (\<lambda>p2. Inr (classify_payload p2)) else Inr p1) = Inr q \<and>
    packet_inv q"
proof (cases "transportHeader p1")
  case None
  then show ?thesis using net_classified_inv [OF assms] by simp
next
  case (Some th)
  then have "th = transportHeaderOffset p1" "packet_sized p1" "ipProtocolType p1 = NONE"
    using assms by (simp_all add: net_classified_def)
  then obtain q where "classify_transport protocol th p1 = Inr q" "transport_classified th p1 q"
    using classify_transport_ok by blast
  then show ?thesis
    using Some classify_payload_inv [OF assms Some] net_classified_inv [OF assms] by auto
qed

section \<open>Classification as a whole\<close>

definition has_ip4 :: "packet \<Rightarrow> bool" where
  "has_ip4 p \<longleftrightarrow> 20 + layer2HeaderLen p \<le> data_length p \<and> drop_bit 4 (data p ! maxLayer2HeaderLength) = 4"

definition has_ip6 :: "packet \<Rightarrow> bool" where
  "has_ip6 p \<longleftrightarrow> 40 + layer2HeaderLen p \<le> data_length p \<and> drop_bit 4 (data p ! maxLayer2HeaderLength) = 6"

abbreviation after_network :: "byte \<times> packet \<Rightarrow> packet res" where
  "after_network \<equiv> \<lambda>(protocol, p1). case transportHeader p1 of None \<Rightarrow> Inr p1 | Some th \<Rightarrow>
      if protocol \<noteq> 0 then res_bind (classify_transport protocol th p1) (\<lambda>p2. Inr (classify_payload p2)) else Inr p1"

lemma classify_cases:
  assumes "packet_sized p"
  shows "classify p =
    (if has_ip4 p then res_bind (classify_ip4 p) after_network
     else if has_ip6 p then res_bind (classify_ip6 p) after_network
     else after_network (0, p))"
proof -
  have "net8 p 0 = Inr (data p ! maxLayer2HeaderLength)"
    using assms by (simp add: net8_def rd8_def packet_sized_def PCAP_MAX_CAPTURE_LENGTH_def)
  then show ?thesis by (auto simp: classify_def has_ip4_def has_ip6_def)
qed

text \<open>Where the code looks for the protocol of an IPv6 packet.\<close>

lemma classify_outcome:
  assumes "fresh_packet p"
  shows "(\<exists>q. classify p = Inr q \<and> packet_inv q) \<or>
    (\<exists>e. \<not> has_ip4 p \<and> has_ip6 p \<and> ext_headers p (data p ! 37) 40 = Inl e \<and> classify p = Inl e)"
proof -
  have s: "packet_sized p" using assms by (simp add: fresh_packet_def)
  note c = classify_cases [OF s]
  consider "has_ip4 p" | "\<not> has_ip4 p" "has_ip6 p" | "\<not> has_ip4 p" "\<not> has_ip6 p" by blast
  then show ?thesis
  proof cases
    case 1
    obtain protocol p1 where p1: "classify_ip4 p = Inr (protocol, p1)" "net_classified p1"
      using classify_ip4_ok [OF assms] by blast
    then show ?thesis using c 1 classify_rest [OF p1(2), of protocol] by simp
  next
    case 2
    have 7: "net8 p 7 = Inr (data p ! 37)"
      using s by (simp add: net8_def rd8_def packet_sized_def PCAP_MAX_CAPTURE_LENGTH_def maxLayer2HeaderLength_def)
    show ?thesis
    proof (cases "ext_headers p (data p ! 37) 40")
      case (Inl e)
      then show ?thesis using c 2 7 by (simp add: classify_ip6_def)
    next
      case (Inr x)
      then obtain protocol off where x: "ext_headers p (data p ! 37) 40 = Inr (protocol, off)" by (cases x) simp
      obtain p1 where p1: "classify_ip6 p = Inr (protocol, p1)" "net_classified p1"
        using classify_ip6_ok [OF assms 7 x] by blast
      then show ?thesis using c 2 classify_rest [OF p1(2), of protocol] by simp
    qed
  next
    case 3
    then show ?thesis
      using c assms net_classified_inv [of p] by (simp add: fresh_packet_def net_classified_def)
  qed
qed

lemma ext_headers_fault: "ext_headers p nh off = Inl e \<Longrightarrow> e = OutOfBounds"
proof (induction p nh off rule: ext_headers.induct)
  case (1 p protocol off)
  show ?case
    using "1.prems" "1.IH"
    by (subst (asm) ext_headers.simps)
      (auto simp: res_bind_eq_Inl net8_def rd8_def net16_def rd16_def split: if_splits)
qed

definition extension_header :: "byte \<Rightarrow> bool" where
  "extension_header b \<longleftrightarrow> b \<in> {0, 60, 43, 135, 44, 51}"

lemma ext_headers_none: "\<not> extension_header nh \<Longrightarrow> ext_headers p nh off = Inr (nh, off)"
  by (subst ext_headers.simps) (auto simp: extension_header_def)

lemma crop_keeps: "crop_padding p = Inr q \<Longrightarrow> data q = data p \<and> layer2HeaderLen q = layer2HeaderLen p \<and>
    timestamp q = timestamp p \<and> data_length q \<le> data_length p"
  by (auto simp: crop_padding_def Let_def elim!: res_bind_InrE split: if_splits)

lemma classify_transport_keeps:
  "classify_transport pr th p = Inr q \<Longrightarrow> data q = data p \<and> layer2HeaderLen q = layer2HeaderLen p \<and>
    timestamp q = timestamp p \<and> data_length q = data_length p"
  by (auto simp: classify_transport_def tcp_header_def fixed_header_def Let_def elim!: res_bind_InrE split: if_splits)

lemma classify_payload_keeps [simp]:
  "data (classify_payload p) = data p" "layer2HeaderLen (classify_payload p) = layer2HeaderLen p"
  "timestamp (classify_payload p) = timestamp p" "data_length (classify_payload p) = data_length p"
  by (simp_all add: classify_payload_def)

lemma after_network_keeps:
  "after_network (pr, p) = Inr q \<Longrightarrow> data q = data p \<and> layer2HeaderLen q = layer2HeaderLen p \<and>
    timestamp q = timestamp p \<and> data_length q = data_length p"
  using classify_transport_keeps by (fastforce elim!: res_bind_InrE split: option.splits if_splits)

lemma classify_keeps:
  assumes "packet_sized p" and "classify p = Inr q"
  shows "data q = data p \<and> layer2HeaderLen q = layer2HeaderLen p \<and> timestamp q = timestamp p \<and> data_length q \<le> data_length p"
proof -
  have ip4: "data p1 = data p \<and> layer2HeaderLen p1 = layer2HeaderLen p \<and> timestamp p1 = timestamp p \<and> data_length p1 \<le> data_length p"
    if "classify_ip4 p = Inr (pr, p1)" for pr p1
    using that by (auto simp: classify_ip4_def elim!: res_bind_InrE dest!: crop_keeps split: if_splits)
  have ip6: "data p1 = data p \<and> layer2HeaderLen p1 = layer2HeaderLen p \<and> timestamp p1 = timestamp p \<and> data_length p1 \<le> data_length p"
    if "classify_ip6 p = Inr (pr, p1)" for pr p1
    using that by (auto simp: classify_ip6_def elim!: res_bind_InrE dest!: crop_keeps)
  have "\<exists>pr p1. after_network (pr, p1) = Inr q \<and> data p1 = data p \<and> layer2HeaderLen p1 = layer2HeaderLen p \<and>
      timestamp p1 = timestamp p \<and> data_length p1 \<le> data_length p"
    using assms(2) classify_cases [OF assms(1)] ip4 ip6
    by (auto simp del: split_paired_Ex elim!: res_bind_InrE split: if_splits) (metis order_refl)+
  then show ?thesis using after_network_keeps by (metis (no_types, lifting))
qed

section \<open>Properties\<close>

lemma layer2_len:
  assumes "getLayer2HeaderLen pkt dlt = Inr l2"
  shows "l2 \<le> 18"
  using assms by (auto simp: getLayer2HeaderLen_def elim!: res_bind_InrE split: data_link_type.splits if_splits)

lemma layer2_outcome:
  "14 \<le> length pkt \<Longrightarrow> getLayer2HeaderLen pkt dlt = Inl e \<Longrightarrow> \<exists>s. e = Exception s"
  by (auto simp: getLayer2HeaderLen_def rd16_def split: data_link_type.splits)

text \<open>The packet that \<open>init\<close> hands to \<open>classify\<close>.\<close>

definition captured :: "bytes \<Rightarrow> nat \<Rightarrow> int \<times> int \<Rightarrow> u32 \<Rightarrow> u32 \<Rightarrow> nat \<Rightarrow> packet \<Rightarrow> packet" where
  "captured pkt len time od plen l2 old = set_times ((reset_packet time od plen old)
     \<lparr>data_length := len, layer2HeaderLen := l2,
      data := put_bytes (data old) (maxLayer2HeaderLength - l2) (take len pkt)\<rparr>)"

lemma captured_fresh:
  assumes "length (data old) = maxLayer2HeaderLength + PCAP_MAX_CAPTURE_LENGTH" and "len \<le> PCAP_MAX_CAPTURE_LENGTH"
    and "len \<le> length pkt" and "l2 \<le> 18" and "l2 \<le> len"
  shows "fresh_packet (captured pkt len time od plen l2 old)"
    and "i < len \<Longrightarrow> data (captured pkt len time od plen l2 old) ! (maxLayer2HeaderLength - l2 + i) = pkt ! i"
    and "take len (drop (maxLayer2HeaderLength - l2) (data (captured pkt len time od plen l2 old))) = take len pkt"
  using assms
  by (auto simp: fresh_packet_def captured_def set_times_def reset_packet_def packet_sized_def put_bytes_def nth_append
      maxLayer2HeaderLength_def PCAP_MAX_CAPTURE_LENGTH_def min_def)


text \<open>An Ethernet frame with a TCP segment without data, and an object that held zeros.\<close>

definition example_frame :: bytes where
  "example_frame =
     [0, 1, 2, 3, 4, 5,  0, 1, 2, 3, 4, 6,  8, 0,
      0x45, 0, 0, 40,  0, 0, 0, 0,  64, 6, 0, 0,  10, 0, 0, 1,  10, 0, 0, 2,
      0x30, 0x39, 0, 80,  0, 0, 0, 1,  0, 0, 0, 0,  0x50, 2, 1, 0,  0, 0, 0, 0]"

definition blank_packet :: packet where
  "blank_packet = \<lparr>observationDomainID = 0, layer2HeaderLen = 0, data = replicate 158 0, transportHeader = None,
     payload = None, transportHeaderOffset = 0, payloadOffset = 0, classification = 0, ipProtocolType = NONE,
     data_length = 0, pcapPacketLength = 0, timestamp = (0, 0), time_sec_nbo = [], time_usec_nbo = [],
     time_msec_nbo = [], varlength = replicate 12 0, varlength_index = 0\<rparr>"

lemmas packet_run = packet_init_def getLayer2HeaderLen_def classify_def classify_ip4_def classify_ip6_def
  crop_padding_def classify_transport_def fixed_header_def tcp_header_def classify_payload_def net8_def net16_def
  rd8_def rd16_def ntohs_bytes_def Let_def put_bytes_def reset_packet_def set_times_def
  maxLayer2HeaderLength_def PCAP_MAX_CAPTURE_LENGTH_def ETHERTYPE_VLAN_def

lemma example_packet:
  "\<exists>p. packet_init example_frame 54 (5, 7000) 1 54 DLT_EN10MB blank_packet = Inr p \<and> ipProtocolType p = TCP \<and>
     classification p = PCLASS_NET_IP4 OR PCLASS_TRN_TCP OR PCLASS_PAYLOAD \<and> transportHeader p = Some 20 \<and>
     payload p = Some 40 \<and> data_length p = 54"
  by (simp add: packet_run example_frame_def blank_packet_def pclass_defs nth_append cong: res_bind_weak_cong)


text \<open>
  A UDP datagram without data is reported to have a payload, as many bytes long as the
  layer 2 header: the code compares offsets that count from the network header with a length
  that counts from the start of the frame.
\<close>

theorem empty_datagram_has_payload:
  assumes "fresh_packet p" and "has_ip4 p" and "net8 p 0 = Inr 0x45" and "net16 p 2 = Inr 28" and "net16 p 6 = Inr 0"
    and "net8 p 9 = Inr 17" and "layer2HeaderLen p + 28 \<le> data_length p" and "0 < layer2HeaderLen p"
  shows "\<exists>q. classify p = Inr q \<and> classification q AND PCLASS_PAYLOAD \<noteq> 0 \<and> payload q = Some 28 \<and>
    data_length q - payloadOffset q = layer2HeaderLen q"
proof -
  have s: "packet_sized p" "classification p = 0" using assms(1) by (simp_all add: fresh_packet_def)
  let ?p0 = "p\<lparr>classification := PCLASS_NET_IP4, transportHeaderOffset := 20\<rparr>"
  let ?p1 = "?p0\<lparr>data_length := layer2HeaderLen p + 28\<rparr>"
  have "crop_padding ?p0 = Inr ?p1" using assms(4,7) by (auto simp: crop_padding_def Let_def)
  then have c4: "classify_ip4 p = Inr (17, ?p1\<lparr>transportHeader := Some 20\<rparr>)"
    using assms(3,5,6) s(2) by (simp add: classify_ip4_def)
  show ?thesis
    using classify_cases [OF s(1)] assms(2,8)
    by (simp add: c4 classify_transport_def fixed_header_def classify_payload_def pclass_defs)
qed

theorem empty_datagram_has_payload_witness:
  "\<exists>q. classify (captured ([0, 1, 2, 3, 4, 5, 0, 1, 2, 3, 4, 6, 8, 0, 0x45, 0, 0, 28, 0, 0, 0, 0, 64, 17, 0, 0,
        10, 0, 0, 1, 10, 0, 0, 2, 1, 2, 0, 53, 0, 8, 0, 0]) 42 (0, 0) 1 42 14 blank_packet) = Inr q \<and>
     classification q AND PCLASS_PAYLOAD \<noteq> 0 \<and> data_length q - payloadOffset q = 14"
proof -
  let ?f = "[0, 1, 2, 3, 4, 5, 0, 1, 2, 3, 4, 6, 8, 0, 0x45, 0, 0, 28, 0, 0, 0, 0, 64, 17, 0, 0,
        10, 0, 0, 1, 10, 0, 0, 2, 1, 2, 0, 53, 0, 8, 0, 0] :: bytes"
  let ?p = "captured ?f 42 (0, 0) 1 42 14 blank_packet"
  have "fresh_packet ?p"
    by (rule captured_fresh(1)) (simp_all add: blank_packet_def maxLayer2HeaderLength_def PCAP_MAX_CAPTURE_LENGTH_def)
  moreover have "layer2HeaderLen ?p = 14" "data_length ?p = 42" "has_ip4 ?p" "net8 ?p 0 = Inr 0x45" "net16 ?p 2 = Inr 28"
      "net16 ?p 6 = Inr 0" "net8 ?p 9 = Inr 17"
    by (simp_all add: captured_def packet_run blank_packet_def has_ip4_def nth_append)
  ultimately obtain q where "classify ?p = Inr q" "classification q AND PCLASS_PAYLOAD \<noteq> 0"
      "data_length q - payloadOffset q = layer2HeaderLen q"
    using empty_datagram_has_payload [of ?p] by auto
  moreover have "layer2HeaderLen q = 14"
    using classify_keeps [of ?p q] \<open>fresh_packet ?p\<close> \<open>layer2HeaderLen ?p = 14\<close> \<open>classify ?p = Inr q\<close>
    by (simp add: fresh_packet_def)
  ultimately show ?thesis by auto
qed

lemma ext_headers_offset: "ext_headers p nh o1 = Inr (pr, off) \<Longrightarrow> o1 \<le> off \<or> pr = 44 \<and> off = 0"
proof (induction p nh o1 rule: ext_headers.induct)
  case (1 p protocol o1)
  consider (opt) "protocol \<in> {0, 60, 43, 135}" | (frag) "protocol = 44" | (auth) "protocol = 51"
    | (none) "protocol \<notin> {0, 60, 43, 135, 44, 51}" by blast
  then show ?case
  proof cases
    case opt
    then obtain nh hl where "net8 p o1 = Inr nh" "net8 p (o1 + 1) = Inr hl"
        "ext_headers p nh (o1 + (unat hl * 8 + 8)) = Inr (pr, off)"
      using "1.prems" by (subst (asm) ext_headers.simps) (auto elim!: res_bind_InrE simp del: insert_iff)
    then show ?thesis using "1.IH"(1) [OF opt] by fastforce
  next
    case frag
    then have "protocol \<notin> {0, 60, 43, 135}" by simp
    note IH = "1.IH"(2) [OF this frag]
    obtain f where f: "net16 p (o1 + 2) = Inr f"
        "(if f AND 0xFFF8 = 0 then res_bind (net8 p o1) (\<lambda>nh. ext_headers p nh (o1 + 8)) else Inr (protocol, 0)) = Inr (pr, off)"
      using "1.prems" frag by (subst (asm) ext_headers.simps) (auto elim!: res_bind_InrE)
    show ?thesis
    proof (cases "f AND 0xFFF8 = 0")
      case True
      then obtain nh where "net8 p o1 = Inr nh" "ext_headers p nh (o1 + 8) = Inr (pr, off)"
        using f(2) by (auto elim!: res_bind_InrE)
      then show ?thesis using IH [OF f(1) True] by fastforce
    qed (use f(2) frag in simp)
  next
    case auth
    then have "protocol \<notin> {0, 60, 43, 135}" "protocol \<noteq> 44" by simp_all
    note IH = "1.IH"(3) [OF this auth]
    from auth obtain nh hl where "net8 p o1 = Inr nh" "net8 p (o1 + 1) = Inr hl"
        "ext_headers p nh (o1 + (unat hl + 2) * 4) = Inr (pr, off)"
      using "1.prems" by (subst (asm) ext_headers.simps) (auto elim!: res_bind_InrE)
    then show ?thesis using IH by fastforce
  next
    case none
    then show ?thesis using "1.prems" by (subst (asm) ext_headers.simps) simp
  qed
qed

text \<open>
  An IPv6 packet whose flow label ends with 16 zero bits is cut to its layer 2 header, and
  neither a transport protocol nor a payload is ever found in it: the code reads the length of
  an IPv4 header from it.
\<close>

theorem ip6_cut_by_flow_label:
  assumes "fresh_packet p" and "\<not> has_ip4 p" and "has_ip6 p" and "net16 p 2 = Inr 0" and "classify p = Inr q"
  shows "data_length q = layer2HeaderLen p \<and> ipProtocolType q = NONE \<and> payload q = None"
proof -
  have s: "packet_sized p" "ipProtocolType p = NONE" "payload p = None" and l: "layer2HeaderLen p < data_length p" "layer2HeaderLen p \<le> 30"
    using assms(1,3) by (simp_all add: fresh_packet_def has_ip6_def packet_sized_def maxLayer2HeaderLength_def)
  obtain nh pr off where e: "net8 p 7 = Inr nh" "ext_headers p nh 40 = Inr (pr, off)"
    using assms(2,3,5) classify_cases [OF s(1)] by (auto simp: classify_ip6_def elim!: res_bind_InrE)
  let ?p0 = "p\<lparr>classification := classification p OR PCLASS_NET_IP6, transportHeaderOffset := off\<rparr>"
  let ?p1 = "?p0\<lparr>data_length := layer2HeaderLen p\<rparr>"
  have "crop_padding ?p0 = Inr ?p1" using assms(4) l(1) by (simp add: crop_padding_def Let_def)
  then have c6: "classify_ip6 p = Inr (pr, ?p1\<lparr>transportHeader := Some off\<rparr>)" using e by (simp add: classify_ip6_def)
  have "40 \<le> off \<or> pr = 44 \<and> off = 0" by (rule ext_headers_offset [OF e(2)])
  then show ?thesis
    using assms(5) classify_cases [OF s(1)] assms(2,3) l(2) s(2,3)
    by (auto simp: c6 classify_transport_def fixed_header_def tcp_header_def classify_payload_def split: if_splits)
qed

text \<open>An IPv6 packet with a TCP segment and hop limit 64, on Ethernet.\<close>

definition example_frame6 :: "byte \<Rightarrow> byte list \<Rightarrow> bytes" where
  "example_frame6 hop rest =
     [0, 1, 2, 3, 4, 5,  0, 1, 2, 3, 4, 6,  0x86, 0xDD,
      0x60, 0, 0, 0,  0, 20, 6, hop,  32, 1, 0, 0, 0, 0, 0, 0, 0, 0, 0, 0, 0, 0, 0, 1,
      32, 1, 0, 0, 0, 0, 0, 0, 0, 0, 0, 0, 0, 0, 0, 2] @ rest"

theorem ip6_cut_by_flow_label_witness:
  "\<exists>q. classify (captured (example_frame6 64 (replicate 20 1)) 74 (0, 0) 1 74 14 blank_packet) = Inr q \<and>
     data_length q = 14 \<and> ipProtocolType q = NONE"
proof -
  let ?f = "example_frame6 64 (replicate 20 1)"
  let ?p = "captured ?f 74 (0, 0) 1 74 14 blank_packet"
  have f: "fresh_packet ?p"
    by (rule captured_fresh(1))
      (simp_all add: blank_packet_def maxLayer2HeaderLength_def PCAP_MAX_CAPTURE_LENGTH_def example_frame6_def)
  have h: "layer2HeaderLen ?p = 14" "data_length ?p = 74" "\<not> has_ip4 ?p" "has_ip6 ?p" "net16 ?p 2 = Inr 0"
      "data ?p ! 37 = 64"
    by (simp_all add: captured_def packet_run blank_packet_def has_ip4_def has_ip6_def nth_append example_frame6_def)
  have "ext_headers ?p (data ?p ! 37) 40 = Inr (64, 40)"
    unfolding h(6) by (rule ext_headers_none) (simp add: extension_header_def)
  then obtain q where "classify ?p = Inr q" using classify_outcome [OF f] by auto
  with ip6_cut_by_flow_label [OF f h(3,4,5) this] h(1) show ?thesis by auto
qed



lemma word_octets:
  "unat (ucast w :: byte) = unat w mod 256" "unat (ucast (drop_bit 8 w) :: byte) = unat w div 256" for w :: u16
proof -
  show "unat (ucast w :: byte) = unat w mod 256" by (simp add: unsigned_ucast_eq take_bit_eq_mod)
  have "unat (drop_bit 8 w) = unat w div 256"
    by (simp only: unsigned_drop_bit_eq) (simp add: drop_bit_eq_div take_bit_nat_eq_self u16_lt)
  moreover have "unat w div 256 < 256" using u16_lt [of w] by simp
  ultimately show "unat (ucast (drop_bit 8 w) :: byte) = unat w div 256"
    by (simp only: unsigned_ucast_eq) (simp add: take_bit_eq_mod)
qed

text \<open>
  The octets for the length of a field of variable length. They never leave the buffer of the
  packet, one octet encodes a length below 255, three octets a longer one; earlier fields keep
  theirs. The longer form is wrong: the two octets after 255 are in little-endian order, so a
  collector reads another length unless they are equal.
\<close>

theorem variable_length_octets:
  assumes "length (varlength p) = 12" and "getVariableLengthPacketData off h p = Inr (Some (pos, l, i, k), q)"
  shows "i = varlength_index p \<and> varlength_index q = i + k \<and> i + k \<le> 12 \<and> l < 65536 \<and>
    take i (varlength q) = take i (varlength p) \<and>
    (if l < 255 then k = 1 \<and> rd8 (varlength q) i = Inr (of_nat l)
     else k = 3 \<and> rd8 (varlength q) i = Inr 255 \<and>
       (rd16 (varlength q) (i + 1) = Inr (of_nat l) \<longleftrightarrow> l mod 256 = l div 256))"
proof -
  let ?v = "varlength p"
  obtain len ps where x: "variable_extent off h p = Inr (Some (len, ps))" and i: "i = varlength_index p" "i < 12"
    using assms(2) by (auto simp: getVariableLengthPacketData_def Let_def elim!: res_bind_InrE split: if_splits option.splits)
  let ?l = "word_of_int len :: u16"
  have l: "l = unat ?l" using assms(2) x
    by (auto simp: getVariableLengthPacketData_def Let_def split: if_splits)
  have lt: "l < 65536" using l u16_lt [of ?l] by simp
  show ?thesis
  proof (cases "l < 255")
    case True
    have "ucast ?l = (of_nat l :: byte)" by (simp add: l of_nat_unat)
    then show ?thesis
      using assms x i True lt by (auto simp: getVariableLengthPacketData_def Let_def l rd8_def split: if_splits)
  next
    case False
    let ?lo = "ucast ?l :: byte" and ?hi = "ucast (drop_bit 8 ?l) :: byte"
    have q: "q = p\<lparr>varlength := ?v[i := 255, i + 1 := ?lo, i + 2 := ?hi], varlength_index := i + 3\<rparr>" "i + 3 \<le> 12" "k = 3"
      using assms(2) x i False by (auto simp: getVariableLengthPacketData_def Let_def l split: if_splits)
    have u: "unat ?lo = l mod 256" "unat ?hi = l div 256"
      unfolding l by (rule word_octets)+
    have "rd16 (varlength q) (i + 1) = Inr (ntohs_bytes ?lo ?hi)"
      using q assms(1) by (simp add: rd16_def)
    moreover have "ntohs_bytes ?lo ?hi = of_nat l \<longleftrightarrow> 256 * (l mod 256) + l div 256 = l"
      using lt by (simp add: word_unat_eq_iff unat_ntohs_bytes u unat_of_nat_u16)
    moreover have "256 * (l mod 256) + l div 256 = l \<longleftrightarrow> l mod 256 = l div 256"
    proof -
      have "256 * (l div 256) + l mod 256 = l" by simp
      then show ?thesis by linarith
    qed
    ultimately show ?thesis
      using q i lt False assms(1) by (simp add: rd8_def)
  qed
qed

theorem variable_length_octets_witness:
  "\<exists>pos l i k q. getVariableLengthPacketData 0 HEAD_RAW (blank_packet\<lparr>data_length := 300\<rparr>) =
       Inr (Some (pos, l, i, k), q) \<and> l = 300 \<and> k = 3 \<and> rd16 (varlength q) (i + 1) \<noteq> Inr (of_nat l)"
proof -
  obtain pos l i k q where g: "getVariableLengthPacketData 0 HEAD_RAW (blank_packet\<lparr>data_length := 300\<rparr>) =
      Inr (Some (pos, l, i, k), q)" "l = 300"
    by (simp add: getVariableLengthPacketData_def variable_extent_def blank_packet_def)
  moreover have "length (varlength (blank_packet\<lparr>data_length := 300\<rparr>)) = 12" by (simp add: blank_packet_def)
  ultimately show ?thesis using variable_length_octets [of "blank_packet\<lparr>data_length := 300\<rparr>" 0 HEAD_RAW pos l i k q] by auto
qed

end
