(* ===== verification/Bloom.thy ===== *)
theory Bloom
  imports Vermont_Prelude
begin

text \<open>
  Bloom filters (src/src/common/bloom): the arrays of cells Bitmap, AgeArray and CountArray,
  and the filters over them. A filter's template parameter T is the pair of its cell operations.
  The random number generator of the GNU Scientific Library, from which the hash functions draw
  their factors, is a parameter: \<open>rng s i\<close> is the i-th number after seeding it with s. A filter of
  size 0 traps in the division of \<open>hashU\<close>; the lemmas are about filters of positive size. Counters
  are mathematical integers: an overflow of the int of a CountArray is not modelled.
\<close>

section \<open>Arrays of cells\<close>

record bitmap_vector =
  bitmap :: bytes
  len_bits :: nat

definition bitmask :: "byte list" where
  "bitmask = [0x01, 0x02, 0x04, 0x08, 0x10, 0x20, 0x40, 0x80]"

definition Bitmap_resize :: "nat \<Rightarrow> bitmap_vector" where
  "Bitmap_resize sz = \<lparr>bitmap = replicate ((sz + 7) div 8) 0, len_bits = sz\<rparr>"

definition Bitmap_clear :: "bitmap_vector \<Rightarrow> bitmap_vector" where
  "Bitmap_clear b = b\<lparr>bitmap := replicate (length (bitmap b)) 0\<rparr>"

definition Bitmap_set :: "bitmap_vector \<Rightarrow> nat \<Rightarrow> bool \<Rightarrow> bitmap_vector" where
  "Bitmap_set b index v =
     (if index < len_bits b
      then b\<lparr>bitmap := (bitmap b)[index div 8 := bitmap b ! (index div 8) OR bitmask ! (index mod 8)]\<rparr>
      else b)"

definition Bitmap_get :: "bitmap_vector \<Rightarrow> nat \<Rightarrow> bool" where
  "Bitmap_get b index \<longleftrightarrow> index < len_bits b \<and> bitmap b ! (index div 8) AND bitmask ! (index mod 8) \<noteq> 0"

text \<open>Ages are seconds, counters int.\<close>

definition Array_resize :: "nat \<Rightarrow> int list" where
  "Array_resize sz = replicate sz 0"

definition Array_clear :: "int list \<Rightarrow> int list" where
  "Array_clear a = replicate (length a) 0"

definition AgeArray_set :: "int list \<Rightarrow> nat \<Rightarrow> int \<Rightarrow> int list" where
  "AgeArray_set a index time = (if index < length a then a[index := time] else a)"

definition CountArray_set :: "int list \<Rightarrow> nat \<Rightarrow> int \<Rightarrow> int list" where
  "CountArray_set a index v = (if index < length a then a[index := a ! index + v] else a)"

definition Array_get :: "int list \<Rightarrow> nat \<Rightarrow> int" where
  "Array_get a index = (if index < length a then a ! index else 0)"

section \<open>Filters\<close>

record 'c bloom_filter =
  seeds :: "u32 list"
  filterSize :: nat
  filters :: "'c list"
  CMS :: bool

definition HashParams :: "nat \<Rightarrow> (nat \<Rightarrow> u32) \<Rightarrow> u32 list" where
  "HashParams l rand = map rand [0..<l]"

definition BloomFilterBase :: "(nat \<Rightarrow> 'c) \<Rightarrow> u32 list \<Rightarrow> nat \<Rightarrow> bool \<Rightarrow> 'c bloom_filter" where
  "BloomFilterBase resize hashParams sz cms =
     \<lparr>seeds = hashParams, filterSize = sz,
      filters = replicate (if cms then 1 else length hashParams) (resize sz), CMS = cms\<rparr>"

fun hash_sum :: "(u32 \<Rightarrow> nat \<Rightarrow> u64) \<Rightarrow> u32 \<Rightarrow> nat \<Rightarrow> bytes \<Rightarrow> u32 \<Rightarrow> u32" where
  "hash_sum rng seed i [] result = result"
| "hash_sum rng seed i (b # bs) result = hash_sum rng seed (i + 1) bs (result + ucast (ucast b * rng seed i))"

definition hashU :: "(u32 \<Rightarrow> nat \<Rightarrow> u64) \<Rightarrow> bytes \<Rightarrow> u32 \<Rightarrow> u32 \<Rightarrow> u32" where
  "hashU rng input mx seed = hash_sum rng seed 0 input 0 mod mx"

text \<open>The cell of the i-th hash function: its array and its index there.\<close>

definition cells_of :: "(u32 \<Rightarrow> nat \<Rightarrow> u64) \<Rightarrow> bytes \<Rightarrow> 'c bloom_filter \<Rightarrow> (nat \<times> nat) list" where
  "cells_of rng input f =
     map (\<lambda>i. (if CMS f then 0 else i, unat (hashU rng input (of_nat (filterSize f)) (seeds f ! i))))
       [0..<length (seeds f)]"

definition filter_set :: "('c \<Rightarrow> nat \<Rightarrow> 'v \<Rightarrow> 'c) \<Rightarrow> (u32 \<Rightarrow> nat \<Rightarrow> u64) \<Rightarrow> bytes \<Rightarrow> 'v \<Rightarrow> 'c bloom_filter \<Rightarrow> 'c bloom_filter" where
  "filter_set cset rng input v f =
     f\<lparr>filters := fold (\<lambda>(j, x) fs. fs[j := cset (fs ! j) x v]) (cells_of rng input f) (filters f)\<rparr>"

definition BloomFilter_set :: "(u32 \<Rightarrow> nat \<Rightarrow> u64) \<Rightarrow> bytes \<Rightarrow> bitmap_vector bloom_filter \<Rightarrow> bitmap_vector bloom_filter" where
  "BloomFilter_set rng input f = filter_set Bitmap_set rng input True f"

definition BloomFilter_get :: "(u32 \<Rightarrow> nat \<Rightarrow> u64) \<Rightarrow> bytes \<Rightarrow> bitmap_vector bloom_filter \<Rightarrow> bool" where
  "BloomFilter_get rng input f = list_all (\<lambda>(j, x). Bitmap_get (filters f ! j) x) (cells_of rng input f)"

definition INT_MAX :: int where "INT_MAX = 2147483647"

definition MinBloomFilter_get :: "(u32 \<Rightarrow> nat \<Rightarrow> u64) \<Rightarrow> bytes \<Rightarrow> int list bloom_filter \<Rightarrow> int" where
  "MinBloomFilter_get rng input f =
     foldl (\<lambda>ret (j, x). let current = Array_get (filters f ! j) x in if current < ret then current else ret)
       INT_MAX (cells_of rng input f)"

definition AgeBloomFilter_set :: "(u32 \<Rightarrow> nat \<Rightarrow> u64) \<Rightarrow> bytes \<Rightarrow> int \<Rightarrow> int list bloom_filter \<Rightarrow> int list bloom_filter" where
  "AgeBloomFilter_set = filter_set AgeArray_set"

definition CountBloomFilter_set :: "(u32 \<Rightarrow> nat \<Rightarrow> u64) \<Rightarrow> bytes \<Rightarrow> int \<Rightarrow> int list bloom_filter \<Rightarrow> int list bloom_filter" where
  "CountBloomFilter_set = filter_set CountArray_set"

section \<open>The contract of the cells\<close>

locale cell_array =
  fixes cget :: "'c \<Rightarrow> nat \<Rightarrow> 'v" and cset :: "'c \<Rightarrow> nat \<Rightarrow> 'v \<Rightarrow> 'c"
    and cinv :: "'c \<Rightarrow> nat \<Rightarrow> bool" and upd :: "'v \<Rightarrow> 'v \<Rightarrow> 'v"
  assumes get_set: "cinv c n \<Longrightarrow> i < n \<Longrightarrow> cget (cset c i v) j = (if j = i then upd (cget c j) v else cget c j)"
    and inv_set: "cinv c n \<Longrightarrow> cinv (cset c i v) n"
begin

definition cell :: "'c list \<Rightarrow> nat \<times> nat \<Rightarrow> 'v" where
  "cell fs = (\<lambda>(j, x). cget (fs ! j) x)"

definition filter_inv :: "'c bloom_filter \<Rightarrow> bool" where
  "filter_inv f \<longleftrightarrow> 0 < filterSize f \<and> filterSize f < 2 ^ 32 \<and>
     length (filters f) = (if CMS f then 1 else length (seeds f)) \<and> (\<forall>c \<in> set (filters f). cinv c (filterSize f))"

lemma cells_range:
  assumes "filter_inv f" and "q \<in> set (cells_of rng k f)"
  shows "fst q < length (filters f) \<and> snd q < filterSize f"
proof -
  have "0 < (of_nat (filterSize f) :: u32)"
    using assms(1) by (simp add: filter_inv_def word_less_nat_alt unat_of_nat_u32)
  then have "hashU rng k (of_nat (filterSize f)) s < of_nat (filterSize f)" for s
    unfolding hashU_def by (rule word_mod_less_divisor)
  then have "unat (hashU rng k (of_nat (filterSize f)) s) < filterSize f" for s
    using assms(1) by (simp add: filter_inv_def word_less_nat_alt unat_of_nat_u32)
  with assms show ?thesis by (auto simp: cells_of_def filter_inv_def)
qed

lemma fold_set:
  assumes "\<forall>q \<in> set qs. fst q < length fs \<and> snd q < n" and "\<forall>c \<in> set fs. cinv c n"
  shows "cell (fold (\<lambda>(j, x) fs. fs[j := cset (fs ! j) x v]) qs fs) q = ((\<lambda>c. upd c v) ^^ count_list qs q) (cell fs q) \<and>
    (\<forall>c \<in> set (fold (\<lambda>(j, x) fs. fs[j := cset (fs ! j) x v]) qs fs). cinv c n) \<and>
    length (fold (\<lambda>(j, x) fs. fs[j := cset (fs ! j) x v]) qs fs) = length fs"
  using assms
proof (induction qs arbitrary: fs)
  case Nil
  then show ?case by simp
next
  case (Cons p qs)
  obtain j x where p: "p = (j, x)" by (cases p)
  let ?fs = "fs[j := cset (fs ! j) x v]"
  have j: "j < length fs" "x < n" "cinv (fs ! j) n" using Cons.prems p by auto
  have "\<forall>c \<in> set ?fs. cinv c n"
    using Cons.prems(2) inv_set [OF j(3)] by (auto dest!: set_update_subset_insert [THEN subsetD])
  moreover have "cell ?fs q = (if q = p then upd (cell fs q) v else cell fs q)"
    using j get_set [OF j(3,2)] by (cases q) (auto simp: cell_def p nth_list_update)
  moreover have "((\<lambda>c. upd c v) ^^ m) (upd y v) = upd (((\<lambda>c. upd c v) ^^ m) y) v" for m y
    using funpow_swap1 [of "\<lambda>c. upd c v" m y] by simp
  ultimately show ?case
    using Cons.IH [of ?fs] Cons.prems(1) by (simp add: p)
qed

lemma set_cell:
  assumes "filter_inv f"
  shows "cell (filters (filter_set cset rng k v f)) q = ((\<lambda>c. upd c v) ^^ count_list (cells_of rng k f) q) (cell (filters f) q)"
    and "filter_inv (filter_set cset rng k v f)"
proof -
  have "\<forall>q \<in> set (cells_of rng k f). fst q < length (filters f) \<and> snd q < filterSize f"
    using cells_range [OF assms] by blast
  moreover have "\<forall>c \<in> set (filters f). cinv c (filterSize f)" using assms by (simp add: filter_inv_def)
  ultimately show "cell (filters (filter_set cset rng k v f)) q =
      ((\<lambda>c. upd c v) ^^ count_list (cells_of rng k f) q) (cell (filters f) q)" "filter_inv (filter_set cset rng k v f)"
    using fold_set [of "cells_of rng k f" "filters f" "filterSize f"] assms by (simp_all add: filter_set_def filter_inv_def)
qed

lemma cells_set [simp]: "cells_of rng k' (filter_set cset rng k v f) = cells_of rng k' f"
  by (simp add: cells_of_def filter_set_def)

lemma base_inv:
  "0 < n \<Longrightarrow> n < 2 ^ 32 \<Longrightarrow> cinv (mk n) n \<Longrightarrow> filter_inv (BloomFilterBase mk hs n cms)"
  by (simp add: filter_inv_def BloomFilterBase_def)

end

section \<open>The three kinds of filters\<close>

lemma bitmask_bit: "i < 8 \<Longrightarrow> bitmask ! i = 2 ^ i"
  by (auto simp: bitmask_def less_Suc_eq numeral_eq_Suc)

lemma bitmask_and: "i < 8 \<Longrightarrow> b AND bitmask ! i \<noteq> 0 \<longleftrightarrow> bit b i"
  by (simp add: bitmask_bit and_exp_eq_0_iff_not_bit)

lemma bitmask_or: "i < 8 \<Longrightarrow> bit (b OR bitmask ! i) j \<longleftrightarrow> bit b j \<or> j = i"
  by (auto simp: bitmask_bit bit_or_iff bit_exp_iff)

definition bitmap_inv :: "bitmap_vector \<Rightarrow> nat \<Rightarrow> bool" where
  "bitmap_inv b n \<longleftrightarrow> len_bits b = n \<and> length (bitmap b) = (n + 7) div 8"

lemma bitmap_get_set:
  assumes "bitmap_inv b n" and "i < n"
  shows "Bitmap_get (Bitmap_set b i v) j = (if j = i then True else Bitmap_get b j)"
proof -
  have o: "i div 8 < length (bitmap b)" using assms by (simp add: bitmap_inv_def)
  have "j div 8 = i div 8 \<and> j mod 8 = i mod 8 \<longleftrightarrow> j = i" by (metis div_mult_mod_eq)
  then show ?thesis
    using assms o
    by (auto simp: Bitmap_get_def Bitmap_set_def bitmap_inv_def bitmask_and bitmask_or nth_list_update)
qed

interpretation bits: cell_array Bitmap_get Bitmap_set bitmap_inv "\<lambda>c v. True"
  by unfold_locales (use bitmap_get_set in \<open>auto simp: bitmap_inv_def Bitmap_set_def\<close>)

interpretation age: cell_array Array_get AgeArray_set "\<lambda>a n. length a = n" "\<lambda>c v. v"
  by unfold_locales (auto simp: Array_get_def AgeArray_set_def)

interpretation counts: cell_array Array_get CountArray_set "\<lambda>a n. length a = n" "\<lambda>c v. c + v"
  by unfold_locales (auto simp: Array_get_def CountArray_set_def)

lemma min_get:
  "MinBloomFilter_get rng k f = foldl min INT_MAX (map (\<lambda>(j, x). Array_get (filters f ! j) x) (cells_of rng k f))"
  by (auto simp: MinBloomFilter_get_def foldl_map Let_def min_def split_beta intro!: foldl_cong)

lemma foldl_min_le: "foldl min a xs \<le> (a :: int)"
proof (induction xs arbitrary: a)
  case (Cons x xs)
  then show ?case using order_trans [OF Cons.IH [of "min a x"]] by simp
qed simp

lemma foldl_min_ge: "b \<le> a \<Longrightarrow> \<forall>x \<in> set xs. b \<le> x \<Longrightarrow> b \<le> foldl min a xs" for b :: int
  by (induction xs arbitrary: a) auto

lemma min_get_ge:
  "b \<le> INT_MAX \<Longrightarrow> \<forall>q \<in> set (cells_of rng k f). b \<le> age.cell (filters f) q \<Longrightarrow> b \<le> MinBloomFilter_get rng k f"
  by (auto simp: min_get age.cell_def intro!: foldl_min_ge)

lemma overwrite_pow: "((\<lambda>c. v) ^^ n) x = (if n = 0 then x else v)"
  by (cases n) simp_all

lemma add_pow: "((\<lambda>c. c + v) ^^ n) x = x + int n * v"
  by (induction n) (simp_all add: algebra_simps)

lemma count_list_pos: "count_list xs x \<noteq> 0 \<longleftrightarrow> x \<in> set xs"
  by (simp add: count_list_0_iff)

lemma BloomFilter_set_cell:
  assumes "bits.filter_inv g"
  shows "bits.cell (filters (BloomFilter_set rng k g)) q \<longleftrightarrow> bits.cell (filters g) q \<or> q \<in> set (cells_of rng k g)"
    and "bits.filter_inv (BloomFilter_set rng k g)" and "cells_of rng k' (BloomFilter_set rng k g) = cells_of rng k' g"
  using bits.set_cell [OF assms, of rng k True] count_list_pos [of "cells_of rng k g" q]
  by (auto simp: BloomFilter_set_def overwrite_pow)

lemma AgeBloomFilter_set_cell:
  assumes "age.filter_inv g"
  shows "age.cell (filters (AgeBloomFilter_set rng k t g)) q = (if q \<in> set (cells_of rng k g) then t else age.cell (filters g) q)"
    and "age.filter_inv (AgeBloomFilter_set rng k t g)" and "cells_of rng k' (AgeBloomFilter_set rng k t g) = cells_of rng k' g"
  using age.set_cell [OF assms, of rng k t] count_list_pos [of "cells_of rng k g" q]
  by (auto simp: AgeBloomFilter_set_def overwrite_pow)

lemma CountBloomFilter_set_cell:
  assumes "counts.filter_inv g"
  shows "counts.cell (filters (CountBloomFilter_set rng k v g)) q =
      counts.cell (filters g) q + int (count_list (cells_of rng k g) q) * v"
    and "counts.filter_inv (CountBloomFilter_set rng k v g)" and "cells_of rng k' (CountBloomFilter_set rng k v g) = cells_of rng k' g"
  using counts.set_cell [OF assms, of rng k v] by (auto simp: CountBloomFilter_set_def add_pow)

lemma bloom_run:
  assumes "bits.filter_inv f"
  shows "bits.filter_inv (fold (BloomFilter_set rng) ks f) \<and>
    (\<forall>k. cells_of rng k (fold (BloomFilter_set rng) ks f) = cells_of rng k f) \<and>
    (\<forall>k \<in> set ks. \<forall>q \<in> set (cells_of rng k f). bits.cell (filters (fold (BloomFilter_set rng) ks f)) q)"
  using assms by (induction ks rule: rev_induct) (auto simp: BloomFilter_set_cell)

definition age_run :: "(u32 \<Rightarrow> nat \<Rightarrow> u64) \<Rightarrow> (bytes \<times> int) list \<Rightarrow> int list bloom_filter \<Rightarrow> int list bloom_filter" where
  "age_run rng ops f = fold (\<lambda>(k, t). AgeBloomFilter_set rng k t) ops f"

definition count_run :: "(u32 \<Rightarrow> nat \<Rightarrow> u64) \<Rightarrow> (bytes \<times> int) list \<Rightarrow> int list bloom_filter \<Rightarrow> int list bloom_filter" where
  "count_run rng ops f = fold (\<lambda>(k, v). CountBloomFilter_set rng k v) ops f"

definition added :: "bytes \<Rightarrow> (bytes \<times> int) list \<Rightarrow> int" where
  "added k ops = sum_list (map snd (filter (\<lambda>(k', v). k' = k) ops))"

lemma age_run_cells:
  assumes "age.filter_inv f" and "sorted (map snd ops)"
  shows "age.filter_inv (age_run rng ops f) \<and> (\<forall>k. cells_of rng k (age_run rng ops f) = cells_of rng k f) \<and>
    (\<forall>(k, t) \<in> set ops. \<forall>q \<in> set (cells_of rng k f). t \<le> age.cell (filters (age_run rng ops f)) q)"
  using assms(2)
proof (induction ops rule: rev_induct)
  case Nil
  show ?case using assms(1) by (simp add: age_run_def)
next
  case (snoc p ops)
  obtain k' t' where p: "p = (k', t')" by (cases p)
  let ?g = "age_run rng ops f"
  have r: "age_run rng (ops @ [p]) f = AgeBloomFilter_set rng k' t' ?g" by (simp add: age_run_def p)
  have le: "t \<le> t'" if "(k, t) \<in> set ops" for k t using snoc.prems that by (force simp: sorted_append p)
  have IH: "age.filter_inv ?g" "\<forall>k. cells_of rng k ?g = cells_of rng k f"
      "\<forall>(k, t) \<in> set ops. \<forall>q \<in> set (cells_of rng k f). t \<le> age.cell (filters ?g) q"
    using snoc by (simp_all add: sorted_append)
  show ?case
    unfolding r using AgeBloomFilter_set_cell [OF IH(1)] IH(2,3) le by (fastforce simp: p)
qed

lemma count_run_cells:
  assumes "counts.filter_inv f" and "\<forall>k. \<forall>q \<in> set (cells_of rng k f). 0 \<le> counts.cell (filters f) q" and "\<forall>(k, v) \<in> set ops. 0 \<le> v"
  shows "counts.filter_inv (count_run rng ops f) \<and> (\<forall>k. cells_of rng k (count_run rng ops f) = cells_of rng k f) \<and>
    (\<forall>k. \<forall>q \<in> set (cells_of rng k f). added k ops \<le> counts.cell (filters (count_run rng ops f)) q)"
  using assms(3)
proof (induction ops rule: rev_induct)
  case Nil
  show ?case using assms(1,2) by (simp add: count_run_def added_def)
next
  case (snoc p ops)
  obtain k' v where p: "p = (k', v)" by (cases p)
  let ?g = "count_run rng ops f"
  have r: "count_run rng (ops @ [p]) f = CountBloomFilter_set rng k' v ?g" by (simp add: count_run_def p)
  have IH: "counts.filter_inv ?g" "\<forall>k. cells_of rng k ?g = cells_of rng k f"
      "\<forall>k. \<forall>q \<in> set (cells_of rng k f). added k ops \<le> counts.cell (filters ?g) q" and v: "0 \<le> v"
    using snoc by (simp_all add: p)
  have "added k (ops @ [p]) \<le> counts.cell (filters (CountBloomFilter_set rng k' v ?g)) q" if q: "q \<in> set (cells_of rng k f)" for k q
  proof -
    let ?m = "count_list (cells_of rng k' f) q"
    have "(if k' = k then v else 0) \<le> int ?m * v"
    proof (cases "k' = k")
      case True
      then have "1 \<le> int ?m" using q count_list_pos [of "cells_of rng k' f" q] by simp
      then show ?thesis using mult_right_mono [of 1 "int ?m" v] v True by simp
    qed (use v in simp)
    moreover have "added k (ops @ [p]) = added k ops + (if k' = k then v else 0)" by (simp add: added_def p)
    moreover have "added k ops \<le> counts.cell (filters ?g) q" using IH(3) q by blast
    moreover have "counts.cell (filters (CountBloomFilter_set rng k' v ?g)) q = counts.cell (filters ?g) q + int ?m * v"
      using CountBloomFilter_set_cell(1) [OF IH(1), of rng k' v q] IH(2) by simp
    ultimately show ?thesis by linarith
  qed
  then show ?case
    unfolding r using CountBloomFilter_set_cell(2,3) [OF IH(1)] IH(2) by simp
qed

section \<open>Properties\<close>

text \<open>
  C25: a Bloom filter has no false negatives: after any number of insertions every inserted key is
  found, whatever the hash functions are.
\<close>

theorem bloom_no_false_negatives:
  assumes "0 < n" and "n < 2 ^ 32" and "k \<in> set ks"
  shows "BloomFilter_get rng k (fold (BloomFilter_set rng) ks (BloomFilterBase Bitmap_resize hs n cms))"
proof -
  have "bits.filter_inv (BloomFilterBase Bitmap_resize hs n cms)"
    using assms(1,2) by (intro bits.base_inv) (simp_all add: bitmap_inv_def Bitmap_resize_def)
  from bloom_run [OF this, of rng ks] assms(3) show ?thesis
    by (auto simp: BloomFilter_get_def list_all_iff bits.cell_def)
qed

theorem bloom_no_false_negatives_witness:
  "BloomFilter_get (\<lambda>s i. ucast s + 3) [1, 2] (fold (BloomFilter_set (\<lambda>s i. ucast s + 3)) [[7], [1, 2], [9, 9]]
     (BloomFilterBase Bitmap_resize [5, 6] 16 True))"
  by (rule bloom_no_false_negatives) simp_all



end
