(* ===== verification/Byte_Order.thy ===== *)
theory Byte_Order
  imports Vermont_Prelude
begin

text \<open>
  Unsigned integers of any width in the memory of a record: the number a sequence of octets
  spells in network byte order and in the order of a little-endian host, and the
  helpers on integers in network byte order (src/src/common/Misc.h). An integer in network byte
  order is the sequence of its octets.
\<close>

section \<open>Octets as numbers\<close>

fun be_of :: "bytes \<Rightarrow> nat" where
  "be_of [] = 0"
| "be_of (b # bs) = unat b * 256 ^ length bs + be_of bs"

definition le_of :: "bytes \<Rightarrow> int" where
  "le_of bs = int (be_of (rev bs))"

lemma be_of_bound: "be_of bs < 256 ^ length bs"
proof (induction bs)
  case (Cons b bs)
  have "unat b * 256 ^ length bs \<le> 255 * 256 ^ length bs"
    using byte_lt [of b] by (intro mult_right_mono) auto
  then show ?case using Cons unfolding be_of.simps length_Cons power_Suc by linarith
qed simp

lemma be_of_inj: "length xs = length ys \<Longrightarrow> be_of xs = be_of ys \<longleftrightarrow> xs = ys"
proof (induction xs arbitrary: ys)
  case (Cons x xs)
  then obtain y ys' where ys: "ys = y # ys'" "length xs = length ys'" by (cases ys) auto
  let ?m = "256 ^ length ys' :: nat"
  have "be_of (x # xs) div ?m = unat x" "be_of (x # xs) mod ?m = be_of xs"
    "be_of (y # ys') div ?m = unat y" "be_of (y # ys') mod ?m = be_of ys'"
    using be_of_bound [of xs] be_of_bound [of ys'] ys(2) by simp_all
  then show ?case using Cons.IH [OF ys(2)] ys by (metis list.inject word_unat_eq_iff)
qed simp

lemma le_of_inj: "length xs = length ys \<Longrightarrow> le_of xs = le_of ys \<longleftrightarrow> xs = ys"
  by (simp add: le_of_def be_of_inj)

lemma be_of_htons: "n < 65536 \<Longrightarrow> be_of (htons_bytes (of_nat n)) = n"
  by (simp add: htons_bytes_def unat_of_nat_byte unat_of_nat_u16)

lemma be_of_htonl: "n < 4294967296 \<Longrightarrow> be_of (htonl_bytes (of_nat n)) = n"
proof -
  assume "n < 4294967296"
  then have "be_of (htonl_bytes (of_nat n)) = n div 16777216 * 16777216 +
    (n div 65536 mod 256 * 65536 + (n div 256 mod 256 * 256 + n mod 256))"
    by (simp add: htonl_bytes_def unat_of_nat_byte unat_of_nat_u32)
  then show ?thesis using base256_4 [of n] by (simp only: mult.commute add.assoc)
qed

fun be_bytes :: "nat \<Rightarrow> nat \<Rightarrow> bytes" where
  "be_bytes 0 v = []"
| "be_bytes (Suc n) v = of_nat (v div 256 ^ n) # be_bytes n v"

lemma length_be_bytes [simp]: "length (be_bytes n v) = n"
  by (induction n) simp_all

lemma be_of_bytes [simp]: "be_of (be_bytes n v) = v mod 256 ^ n"
proof (induction n)
  case (Suc n)
  have "unat (of_nat (v div 256 ^ n) :: byte) = v div 256 ^ n mod 256"
    by (simp add: unat_of_nat)
  then have "be_of (be_bytes (Suc n) v) = 256 ^ n * (v div 256 ^ n mod 256) + v mod 256 ^ n"
    using Suc by (simp add: mult.commute)
  also have "\<dots> = v mod (256 ^ n * 256)"
    by (simp only: mod_mult2_eq)
  finally show ?case by (simp add: mult.commute)
qed simp

lemma be_bytes_of: "length bs = n \<Longrightarrow> be_bytes n (be_of bs) = bs"
  using be_of_inj [of "be_bytes n (be_of bs)" bs] be_of_bound [of bs] by simp

text \<open>Equations for evaluation that form no powers.\<close>

lemma be_of_horner: "foldl (\<lambda>a b. a * 256 + unat b) n bs = n * 256 ^ length bs + be_of bs"
  by (induction bs arbitrary: n) (simp_all add: algebra_simps)

lemma be_of_code [code]: "be_of bs = foldl (\<lambda>a b. a * 256 + unat b) 0 bs"
  by (simp add: be_of_horner)

lemma be_bytes_snoc: "be_bytes (Suc n) v = be_bytes n (v div 256) @ [of_nat v]"
proof (induction n arbitrary: v)
  case (Suc n)
  then show ?case by (simp add: div_mult2_eq [symmetric])
qed simp

lemma be_bytes_code [code]:
  "be_bytes 0 v = []"
  "be_bytes (Suc n) v = be_bytes n (v div 256) @ [of_nat v]"
  by (simp_all add: be_bytes_snoc del: be_bytes.simps(2))

lemma be_of_zeros [simp]: "be_of (replicate n 0) = 0"
  by (induction n) simp_all

lemma be_of_append: "be_of (xs @ ys) = be_of xs * 256 ^ length ys + be_of ys"
  by (induction xs) (simp_all add: algebra_simps power_add)

section \<open>Helpers on integers in network byte order\<close>

definition addUint64Nbo :: "bytes \<Rightarrow> bytes \<Rightarrow> bytes" where
  "addUint64Nbo i j = be_bytes 8 (be_of i + be_of j)"

definition addUint32Nbo :: "bytes \<Rightarrow> bytes \<Rightarrow> bytes" where
  "addUint32Nbo i j = be_bytes 4 (be_of i + be_of j)"

definition lesserUint32Nbo :: "bytes \<Rightarrow> bytes \<Rightarrow> bytes" where
  "lesserUint32Nbo i j = (if be_of i < be_of j then i else j)"

definition greaterUint32Nbo :: "bytes \<Rightarrow> bytes \<Rightarrow> bytes" where
  "greaterUint32Nbo i j = (if be_of i > be_of j then i else j)"

definition lesserUint64Nbo :: "bytes \<Rightarrow> bytes \<Rightarrow> bytes" where
  "lesserUint64Nbo i j = (if be_of i < be_of j then i else j)"

definition greaterUint64Nbo :: "bytes \<Rightarrow> bytes \<Rightarrow> bytes" where
  "greaterUint64Nbo i j = (if be_of i > be_of j then i else j)"

lemma length_nbo [simp]:
  "length (addUint64Nbo i j) = 8" "length (addUint32Nbo i j) = 4"
  "length i = n \<Longrightarrow> length j = n \<Longrightarrow> length (lesserUint32Nbo i j) = n"
  "length i = n \<Longrightarrow> length j = n \<Longrightarrow> length (greaterUint32Nbo i j) = n"
  "length i = n \<Longrightarrow> length j = n \<Longrightarrow> length (lesserUint64Nbo i j) = n"
  "length i = n \<Longrightarrow> length j = n \<Longrightarrow> length (greaterUint64Nbo i j) = n"
  by (simp_all add: addUint64Nbo_def addUint32Nbo_def lesserUint32Nbo_def greaterUint32Nbo_def
      lesserUint64Nbo_def greaterUint64Nbo_def)

lemma be_of_nbo:
  "be_of (addUint64Nbo i j) = (be_of i + be_of j) mod 2 ^ 64"
  "be_of (addUint32Nbo i j) = (be_of i + be_of j) mod 2 ^ 32"
  "be_of (lesserUint32Nbo i j) = min (be_of i) (be_of j)"
  "be_of (greaterUint32Nbo i j) = max (be_of i) (be_of j)"
  "be_of (lesserUint64Nbo i j) = min (be_of i) (be_of j)"
  "be_of (greaterUint64Nbo i j) = max (be_of i) (be_of j)"
  by (simp_all add: addUint64Nbo_def addUint32Nbo_def lesserUint32Nbo_def greaterUint32Nbo_def
      lesserUint64Nbo_def greaterUint64Nbo_def)

section \<open>Pieces of a block\<close>

text \<open>Reading and overwriting \<open>n\<close> octets at a pointer into an array.\<close>

definition peek :: "bytes \<Rightarrow> nat \<Rightarrow> nat \<Rightarrow> bytes res" where
  "peek m i n = (if i + n \<le> length m then Inr (take n (drop i m)) else Inl OutOfBounds)"

definition poke :: "bytes \<Rightarrow> nat \<Rightarrow> bytes \<Rightarrow> bytes res" where
  "poke m i bs = (if i + length bs \<le> length m then Inr (put_bytes m i bs) else Inl HeapOverflow)"

lemma peek_ok: "i + n \<le> length m \<Longrightarrow> peek m i n = Inr (take n (drop i m))"
  by (simp add: peek_def)

lemma poke_ok: "i + length bs \<le> length m \<Longrightarrow> poke m i bs = Inr (put_bytes m i bs)"
  by (simp add: poke_def)

lemma piece_put_same:
  "i + length bs \<le> length m \<Longrightarrow> n = length bs \<Longrightarrow> take n (drop i (put_bytes m i bs)) = bs"
  by (simp add: put_bytes_def)

lemma piece_put_other:
  assumes "i + length bs \<le> length m" and "j + n \<le> i \<or> i + length bs \<le> j"
  shows "take n (drop j (put_bytes m i bs)) = take n (drop j m)"
proof (rule nth_equalityI)
  show "length (take n (drop j (put_bytes m i bs))) = length (take n (drop j m))"
    using assms(1) by simp
  fix k assume "k < length (take n (drop j (put_bytes m i bs)))"
  then have k: "k < n" "j + k < length m" using assms(1) by auto
  then show "take n (drop j (put_bytes m i bs)) ! k = take n (drop j m) ! k"
    using assms by (auto simp: put_bytes_def nth_append)
qed

end
