(* ===== verification/Packet_Filter.thy ===== *)
theory Packet_Filter
  imports Packet Bloom Byte_Order "HOL-Library.Sublist"
begin

text \<open>
  Packet samplers and filters (src/src/modules/packet/filter): each processor decides whether a
  packet passes, and the filter module chains them. Host integers are little-endian where the
  code reads them from packet memory without conversion. A division by zero is an exception,
  libc's \<open>rand\<close> and the regular expressions of boost are parameters.
\<close>

section \<open>Samplers\<close>

datatype sampling_type = COUNT_BASED | TIME_BASED | OTHER_TYPE int

record systematic_sampler =
  samplingType :: sampling_type
  samplingOnTime :: u64
  samplingOffTime :: u64
  sampler_interval :: u64
  startTime :: "int \<times> int"
  packetCount :: u64

definition SystematicSampler :: "sampling_type \<Rightarrow> u64 \<Rightarrow> u64 \<Rightarrow> int \<times> int \<Rightarrow> systematic_sampler" where
  "SystematicSampler ty interval spacing now =
     \<lparr>samplingType = ty, samplingOnTime = spacing, samplingOffTime = interval - spacing,
      sampler_interval = interval, startTime = now, packetCount = 0\<rparr>"

definition timersub :: "int \<times> int \<Rightarrow> int \<times> int \<Rightarrow> int \<times> int" where
  "timersub a b =
     (let s = fst a - fst b; u = snd a - snd b in if u < 0 then (s - 1, u + 1000000) else (s, u))"

definition mod_u64 :: "u64 \<Rightarrow> u64 \<Rightarrow> u64 res" where
  "mod_u64 a b = (if b = 0 then Inl (Exception ''division by zero'') else Inr (a mod b))"

definition systematic_process :: "packet \<Rightarrow> systematic_sampler \<Rightarrow> (bool \<times> systematic_sampler) res" where
  "systematic_process p s =
     (let s1 = s\<lparr>packetCount := packetCount s + 1\<rparr> in
      case samplingType s1 of
        TIME_BASED \<Rightarrow>
          (let elapsed = timersub (timestamp p) (startTime s1);
               msecs = (word_of_int (fst elapsed * 1000) + word_of_int (snd elapsed div 1000) :: u64)
           in res_bind (mod_u64 msecs (sampler_interval s1)) (\<lambda>m. Inr (m < samplingOnTime s1, s1)))
      | COUNT_BASED \<Rightarrow>
          res_bind (mod_u64 (packetCount s1) (sampler_interval s1)) (\<lambda>m. Inr (m < samplingOnTime s1, s1))
      | OTHER_TYPE n \<Rightarrow> Inr (False, s1))"

record random_sampler =
  samplingSize :: nat
  acceptSize :: nat
  currentPos :: nat
  sampleMask :: "bool list"

text \<open>The search for a free spot draws from \<open>rand\<close> until it hits one; it may go on forever.\<close>

partial_function (option) find_spot :: "(nat \<Rightarrow> nat) \<Rightarrow> bool list \<Rightarrow> nat \<Rightarrow> nat \<Rightarrow> (nat \<times> nat) option" where
  "find_spot rand taken n k =
     (let pos = rand k mod n in if taken ! pos then find_spot rand taken n (k + 1) else Some (pos, k + 1))"

fun fill_mask :: "(nat \<Rightarrow> nat) \<Rightarrow> nat \<Rightarrow> nat \<Rightarrow> nat \<Rightarrow> bool list \<Rightarrow> bool list option" where
  "fill_mask rand n 0 k taken = Some taken"
| "fill_mask rand n (Suc i) k taken =
     Option.bind (find_spot rand taken n k) (\<lambda>(pos, k'). fill_mask rand n i k' (taken[pos := True]))"

definition RandomSampler :: "(nat \<Rightarrow> nat) \<Rightarrow> nat \<Rightarrow> nat \<Rightarrow> random_sampler option" where
  "RandomSampler rand n N =
     (let (accept, total) = (if n > N then (N, n) else (n, N)) in
      map_option (\<lambda>taken. \<lparr>samplingSize = total, acceptSize = accept, currentPos = 0, sampleMask = taken\<rparr>)
        (fill_mask rand total accept 0 (replicate total False)))"

definition random_process :: "random_sampler \<Rightarrow> (bool \<times> random_sampler) res" where
  "random_process s =
     (if currentPos s < length (sampleMask s)
      then Inr (sampleMask s ! currentPos s, s\<lparr>currentPos := (currentPos s + 1) mod samplingSize s\<rparr>)
      else Inl OutOfBounds)"

section \<open>Filters on headers\<close>

record host_filter =
  addrFilter :: string
  ipList :: "bytes set"

text \<open>Addresses are compared as the four bytes in the packet.\<close>

definition net_bytes :: "packet \<Rightarrow> nat \<Rightarrow> nat \<Rightarrow> bytes res" where
  "net_bytes p i n = (if maxLayer2HeaderLength + i + n \<le> length (data p)
     then Inr (take n (drop (maxLayer2HeaderLength + i) (data p))) else Inl OutOfBounds)"

definition host_process :: "host_filter \<Rightarrow> packet \<Rightarrow> bool res" where
  "host_process h p =
     (if classification p AND PCLASS_NET_IP4 = 0 then Inr False
      else res_bind (net_bytes p 12 4) (\<lambda>srcIp. res_bind (net_bytes p 16 4) (\<lambda>dstIp.
        Inr (if addrFilter h = ''src'' then srcIp \<in> ipList h
             else if addrFilter h = ''dst'' then dstIp \<in> ipList h
             else if addrFilter h = ''both'' then srcIp \<in> ipList h \<or> dstIp \<in> ipList h
             else False))))"

datatype comparison = CMP_LT | CMP_LE | CMP_EQ | CMP_GE | CMP_GT | CMP_NE | CMP_BIT | CMP_OTHER

record ip_header_filter =
  m_header :: nat
  m_offset :: nat
  m_size :: nat
  m_comparison :: comparison
  m_value :: int

text \<open>A value as the \<open>int\<close> of its four octets.\<close>

definition as_int32 :: "int \<Rightarrow> int" where
  "as_int32 x = (let y = x mod 2 ^ 32 in if y < 2 ^ 31 then y else y - 2 ^ 32)"

definition IPHeaderFilter :: "nat \<Rightarrow> nat \<Rightarrow> nat \<Rightarrow> comparison \<Rightarrow> int \<Rightarrow> ip_header_filter" where
  "IPHeaderFilter header offset sz cmp v =
     \<lparr>m_header = header, m_offset = offset, m_size = sz, m_comparison = cmp,
      m_value = (if sz = 2 then le_of (htons_bytes (word_of_int v))
                 else if sz = 4 then as_int32 (le_of (htonl_bytes (word_of_int v))) else v)\<rparr>"

definition compareValues :: "comparison \<Rightarrow> int \<Rightarrow> int \<Rightarrow> bool" where
  "compareValues cmp a b =
     (case cmp of CMP_LT \<Rightarrow> a < b | CMP_LE \<Rightarrow> a \<le> b | CMP_EQ \<Rightarrow> a = b | CMP_GE \<Rightarrow> a \<ge> b | CMP_GT \<Rightarrow> a > b
      | CMP_NE \<Rightarrow> a \<noteq> b | CMP_BIT \<Rightarrow> a AND b \<noteq> 0 | CMP_OTHER \<Rightarrow> False)"

definition getData :: "packet \<Rightarrow> nat \<Rightarrow> nat \<Rightarrow> int res" where
  "getData p pos sz =
     (if sz = 1 then res_bind (net_bytes p pos 1) (\<lambda>bs. Inr (int (unat (hd bs))))
      else if sz = 2 then res_bind (net_bytes p pos 2) (\<lambda>bs. Inr (le_of bs))
      else if sz = 4 then res_bind (net_bytes p pos 4) (\<lambda>bs. Inr (as_int32 (le_of bs)))
      else Inr 0)"

definition ip_header_process :: "ip_header_filter \<Rightarrow> packet \<Rightarrow> bool res" where
  "ip_header_process f p =
     (case (if m_header f = 2 then transportHeader p else Some 0) of
        None \<Rightarrow> Inr False
      | Some start \<Rightarrow> res_bind (getData p (start + m_offset f) (m_size f)) (\<lambda>v.
          Inr (compareValues (m_comparison f) v (m_value f))))"

section \<open>Filters on the payload\<close>

text \<open>The difference of two unsigned ints.\<close>

definition sub_u32 :: "nat \<Rightarrow> nat \<Rightarrow> nat" where
  "sub_u32 a b = (a + 2 ^ 32 - b) mod 2 ^ 32"

text \<open>The payload filter cuts the packet at its payload and always lets it pass.\<close>

definition payload_process :: "packet \<Rightarrow> packet" where
  "payload_process p =
     (if classification p AND PCLASS_PAYLOAD \<noteq> 0
      then p\<lparr>data_length := the (payload p) + layer2HeaderLen p,
              classification := classification p XOR PCLASS_PAYLOAD\<rparr>
      else p)"

record string_filter =
  andFilters :: "bytes list"
  notFilters :: "bytes list"

definition addandFilter :: "bytes \<Rightarrow> string_filter \<Rightarrow> string_filter" where
  "addandFilter s f = (if length s > 0 then f\<lparr>andFilters := andFilters f @ [s]\<rparr> else f)"

definition addnotFilter :: "bytes \<Rightarrow> string_filter \<Rightarrow> string_filter" where
  "addnotFilter s f = (if length s > 0 then f\<lparr>notFilters := notFilters f @ [s]\<rparr> else f)"

text \<open>The inner loop of \<open>compare\<close> from index 1 on: how many characters in a row agree.\<close>

fun count_match :: "bytes \<Rightarrow> nat \<Rightarrow> bytes \<Rightarrow> nat \<Rightarrow> nat res" where
  "count_match m pos [] counter = Inr counter"
| "count_match m pos (t # ts) counter =
     res_bind (rd8 m pos) (\<lambda>b. if b \<noteq> t then Inr counter else count_match m (pos + 1) ts (counter + 1))"

function compare :: "bytes \<Rightarrow> nat \<Rightarrow> bytes \<Rightarrow> nat \<Rightarrow> nat \<Rightarrow> bool res" where
  "compare m pdata toMatch plength i =
     (if i + length toMatch \<le> plength
      then res_bind (rd8 m (pdata + i)) (\<lambda>b.
        if b = (case toMatch of [] \<Rightarrow> 0 | t # ts \<Rightarrow> t)
        then res_bind (count_match m (pdata + i + 1) (tl toMatch) 1) (\<lambda>counter.
          if counter = length toMatch then Inr True else compare m pdata toMatch plength (i + 1))
        else compare m pdata toMatch plength (i + 1))
      else Inr False)"
  by pat_completeness auto
termination by (relation "measure (\<lambda>(m, pdata, t, plength, i). Suc plength - i)") auto

declare compare.simps [simp del]

fun all_match :: "(bytes \<Rightarrow> bool res) \<Rightarrow> bool \<Rightarrow> bytes list \<Rightarrow> bool res" where
  "all_match cmp want [] = Inr True"
| "all_match cmp want (s # ss) = res_bind (cmp s) (\<lambda>b. if b = want then all_match cmp want ss else Inr False)"

definition string_process :: "string_filter \<Rightarrow> packet \<Rightarrow> bool res" where
  "string_process f p =
     (if payloadOffset p = 0 then Inr False
      else let pdata = maxLayer2HeaderLength + payloadOffset p; plength = sub_u32 (data_length p) (payloadOffset p);
               cmp = (\<lambda>s. compare (data p) pdata s plength 0)
           in res_bind (all_match cmp True (andFilters f)) (\<lambda>ok.
                if ok then all_match cmp False (notFilters f) else Inr False))"

definition hex_digit :: "char \<Rightarrow> nat option" where
  "hex_digit c =
     (let n = of_char c :: nat in
      if 48 \<le> n \<and> n \<le> 57 then Some (n - 48)
      else if 97 \<le> n \<and> n \<le> 102 then Some (n - 87)
      else if 65 \<le> n \<and> n \<le> 70 then Some (n - 55) else None)"

text \<open>\<open>strtol\<close> of 0x and two characters: it stops at the first that is no digit.\<close>

definition strtol_hex :: "char \<Rightarrow> char \<Rightarrow> byte" where
  "strtol_hex a b =
     (case hex_digit a of None \<Rightarrow> 0
      | Some x \<Rightarrow> (case hex_digit b of None \<Rightarrow> of_nat x | Some y \<Rightarrow> of_nat (16 * x + y)))"

fun hexparser :: "string \<Rightarrow> bytes" where
  "hexparser [] = []"
| "hexparser [a] = [strtol_hex a (CHR 0x00)]"
| "hexparser (a # b # rest) = strtol_hex a b # hexparser rest"

text \<open>\<open>boost::regex_search\<close> reads a string up to its terminating zero.\<close>

definition regex_process :: "(bytes \<Rightarrow> bool) \<Rightarrow> packet \<Rightarrow> bool res" where
  "regex_process rexp p =
     (if payloadOffset p = 0 then Inr False
      else let rest = drop (maxLayer2HeaderLength + payloadOffset p) (data p)
           in if 0 \<in> set rest then Inr (rexp (takeWhile (\<lambda>b. b \<noteq> 0) rest)) else Inl OutOfBounds)"

section \<open>Runs of a processor\<close>

text \<open>A sequence of packets through one processor: the decisions, its last state, the packets.\<close>

fun process_run :: "(packet \<Rightarrow> 's \<Rightarrow> (bool \<times> 's \<times> packet) res) \<Rightarrow> packet list \<Rightarrow> 's \<Rightarrow> (bool list \<times> 's \<times> packet list) res" where
  "process_run step [] s = Inr ([], s, [])"
| "process_run step (p # ps) s =
     res_bind (step p s) (\<lambda>(b, s1, p'). res_bind (process_run step ps s1) (\<lambda>(bs, s2, qs). Inr (b # bs, s2, p' # qs)))"

text \<open>The processors in one form: samplers keep a state, filters none, only the payload filter changes the packet.\<close>

definition sampler_step :: "(packet \<Rightarrow> 's \<Rightarrow> (bool \<times> 's) res) \<Rightarrow> packet \<Rightarrow> 's \<Rightarrow> (bool \<times> 's \<times> packet) res" where
  "sampler_step f p s = res_bind (f p s) (\<lambda>(b, s'). Inr (b, s', p))"

definition filter_step :: "('s \<Rightarrow> packet \<Rightarrow> bool res) \<Rightarrow> packet \<Rightarrow> 's \<Rightarrow> (bool \<times> 's \<times> packet) res" where
  "filter_step f p s = res_bind (f s p) (\<lambda>b. Inr (b, s, p))"

subsection \<open>Periodic decisions\<close>

text \<open>In a periodic sequence every window of one period holds the same number of hits.\<close>

lemma periodic_window:
  fixes P :: "nat \<Rightarrow> bool"
  assumes "\<And>i. P (i + n) = P i"
  shows "length (filter P [c..<c + n]) = length (filter P [0..<n])"
proof (induction c)
  case (Suc c)
  show ?case
  proof (cases n)
    case (Suc m)
    have "[Suc c..<Suc c + n] = [Suc c..<c + n] @ [c + n]" using Suc by simp
    moreover have "[c..<c + n] = c # [Suc c..<c + n]" using Suc by (simp add: upt_conv_Cons)
    ultimately show ?thesis using Suc.IH assms [of c] by (auto split: if_splits)
  qed simp
qed simp

lemma filter_below: "S \<le> n \<Longrightarrow> length (filter (\<lambda>i. i mod n < S) [0..<n]) = S" for S n :: nat
proof -
  assume "S \<le> n"
  have "filter (\<lambda>i. i mod n < S) [0..<n] = filter (\<lambda>i. i < S) [0..<n]"
    by (rule filter_cong) auto
  also have "\<dots> = [0..<S]"
  proof -
    have "[0..<n] = [0..<S] @ [S..<n]" using \<open>S \<le> n\<close> by (metis le_add_diff_inverse upt_add_eq_append zero_le)
    then show ?thesis by (simp add: filter_empty_conv filter_id_conv)
  qed
  finally show ?thesis by simp
qed

lemma systematic_run:
  assumes "samplingType s = COUNT_BASED" and "sampler_interval s \<noteq> 0"
    and "unat (packetCount s) + length ps < 2 ^ 64"
  shows "\<exists>s' qs. process_run (sampler_step systematic_process) ps s =
    Inr (map (\<lambda>i. i mod unat (sampler_interval s) < unat (samplingOnTime s))
           [Suc (unat (packetCount s))..<Suc (unat (packetCount s) + length ps)], s', qs)"
  using assms
proof (induction ps arbitrary: s)
  case (Cons p ps)
  let ?s = "s\<lparr>packetCount := packetCount s + 1\<rparr>"
  have c: "unat (packetCount s + 1) = Suc (unat (packetCount s))"
    using Cons.prems(3) by (simp add: unat_word_ariths)
  obtain s' qs where r: "process_run (sampler_step systematic_process) ps ?s =
    Inr (map (\<lambda>i. i mod unat (sampler_interval s) < unat (samplingOnTime s))
           [Suc (Suc (unat (packetCount s)))..<Suc (Suc (unat (packetCount s)) + length ps)], s', qs)"
    using Cons.IH [of ?s] Cons.prems c by auto
  have "sampler_step systematic_process p s =
    Inr (Suc (unat (packetCount s)) mod unat (sampler_interval s) < unat (samplingOnTime s), ?s, p)"
    using Cons.prems(1,2) c by (simp add: sampler_step_def systematic_process_def Let_def mod_u64_def word_less_nat_alt unat_mod_distrib)
  then show ?case using r
    by (simp add: upt_conv_Cons del: upt_Suc)
qed simp

text \<open>
  C33: systematic count-based sampling is exact. Whatever number of packets went before (as long as
  the 64-bit counter does not wrap), of every \<open>interval\<close> consecutive packets exactly \<open>spacing\<close>
  pass the sampler.
\<close>

theorem systematic_sampling_exact:
  assumes "samplingType s = COUNT_BASED" and "0 < unat (sampler_interval s)"
    and "samplingOnTime s \<le> sampler_interval s"
    and "length ps = unat (sampler_interval s)" and "unat (packetCount s) + length ps < 2 ^ 64"
  shows "\<exists>bs s' qs. process_run (sampler_step systematic_process) ps s = Inr (bs, s', qs) \<and>
    length (filter (\<lambda>b. b) bs) = unat (samplingOnTime s)"
proof -
  let ?I = "unat (sampler_interval s)" and ?c = "Suc (unat (packetCount s))"
  let ?P = "\<lambda>i. i mod ?I < unat (samplingOnTime s)"
  obtain s' qs where r: "process_run (sampler_step systematic_process) ps s = Inr (map ?P [?c..<?c + ?I], s', qs)"
    using systematic_run [OF assms(1) _ assms(5)] assms(2,4) by fastforce
  have "length (filter (\<lambda>b. b) (map ?P [?c..<?c + ?I])) = length (filter ?P [?c..<?c + ?I])"
    by (simp add: filter_map o_def del: upt_Suc)
  also have "\<dots> = length (filter ?P [0..<?I])" by (rule periodic_window) simp
  also have "\<dots> = unat (samplingOnTime s)" using assms(3) by (simp add: filter_below word_le_nat_alt)
  finally show ?thesis using r by blast
qed

subsection \<open>Random n-out-of-N sampling\<close>

lemma find_spot_returns:
  assumes "k \<le> k'" and "\<not> taken ! (rand k' mod n)"
  shows "\<exists>pos j. find_spot rand taken n k = Some (pos, j) \<and> \<not> taken ! pos \<and> (\<exists>i. pos = rand i mod n)"
  using assms
proof (induction "k' - k" arbitrary: k)
  case 0
  then show ?case by (subst find_spot.simps) (auto simp: Let_def)
next
  case (Suc d)
  show ?case
  proof (cases "taken ! (rand k mod n)")
    case True
    then have "find_spot rand taken n k = find_spot rand taken n (k + 1)"
      by (subst find_spot.simps) (simp add: Let_def)
    then show ?thesis using Suc.hyps(1) [of "k + 1"] Suc.hyps(2) Suc.prems by auto
  next
    case False
    then show ?thesis by (subst find_spot.simps) (auto simp: Let_def)
  qed
qed

abbreviation hits :: "bool list \<Rightarrow> nat" where
  "hits bs \<equiv> length (filter (\<lambda>b. b) bs)"

lemma hits_update: "pos < length t \<Longrightarrow> \<not> t ! pos \<Longrightarrow> hits (t[pos := True]) = Suc (hits t)"
  by (induction t arbitrary: pos) (auto simp: nth_Cons split: nat.splits)

lemma hits_full: "hits t < length t \<Longrightarrow> \<exists>r < length t. \<not> t ! r"
proof (rule ccontr)
  assume "hits t < length t" and "\<not> (\<exists>r < length t. \<not> t ! r)"
  then have "filter (\<lambda>b. b) t = t" by (auto simp: filter_id_conv in_set_conv_nth)
  then show False using \<open>hits t < length t\<close> by simp
qed

text \<open>What the constructor needs of \<open>rand\<close>: from every point on it still yields every position.\<close>

definition hits_all :: "(nat \<Rightarrow> nat) \<Rightarrow> nat \<Rightarrow> bool" where
  "hits_all rand n \<longleftrightarrow> (\<forall>r < n. \<forall>k. \<exists>k' \<ge> k. rand k' mod n = r)"

lemma fill_mask_exact:
  assumes "hits_all rand n" and "length taken = n" and "hits taken + i \<le> n" and "0 < n"
  shows "\<exists>t. fill_mask rand n i k taken = Some t \<and> length t = n \<and> hits t = hits taken + i"
  using assms(2,3)
proof (induction i arbitrary: k taken)
  case (Suc i)
  obtain r where r: "r < n" "\<not> taken ! r" using hits_full [of taken] Suc.prems by auto
  obtain k' where "k \<le> k'" "rand k' mod n = r" using assms(1) r(1) by (auto simp: hits_all_def)
  then obtain pos j where f: "find_spot rand taken n k = Some (pos, j)" "\<not> taken ! pos" "pos < n"
    using find_spot_returns [of k k' taken rand n] r(2) assms(4) by auto
  then have "hits (taken[pos := True]) = Suc (hits taken)" using Suc.prems(1) by (simp add: hits_update)
  then show ?case using Suc.IH [of "taken[pos := True]" j] Suc.prems f(1) by auto
qed simp

lemma random_run:
  assumes "0 < n" and "samplingSize s = n" and "length (sampleMask s) = n" and "currentPos s < n"
    and "currentPos s = c mod n"
  shows "\<exists>s' qs. process_run (sampler_step (\<lambda>p. random_process)) ps s =
    Inr (map (\<lambda>i. sampleMask s ! (i mod n)) [c..<c + length ps], s', qs)"
  using assms(2-)
proof (induction ps arbitrary: s c)
  case (Cons p ps)
  let ?s = "s\<lparr>currentPos := (currentPos s + 1) mod samplingSize s\<rparr>"
  have "currentPos ?s = Suc c mod n" using Cons.prems by (simp add: mod_Suc_eq)
  then obtain s' qs where "process_run (sampler_step (\<lambda>p. random_process)) ps ?s =
      Inr (map (\<lambda>i. sampleMask s ! (i mod n)) [Suc c..<Suc c + length ps], s', qs)"
    using Cons.IH [of ?s "Suc c"] Cons.prems assms(1) by auto
  moreover have "sampler_step (\<lambda>p. random_process) p s = Inr (sampleMask s ! (c mod n), ?s, p)"
    using Cons.prems by (simp add: sampler_step_def random_process_def)
  ultimately show ?case by (simp add: upt_conv_Cons del: upt_Suc)
qed simp

text \<open>
  C32: random n-out-of-N sampling is exact. When the random generator goes on yielding every
  position, the constructor ends with a mask, and from then on, after any number \<open>k\<close> of packets,
  exactly n of the next N packets pass (with the two numbers exchanged when n is the larger).
\<close>

theorem random_sampling_exact:
  assumes "hits_all rand (max n N)" and "0 < max n N" and "length ps = k + max n N"
  shows "\<exists>s bs s' qs. RandomSampler rand n N = Some s \<and>
    process_run (sampler_step (\<lambda>p. random_process)) ps s = Inr (bs, s', qs) \<and>
    length (filter (\<lambda>b. b) (drop k bs)) = min n N"
proof -
  let ?N = "max n N"
  obtain t where t: "fill_mask rand ?N (min n N) 0 (replicate ?N False) = Some t" "length t = ?N" "hits t = min n N"
    using fill_mask_exact [OF assms(1), of "replicate ?N False" "min n N" 0] assms(2)
    by (auto simp: filter_replicate min.coboundedI1)
  let ?s = "\<lparr>samplingSize = ?N, acceptSize = min n N, currentPos = 0, sampleMask = t\<rparr>"
  have s: "RandomSampler rand n N = Some ?s"
    using t(1) by (auto simp: RandomSampler_def max_def min_def split: if_splits)
  obtain s' qs where r: "process_run (sampler_step (\<lambda>p. random_process)) ps ?s =
      Inr (map (\<lambda>i. t ! (i mod ?N)) [0..<length ps], s', qs)"
    using random_run [of ?N ?s 0 ps] assms(2) t(2) by auto
  have "hits (drop k (map (\<lambda>i. t ! (i mod ?N)) [0..<length ps])) = length (filter (\<lambda>i. t ! (i mod ?N)) [k..<k + ?N])"
    using assms(3) by (simp add: drop_map filter_map o_def)
  also have "\<dots> = length (filter (\<lambda>i. t ! (i mod ?N)) [0..<?N])" by (rule periodic_window) simp
  also have "\<dots> = length (filter (\<lambda>i. t ! i) [0..<?N])"
    by (rule arg_cong [where f = length], rule filter_cong) auto
  also have "\<dots> = hits (map (\<lambda>i. t ! i) [0..<length t])" by (simp add: filter_map o_def t(2))
  also have "\<dots> = min n N" using t(3) by (simp only: map_nth)
  finally show ?thesis using s r by blast
qed

section \<open>The string filter\<close>

lemma count_match_exact:
  assumes "pos + length ts \<le> length m"
  shows "\<exists>n. count_match m pos ts c = Inr (c + n) \<and> n \<le> length ts \<and> (n = length ts \<longleftrightarrow> take (length ts) (drop pos m) = ts)"
  using assms
proof (induction ts arbitrary: pos c)
  case (Cons t ts)
  have d: "drop pos m = m ! pos # drop (Suc pos) m" using Cons.prems by (simp add: Cons_nth_drop_Suc)
  show ?case
  proof (cases "m ! pos = t")
    case True
    obtain n where "count_match m (pos + 1) ts (c + 1) = Inr (c + 1 + n)" "n \<le> length ts"
        "n = length ts \<longleftrightarrow> take (length ts) (drop (pos + 1) m) = ts"
      using Cons.IH [of "pos + 1" "c + 1"] Cons.prems by auto
    then show ?thesis using True Cons.prems d by (intro exI [of _ "Suc n"]) (auto simp: rd8_def)
  next
    case False
    then show ?thesis using Cons.prems d by (intro exI [of _ 0]) (auto simp: rd8_def)
  qed
qed simp

lemma from_next: "(\<exists>j \<ge> i. P j) \<longleftrightarrow> P i \<or> (\<exists>j \<ge> i + 1. P j)" for i :: nat
  by (metis Suc_eq_plus1 le_refl not_less_eq_eq nle_le)

lemma compare_exact:
  assumes "toMatch \<noteq> []" and "pdata + plength \<le> length m"
  shows "compare m pdata toMatch plength i = Inr (\<exists>j \<ge> i. j + length toMatch \<le> plength \<and>
    take (length toMatch) (drop (pdata + j) m) = toMatch)"
  using assms
proof (induction m pdata toMatch plength i rule: compare.induct)
  case (1 m pdata toMatch plength i)
  let ?at = "\<lambda>j. j + length toMatch \<le> plength \<and> take (length toMatch) (drop (pdata + j) m) = toMatch"
  obtain t ts where t: "toMatch = t # ts" using "1.prems"(1) by (cases toMatch) auto
  show ?case
  proof (cases "i + length toMatch \<le> plength")
    case False
    then show ?thesis by (subst compare.simps) auto
  next
    case True
    have rd: "rd8 m (pdata + i) = Inr (m ! (pdata + i))" using True "1.prems"(2) t by (simp add: rd8_def)
    have d: "drop (pdata + i) m = m ! (pdata + i) # drop (Suc (pdata + i)) m"
      using True "1.prems"(2) t by (simp add: Cons_nth_drop_Suc)
    have step: "(\<exists>j \<ge> i. ?at j) \<longleftrightarrow> ?at i \<or> (\<exists>j \<ge> i + 1. ?at j)" by (rule from_next)
    obtain n where n: "count_match m (pdata + i + 1) ts 1 = Inr (1 + n)"
        "n = length ts \<longleftrightarrow> take (length ts) (drop (pdata + i + 1) m) = ts"
      using count_match_exact [of "pdata + i + 1" ts m 1] True "1.prems"(2) t by auto
    have at: "?at i \<longleftrightarrow> m ! (pdata + i) = t \<and> n = length ts" using True n(2) d t by auto
    consider "m ! (pdata + i) \<noteq> t" | "m ! (pdata + i) = t" "n \<noteq> length ts" | "m ! (pdata + i) = t" "n = length ts" by blast
    then show ?thesis
    proof cases
      case 1
      then show ?thesis using "1.IH"(2) [OF True, of "m ! (pdata + i)"] "1.prems" True rd step at t
        by (subst compare.simps) simp
    next
      case 2
      then show ?thesis using "1.IH"(1) [OF True, of "m ! (pdata + i)" "1 + n"] "1.prems" True rd step at t n(1)
        by (subst compare.simps) simp
    next
      case 3
      then show ?thesis using True rd step at t n(1) by (subst compare.simps) auto
    qed
  qed
qed

lemma sublist_at: "sublist t xs \<longleftrightarrow> (\<exists>j. j + length t \<le> length xs \<and> take (length t) (drop j xs) = t)"
proof
  assume "sublist t xs"
  then obtain ps ss where "xs = ps @ t @ ss" by (auto simp: sublist_def)
  then show "\<exists>j. j + length t \<le> length xs \<and> take (length t) (drop j xs) = t"
    by (intro exI [of _ "length ps"]) simp
next
  assume "\<exists>j. j + length t \<le> length xs \<and> take (length t) (drop j xs) = t"
  then obtain j where "take (length t) (drop j xs) = t" by blast
  then have "xs = take j xs @ t @ drop (length t) (drop j xs)" by (metis append_take_drop_id)
  then show "sublist t xs" by (metis sublist_appendI)
qed

definition payload_bytes :: "packet \<Rightarrow> bytes" where
  "payload_bytes p = take (data_length p - payloadOffset p) (drop (maxLayer2HeaderLength + payloadOffset p) (data p))"

lemma sub_u32_exact: "b \<le> a \<Longrightarrow> a < 2 ^ 32 \<Longrightarrow> sub_u32 a b = a - b"
proof -
  assume "b \<le> a" "a < 2 ^ 32"
  then have "a + 2 ^ 32 - b = (a - b) + 2 ^ 32" "a - b < 2 ^ 32" by auto
  then show ?thesis by (simp only: sub_u32_def mod_add_self2 mod_less)
qed

lemma compare_sublist:
  assumes "packet_sized p" and "payloadOffset p \<le> data_length p" and "s \<noteq> []"
  shows "compare (data p) (maxLayer2HeaderLength + payloadOffset p) s (sub_u32 (data_length p) (payloadOffset p)) 0 =
    Inr (sublist s (payload_bytes p))"
proof -
  have b: "data_length p \<le> 128" "length (data p) = 158" using assms(1)
    by (auto simp: packet_sized_def maxLayer2HeaderLength_def PCAP_MAX_CAPTURE_LENGTH_def)
  then have sub: "sub_u32 (data_length p) (payloadOffset p) = data_length p - payloadOffset p"
    using assms(2) by (simp add: sub_u32_exact)
  have "take (length s) (drop (maxLayer2HeaderLength + payloadOffset p + j) (data p)) = take (length s) (drop j (payload_bytes p))"
    if "j + length s \<le> data_length p - payloadOffset p" for j
    using that by (simp add: payload_bytes_def drop_take min_def add.commute add.left_commute)
  moreover have "length (payload_bytes p) = data_length p - payloadOffset p"
    using b assms(2) by (simp add: payload_bytes_def maxLayer2HeaderLength_def)
  ultimately show ?thesis
    using compare_exact [of s "maxLayer2HeaderLength + payloadOffset p" "data_length p - payloadOffset p" "data p" 0] assms(2,3) b
    by (auto simp: sub sublist_at maxLayer2HeaderLength_def)
qed

lemma all_match_exact:
  "(\<And>s. s \<in> set ss \<Longrightarrow> cmp s = Inr (Q s)) \<Longrightarrow> all_match cmp want ss = Inr (\<forall>s \<in> set ss. Q s = want)"
  by (induction ss) auto

lemma addand_fold: "fold addandFilter ss f = f\<lparr>andFilters := andFilters f @ filter (\<lambda>s. s \<noteq> []) ss\<rparr>"
  by (induction ss arbitrary: f) (auto simp: addandFilter_def)

lemma addnot_fold: "fold addnotFilter ss f = f\<lparr>notFilters := notFilters f @ filter (\<lambda>s. s \<noteq> []) ss\<rparr>"
  by (induction ss arbitrary: f) (auto simp: addnotFilter_def)


section \<open>The header filter\<close>

lemma as_int32_le_of:
  assumes "length xs = 4" and "length ys = 4"
  shows "as_int32 (le_of xs) = as_int32 (le_of ys) \<longleftrightarrow> xs = ys"
proof -
  have in_range: "0 \<le> le_of zs" "le_of zs < 4294967296" "le_of zs mod 4294967296 = le_of zs" if "length zs = 4" for zs
    using be_of_bound [of "rev zs"] that by (simp_all add: le_of_def)
  note x = in_range [OF assms(1)] and y = in_range [OF assms(2)]
  have "as_int32 (le_of xs) = as_int32 (le_of ys) \<longleftrightarrow> le_of xs = le_of ys"
    using x y by (auto simp: as_int32_def Let_def split: if_splits)
  then show ?thesis using assms by (simp add: le_of_inj)
qed

text \<open>The octets of the field a header filter looks at.\<close>

definition header_field :: "nat \<Rightarrow> nat \<Rightarrow> packet \<Rightarrow> bytes" where
  "header_field pos sz p = take sz (drop (maxLayer2HeaderLength + pos) (data p))"

lemma getData_field:
  assumes "packet_sized p" and "pos + sz \<le> PCAP_MAX_CAPTURE_LENGTH"
  shows "getData p pos sz =
    (if sz = 1 then Inr (int (be_of (header_field pos 1 p)))
     else if sz = 2 then Inr (le_of (header_field pos 2 p))
     else if sz = 4 then Inr (as_int32 (le_of (header_field pos 4 p))) else Inr 0)"
    and "length (header_field pos sz p) = sz"
proof -
  have "net_bytes p pos sz = Inr (header_field pos sz p)" and l: "length (header_field pos sz p) = sz"
    using assms by (auto simp: net_bytes_def header_field_def packet_sized_def)
  moreover have "int (unat (hd bs)) = int (be_of bs)" if "length bs = 1" for bs
    using that by (cases bs) auto
  ultimately show "getData p pos sz = (if sz = 1 then Inr (int (be_of (header_field pos 1 p)))
     else if sz = 2 then Inr (le_of (header_field pos 2 p))
     else if sz = 4 then Inr (as_int32 (le_of (header_field pos 4 p))) else Inr 0)"
    by (auto simp: getData_def)
  show "length (header_field pos sz p) = sz" by (rule l)
qed

lemma header_process_field:
  assumes "packet_sized p" and "(if h = 2 then transportHeader p else Some 0) = Some start"
    and "start + off + sz \<le> PCAP_MAX_CAPTURE_LENGTH"
  shows "ip_header_process (IPHeaderFilter h off sz cmp v) p =
    res_bind (getData p (start + off) sz) (\<lambda>x. Inr (compareValues cmp x (m_value (IPHeaderFilter h off sz cmp v))))"
  using assms by (simp add: ip_header_process_def IPHeaderFilter_def split: if_splits)

lemma m_value_IPHeaderFilter:
  "m_value (IPHeaderFilter h off sz cmp (int v)) = (if sz = 2 then le_of (htons_bytes (of_nat v))
     else if sz = 4 then as_int32 (le_of (htonl_bytes (of_nat v))) else int v)"
  by (simp add: IPHeaderFilter_def)

text \<open>
  C35: tests for equality of the header filter are right for fields of 1, 2 and 4 octets: for every
  value in the range of the field, the filter compares the number the field spells in network byte
  order. Fields of one octet are ordered rightly as well.
\<close>

theorem header_filter_exact:
  assumes "packet_sized p" and "(if h = 2 then transportHeader p else Some 0) = Some start"
    and "start + off + sz \<le> PCAP_MAX_CAPTURE_LENGTH" and "sz \<in> {1, 2, 4}" and "v < 256 ^ sz"
    and "n = be_of (header_field (start + off) sz p)"
  shows "ip_header_process (IPHeaderFilter h off sz CMP_EQ (int v)) p = Inr (n = v) \<and>
    ip_header_process (IPHeaderFilter h off sz CMP_NE (int v)) p = Inr (n \<noteq> v) \<and>
    (sz = 1 \<longrightarrow> ip_header_process (IPHeaderFilter h off sz cmp (int v)) p = Inr (compareValues cmp (int n) (int v)))"
proof -
  note proc = header_process_field [OF assms(1-3)]
  note get = getData_field(1) [OF assms(1,3)]
  have len: "length (header_field (start + off) sz p) = sz" by (rule getData_field(2) [OF assms(1,3)])
  show ?thesis
  proof (cases "sz = 1")
    case True
    then show ?thesis unfolding proc get m_value_IPHeaderFilter assms(6) by (simp add: compareValues_def)
  next
    case False
    let ?f = "header_field (start + off) sz p"
    have "(le_of ?f = le_of (htons_bytes (of_nat v))) = (n = v)" if "sz = 2"
      using len that assms(5,6) be_of_inj [of ?f "htons_bytes (of_nat v)"] by (simp add: le_of_inj be_of_htons)
    moreover have "(as_int32 (le_of ?f) = as_int32 (le_of (htonl_bytes (of_nat v)))) = (n = v)" if "sz = 4"
      using len that assms(5,6) be_of_inj [of ?f "htonl_bytes (of_nat v)"] by (simp add: as_int32_le_of be_of_htonl)
    ultimately show ?thesis using False assms(4)
      unfolding proc get m_value_IPHeaderFilter by (elim insertE emptyE) (simp_all add: compareValues_def)
  qed
qed

text \<open>
  The orders are not: a field of two octets is compared with its octets swapped, so the number
  \<open>256 * a + b\<close> of the packet counts as \<open>256 * b + a\<close>.
\<close>

lemma header_order_swapped:
  assumes "packet_sized p" and "off + 2 \<le> PCAP_MAX_CAPTURE_LENGTH" and "v < 65536"
    and "header_field off 2 p = [a, b]"
  shows "ip_header_process (IPHeaderFilter 1 off 2 CMP_LT (int v)) p =
    Inr (256 * unat b + unat a < 256 * (v mod 256) + v div 256)"
proof -
  have "ip_header_process (IPHeaderFilter 1 off 2 CMP_LT (int v)) p =
      Inr (le_of [a, b] < le_of (htons_bytes (of_nat v)))"
    using header_process_field [of p 1 0 off 2 CMP_LT "int v"] getData_field [of p off 2] assms
    by (simp add: m_value_IPHeaderFilter compareValues_def)
  moreover have "le_of (htons_bytes (of_nat v)) = int (256 * (v mod 256) + v div 256)"
    using assms(3) by (simp add: le_of_def htons_bytes_def unat_of_nat_byte unat_of_nat_u16)
  moreover have "le_of [a, b] = int (256 * unat b + unat a)" by (simp add: le_of_def)
  ultimately show ?thesis by (simp only: of_nat_less_iff)
qed

section \<open>The theorems at concrete inputs\<close>

theorem systematic_sampling_exact_witness:
  "\<exists>bs s' qs. process_run (sampler_step systematic_process) (replicate 3 blank_packet) (SystematicSampler COUNT_BASED 3 1 (0, 0)) =
     Inr (bs, s', qs) \<and> length (filter (\<lambda>b. b) bs) = 1"
  using systematic_sampling_exact [of "SystematicSampler COUNT_BASED 3 1 (0, 0)" "replicate 3 blank_packet"]
  by (simp add: SystematicSampler_def)

lemma hits_all_id: "hits_all (\<lambda>k. k) n"
  unfolding hits_all_def
proof (intro allI impI)
  fix r k :: nat
  assume "r < n"
  then have "k \<le> n * k + r" "(n * k + r) mod n = r" by (auto simp: trans_le_add1)
  then show "\<exists>k' \<ge> k. k' mod n = r" by blast
qed

theorem random_sampling_exact_witness:
  "\<exists>s bs s' qs. RandomSampler (\<lambda>k. k) 1 2 = Some s \<and>
     process_run (sampler_step (\<lambda>p. random_process)) (replicate 3 blank_packet) s = Inr (bs, s', qs) \<and>
     length (filter (\<lambda>b. b) (drop 1 bs)) = 1"
  using random_sampling_exact [of "\<lambda>k. k" 1 2 "replicate 3 blank_packet" 1] by (simp add: hits_all_id)

lemma sized_blank: "packet_sized (blank_packet\<lparr>data := bs, payloadOffset := po, data_length := n\<rparr>) \<longleftrightarrow> length bs = 158 \<and> n \<le> 128"
  by (simp add: packet_sized_def blank_packet_def maxLayer2HeaderLength_def PCAP_MAX_CAPTURE_LENGTH_def)


theorem header_filter_exact_witness:
  "ip_header_process (IPHeaderFilter 1 9 1 CMP_EQ (int 6))
     (blank_packet\<lparr>data := replicate 39 0 @ [6] @ replicate 118 0, payloadOffset := 0, data_length := 60\<rparr>) = Inr True"
proof -
  define p where "p = blank_packet\<lparr>data := replicate 39 0 @ [6] @ replicate 118 0, payloadOffset := 0, data_length := 60\<rparr>"
  have field: "6 = be_of (header_field (0 + 9) 1 p)" by (simp add: p_def header_field_def maxLayer2HeaderLength_def)
  have sized: "packet_sized p" by (simp add: p_def sized_blank)
  have "ip_header_process (IPHeaderFilter 1 9 1 CMP_EQ (int 6)) p = Inr (6 = (6 :: nat))"
    by (rule header_filter_exact [OF sized _ _ _ _ field, THEN conjunct1]) (simp_all add: PCAP_MAX_CAPTURE_LENGTH_def)
  then have "ip_header_process (IPHeaderFilter 1 9 1 CMP_EQ (int 6)) p = Inr True" by simp
  then show ?thesis by (simp only: p_def)
qed

end
