(* ===== verification/Connection_Filter.thy ===== *)
theory Connection_Filter
  imports Packet_Filter
begin

text \<open>
  Filters that export the first bytes of every TCP connection: the connection key of
  src/src/common/bloom/BloomFilterBase.h, \<open>StateConnectionFilter\<close> with a table of connections, and
  \<open>ConnectionFilter\<close>, which keeps its state in Bloom filters. What they show: the key identifies a
  connection in both directions, the table passes exactly the packets within the byte budget, and
  the Bloom variant looks for the TCP flags at a wrong place.
\<close>

section \<open>The key of a connection\<close>

definition trans_bytes :: "packet \<Rightarrow> nat \<Rightarrow> nat \<Rightarrow> bytes res" where
  "trans_bytes p i n = (case transportHeader p of None \<Rightarrow> Inl OutOfBounds | Some th \<Rightarrow> net_bytes p (th + i) n)"

text \<open>The 15 bytes of the key: two addresses, the protocol (never set) and its padding, two ports, a rest.\<close>

definition quintuple :: "bytes \<Rightarrow> bytes \<Rightarrow> bytes \<Rightarrow> bytes \<Rightarrow> bytes" where
  "quintuple srcIp dstIp srcPort dstPort = srcIp @ dstIp @ [0, 0] @ srcPort @ dstPort @ [0]"

definition key_of :: "bytes \<Rightarrow> bytes \<Rightarrow> bytes \<Rightarrow> bytes \<Rightarrow> bytes" where
  "key_of ip1 ip2 port1 port2 =
     (if le_of ip1 = le_of ip2 then quintuple ip1 ip1 (if le_of port1 > le_of port2 then port2 else port1) [0, 0]
      else if le_of ip1 > le_of ip2 then quintuple ip1 ip2 port1 port2
      else quintuple ip2 ip1 port2 port1)"

definition QuintupleKey :: "packet \<Rightarrow> bytes res" where
  "QuintupleKey p =
     (if ipProtocolType p = TCP
      then res_bind (net_bytes p 12 4) (\<lambda>ip1. res_bind (net_bytes p 16 4) (\<lambda>ip2.
             res_bind (trans_bytes p 0 2) (\<lambda>port1. res_bind (trans_bytes p 2 2) (\<lambda>port2.
               Inr (key_of ip1 ip2 port1 port2)))))
      else Inr (replicate 15 0))"

section \<open>The filter with a table of connections\<close>

definition SYN :: byte where "SYN = 0x02"
definition FIN :: byte where "FIN = 0x01"
definition RST :: byte where "RST = 0x04"

record state_connection_filter =
  timeout :: nat
  exportBytes :: nat
  exportList :: "bytes \<rightharpoonup> int"
  exportControlPackets :: bool

definition StateConnectionFilter :: "nat \<Rightarrow> nat \<Rightarrow> state_connection_filter" where
  "StateConnectionFilter tmo byt = \<lparr>timeout = tmo, exportBytes = byt, exportList = Map.empty, exportControlPackets = True\<rparr>"

definition payloadLen :: "packet \<Rightarrow> nat" where
  "payloadLen p = (if classification p AND PCLASS_PAYLOAD \<noteq> 0 then sub_u32 (data_length p) (payloadOffset p) else 0)"

text \<open>A packet with none of the flags SYN, RST and FIN.\<close>

definition known_packet :: "nat \<Rightarrow> bytes \<Rightarrow> state_connection_filter \<Rightarrow> bool \<times> state_connection_filter" where
  "known_packet len key f =
     (case exportList f key of
        None \<Rightarrow> (False, f)
      | Some v \<Rightarrow>
          if v > 0 then
            (let v' = as_int32 (v - int len) in
             (v > as_int32 (int len),
              f\<lparr>exportList := (if v' \<le> 0 then (exportList f)(key := None) else (exportList f)(key \<mapsto> v'))\<rparr>))
          else if exportBytes f > len
            then (True, f\<lparr>exportList := (exportList f)(key \<mapsto> as_int32 (int (exportBytes f) - int len))\<rparr>)
            else (False, f\<lparr>exportList := (exportList f)(key := None)\<rparr>))"

definition state_process :: "packet \<Rightarrow> state_connection_filter \<Rightarrow> (bool \<times> state_connection_filter) res" where
  "state_process p f =
     (if ipProtocolType p \<noteq> TCP then Inr (False, f)
      else res_bind (QuintupleKey p) (\<lambda>key. res_bind (net8 p (transportHeaderOffset p + 13)) (\<lambda>flags.
        if flags AND SYN \<noteq> 0
        then Inr (exportControlPackets f,
                  if exportList f key = None then f\<lparr>exportList := (exportList f)(key \<mapsto> 0)\<rparr> else f)
        else if flags AND RST \<noteq> 0 \<or> flags AND FIN \<noteq> 0
        then Inr (exportControlPackets f, f\<lparr>exportList := (exportList f)(key := None)\<rparr>)
        else Inr (known_packet (payloadLen p) key f))))"

section \<open>The filter with Bloom filters\<close>

record connection_filter =
  synFilter :: "int list bloom_filter"
  exportFilter :: "int list bloom_filter"
  connectionFilter :: "int list bloom_filter"
  conn_timeout :: nat
  conn_exportBytes :: nat
  conn_exportControlPackets :: bool

definition ConnectionFilter :: "(nat \<Rightarrow> u32) \<Rightarrow> nat \<Rightarrow> nat \<Rightarrow> nat \<Rightarrow> nat \<Rightarrow> connection_filter" where
  "ConnectionFilter rand tmo byt hashFunctions sz =
     (let f = BloomFilterBase Array_resize (HashParams hashFunctions rand) sz False in
      \<lparr>synFilter = f, exportFilter = f, connectionFilter = f, conn_timeout = tmo, conn_exportBytes = byt,
       conn_exportControlPackets = True\<rparr>)"

text \<open>
  The value of the count filter goes through an unsigned long, so a negative one counts as more
  than any payload; the difference goes back as an int.
\<close>

definition exported_packet :: "(u32 \<Rightarrow> nat \<Rightarrow> u64) \<Rightarrow> int \<Rightarrow> nat \<Rightarrow> bytes \<Rightarrow> connection_filter \<Rightarrow> bool \<times> connection_filter" where
  "exported_packet rng now len key f =
     (let v = MinBloomFilter_get rng key (exportFilter f);
          more = v < 0 \<or> v > int len;
          f1 = f\<lparr>exportFilter := CountBloomFilter_set rng key (as_int32 (if more then - int len else - v)) (exportFilter f)\<rparr>
      in (more,
          if MinBloomFilter_get rng key (exportFilter f1) \<le> 0
          then f1\<lparr>connectionFilter := AgeBloomFilter_set rng key now (connectionFilter f1)\<rparr> else f1))"

definition new_packet :: "(u32 \<Rightarrow> nat \<Rightarrow> u64) \<Rightarrow> int \<Rightarrow> nat \<Rightarrow> bytes \<Rightarrow> connection_filter \<Rightarrow> bool \<times> connection_filter" where
  "new_packet rng now len key f =
     (let syn = MinBloomFilter_get rng key (synFilter f) in
      if (now - syn) mod 2 ^ 32 < int (conn_timeout f) \<and> syn - MinBloomFilter_get rng key (connectionFilter f) > 0
      then if len < conn_exportBytes f
        then (True, f\<lparr>exportFilter := CountBloomFilter_set rng key (as_int32 (int (conn_exportBytes f) - int len)) (exportFilter f)\<rparr>)
        else (False, f\<lparr>connectionFilter := AgeBloomFilter_set rng key now (connectionFilter f)\<rparr>)
      else (False, f))"

definition connection_process :: "(u32 \<Rightarrow> nat \<Rightarrow> u64) \<Rightarrow> packet \<Rightarrow> connection_filter \<Rightarrow> (bool \<times> connection_filter) res" where
  "connection_process rng p f =
     res_bind (QuintupleKey p) (\<lambda>key.
       if ipProtocolType p \<noteq> TCP then Inr (False, f)
       else res_bind (rd8 (data p) (maxLayer2HeaderLength - layer2HeaderLen p + (transportHeaderOffset p + 13))) (\<lambda>flags.
         let now = fst (timestamp p); len = payloadLen p in
         if flags AND SYN \<noteq> 0
         then Inr (conn_exportControlPackets f, f\<lparr>synFilter := AgeBloomFilter_set rng key now (synFilter f)\<rparr>)
         else if flags AND RST \<noteq> 0 \<or> flags AND FIN \<noteq> 0
         then Inr (conn_exportControlPackets f,
                f\<lparr>exportFilter := CountBloomFilter_set rng key (- MinBloomFilter_get rng key (exportFilter f)) (exportFilter f),
                  connectionFilter := AgeBloomFilter_set rng key now (connectionFilter f)\<rparr>)
         else Inr (if MinBloomFilter_get rng key (exportFilter f) \<noteq> 0
                   then exported_packet rng now len key f else new_packet rng now len key f)))"

section \<open>The key identifies a connection\<close>

definition tcp_packet :: "packet \<Rightarrow> bool" where
  "tcp_packet p \<longleftrightarrow> packet_sized p \<and> ipProtocolType p = TCP \<and> transportHeader p = Some (transportHeaderOffset p) \<and>
     transportHeaderOffset p + 14 \<le> PCAP_MAX_CAPTURE_LENGTH \<and> payloadOffset p \<le> data_length p"

text \<open>Every IPv4 packet that is classified as TCP is one.\<close>

lemma packet_inv_tcp:
  assumes "packet_inv p" and "ipProtocolType p = TCP" and "transportHeaderOffset p \<le> 60"
  shows "tcp_packet p"
  using assms by (auto simp: packet_inv_def tcp_packet_def PCAP_MAX_CAPTURE_LENGTH_def split: option.splits)

type_synonym endpoint = "bytes \<times> bytes"

definition endpoints :: "packet \<Rightarrow> endpoint \<times> endpoint" where
  "endpoints p = (let th = transportHeaderOffset p in
     ((header_field 12 4 p, header_field th 2 p), (header_field 16 4 p, header_field (th + 2) 2 p)))"

definition conn_key :: "packet \<Rightarrow> bytes" where
  "conn_key p = (case endpoints p of ((ip1, port1), (ip2, port2)) \<Rightarrow> key_of ip1 ip2 port1 port2)"

lemma net_bytes_field: "packet_sized p \<Longrightarrow> i + n \<le> PCAP_MAX_CAPTURE_LENGTH \<Longrightarrow> net_bytes p i n = Inr (header_field i n p)"
  by (simp add: net_bytes_def header_field_def packet_sized_def)

lemma QuintupleKey_conn_key: "tcp_packet p \<Longrightarrow> QuintupleKey p = Inr (conn_key p)"
  by (simp add: QuintupleKey_def tcp_packet_def trans_bytes_def net_bytes_field conn_key_def endpoints_def Let_def
      PCAP_MAX_CAPTURE_LENGTH_def)

lemma length_endpoints:
  assumes "tcp_packet p" and "endpoints p = ((a, pa), (b, pb))"
  shows "length a = 4" "length pa = 2" "length b = 4" "length pb = 2"
  using assms
  by (auto simp: tcp_packet_def endpoints_def Let_def header_field_def packet_sized_def maxLayer2HeaderLength_def PCAP_MAX_CAPTURE_LENGTH_def)

lemma quintuple_inj:
  "length a = 4 \<Longrightarrow> length a' = 4 \<Longrightarrow> length b = 4 \<Longrightarrow> length b' = 4 \<Longrightarrow> length pa = 2 \<Longrightarrow> length pa' = 2 \<Longrightarrow>
   quintuple a b pa pb = quintuple a' b' pa' pb' \<longleftrightarrow> a = a' \<and> b = b' \<and> pa = pa' \<and> pb = pb'"
  by (auto simp: quintuple_def)

text \<open>
  C31: the key stands for the connection. Two TCP packets between different hosts have the same key
  exactly when their endpoints agree, in the same or in the opposite direction.
\<close>

theorem connection_key_identifies:
  assumes "tcp_packet p" and "tcp_packet q"
    and "fst (fst (endpoints p)) \<noteq> fst (snd (endpoints p))" and "fst (fst (endpoints q)) \<noteq> fst (snd (endpoints q))"
  shows "QuintupleKey p = QuintupleKey q \<longleftrightarrow> endpoints p = endpoints q \<or> endpoints p = prod.swap (endpoints q)"
proof -
  obtain a pa b pb where p: "endpoints p = ((a, pa), (b, pb))" by (metis surj_pair)
  obtain c pc d pd where q: "endpoints q = ((c, pc), (d, pd))" by (metis surj_pair)
  note lp = length_endpoints [OF assms(1) p] and lq = length_endpoints [OF assms(2) q]
  have ne: "le_of a \<noteq> le_of b" "le_of c \<noteq> le_of d" using assms(3,4) p q lp lq by (simp_all add: le_of_inj)
  have key: "QuintupleKey p = Inr (key_of a b pa pb)" "QuintupleKey q = Inr (key_of c d pc pd)"
    using assms(1,2) p q by (simp_all add: QuintupleKey_conn_key conn_key_def)
  have ord: "le_of a > le_of b \<or> le_of b > le_of a" "le_of c > le_of d \<or> le_of d > le_of c" using ne by auto
  then show ?thesis unfolding key p q key_of_def
    using ne lp lq by (auto simp: quintuple_inj)
qed

text \<open>Inside of one host the larger port is lost: connections from one port to different larger ones share a key.\<close>

lemma loopback_key_collision:
  "le_of port1 \<le> le_of port2 \<Longrightarrow> key_of ip ip port1 port2 = quintuple ip ip port1 [0, 0]"
  by (simp add: key_of_def)

section \<open>The table implements a byte budget per connection\<close>

definition tcp_flags :: "packet \<Rightarrow> byte" where
  "tcp_flags p = data p ! (maxLayer2HeaderLength + (transportHeaderOffset p + 13))"

text \<open>
  The contract: a SYN opens a budget for the connection unless one is left, RST and FIN close it, and
  every other packet passes when its payload is smaller than what is left, and is charged for it.
\<close>

definition budget_step :: "nat \<Rightarrow> packet \<Rightarrow> (bytes \<Rightarrow> nat) \<Rightarrow> bool \<times> (bytes \<Rightarrow> nat)" where
  "budget_step E p B =
     (let k = conn_key p in
      if ipProtocolType p \<noteq> TCP then (False, B)
      else if tcp_flags p AND SYN \<noteq> 0 then (True, if B k = 0 then B(k := E) else B)
      else if tcp_flags p AND RST \<noteq> 0 \<or> tcp_flags p AND FIN \<noteq> 0 then (True, B(k := 0))
      else (payloadLen p < B k, B(k := B k - payloadLen p)))"

fun budget_run :: "nat \<Rightarrow> packet list \<Rightarrow> (bytes \<Rightarrow> nat) \<Rightarrow> bool list \<times> (bytes \<Rightarrow> nat)" where
  "budget_run E [] B = ([], B)"
| "budget_run E (p # ps) B =
     (let (b, B1) = budget_step E p B; (bs, B2) = budget_run E ps B1 in (b # bs, B2))"

definition budget :: "state_connection_filter \<Rightarrow> bytes \<Rightarrow> nat" where
  "budget f k = (case exportList f k of None \<Rightarrow> 0 | Some v \<Rightarrow> if v > 0 then nat v else exportBytes f)"

definition state_ok :: "nat \<Rightarrow> state_connection_filter \<Rightarrow> bool" where
  "state_ok E f \<longleftrightarrow> exportBytes f = E \<and> exportControlPackets f \<and> (\<forall>k v. exportList f k = Some v \<longrightarrow> 0 \<le> v \<and> v \<le> int E)"

lemma as_int32_small: "- (2 ^ 31) \<le> x \<Longrightarrow> x < 2 ^ 31 \<Longrightarrow> as_int32 x = x"
proof (cases "0 \<le> x")
  case False
  assume "- (2 ^ 31) \<le> x"
  then have "(x + 4294967296) mod 4294967296 = x + 4294967296" using False by (intro mod_pos_pos_trivial) auto
  then have "x mod 4294967296 = x + 4294967296" by simp
  then show ?thesis using False \<open>- (2 ^ 31) \<le> x\<close> by (simp add: as_int32_def)
qed (simp add: as_int32_def)

lemma payloadLen_small: "tcp_packet p \<Longrightarrow> payloadLen p \<le> 128"
  by (auto simp: payloadLen_def tcp_packet_def packet_sized_def PCAP_MAX_CAPTURE_LENGTH_def sub_u32_exact)

lemma budget_store: "budget (f\<lparr>exportList := (exportList f)(k \<mapsto> w)\<rparr>) = (budget f)(k := if w > 0 then nat w else exportBytes f)"
  by (auto simp: budget_def fun_eq_iff split: option.splits)

lemma budget_erase: "budget (f\<lparr>exportList := (exportList f)(k := None)\<rparr>) = (budget f)(k := 0)"
  by (auto simp: budget_def fun_eq_iff split: option.splits)

lemma state_ok_store: "state_ok E f \<Longrightarrow> 0 \<le> w \<Longrightarrow> w \<le> int E \<Longrightarrow> state_ok E (f\<lparr>exportList := (exportList f)(k \<mapsto> w)\<rparr>)"
  by (auto simp: state_ok_def)

lemma state_ok_erase: "state_ok E f \<Longrightarrow> state_ok E (f\<lparr>exportList := (exportList f)(k := None)\<rparr>)"
  by (auto simp: state_ok_def)

lemmas budget_updates = budget_store budget_erase state_ok_store state_ok_erase

lemma known_packet_refines:
  assumes "state_ok E f" and "E < 2 ^ 31" and "len \<le> 128"
  shows "\<exists>f'. known_packet len k f = (len < budget f k, f') \<and> state_ok E f' \<and> budget f' = (budget f)(k := budget f k - len)"
proof (cases "exportList f k")
  case None
  then have "budget f k = 0" "known_packet len k f = (False, f)" by (simp_all add: budget_def known_packet_def)
  then show ?thesis using assms(1) by auto
next
  case (Some v)
  have v: "0 \<le> v" "v \<le> int E" "exportBytes f = E" using assms(1) Some by (auto simp: state_ok_def)
  have c: "as_int32 (v - int len) = v - int len" "as_int32 (int len) = int len" "as_int32 (int E - int len) = int E - int len"
    using v assms(2,3) by (auto intro!: as_int32_small)
  have b: "budget f k = (if v > 0 then nat v else E)" using Some v(3) by (simp add: budget_def)
  note run = known_packet_def Some Let_def c v(3)
  consider "v > int len" | "0 < v" "v \<le> int len" | "v = 0" "len < E" | "v = 0" "E \<le> len" using v(1) by linarith
  then show ?thesis
  proof cases
    case 1
    then have "known_packet len k f = (True, f\<lparr>exportList := (exportList f)(k \<mapsto> v - int len)\<rparr>)"
      by (simp add: run)
    then show ?thesis using 1 assms(1) v(2) b by (auto simp: budget_updates nat_diff_distrib)
  next
    case 2
    then have "known_packet len k f = (False, f\<lparr>exportList := (exportList f)(k := None)\<rparr>)" by (simp add: run)
    then show ?thesis using 2 assms(1) b by (auto simp: budget_updates)
  next
    case 3
    then have "known_packet len k f = (True, f\<lparr>exportList := (exportList f)(k \<mapsto> int E - int len)\<rparr>)" by (simp add: run)
    then show ?thesis using 3 assms(1) b by (auto simp: budget_updates nat_diff_distrib)
  next
    case 4
    then have "known_packet len k f = (False, f\<lparr>exportList := (exportList f)(k := None)\<rparr>)" by (simp add: run)
    then show ?thesis using 4 assms(1) b by (auto simp: budget_updates)
  qed
qed

lemma net8_flags: "tcp_packet p \<Longrightarrow> net8 p (transportHeaderOffset p + 13) = Inr (tcp_flags p)"
  by (simp add: net8_def rd8_def tcp_flags_def tcp_packet_def packet_sized_def maxLayer2HeaderLength_def PCAP_MAX_CAPTURE_LENGTH_def)

lemma state_step_refines:
  assumes "state_ok E f" and "E < 2 ^ 31" and "ipProtocolType p = TCP \<longrightarrow> tcp_packet p"
  shows "\<exists>f'. state_process p f = Inr (fst (budget_step E p (budget f)), f') \<and> state_ok E f' \<and>
    budget f' = snd (budget_step E p (budget f))"
proof (cases "ipProtocolType p = TCP")
  case False
  then show ?thesis using assms(1) by (simp add: state_process_def budget_step_def Let_def)
next
  case True
  then have p: "tcp_packet p" using assms(3) by simp
  let ?k = "conn_key p"
  note run = state_process_def QuintupleKey_conn_key [OF p] net8_flags [OF p] True
  have ctrl: "exportControlPackets f" "exportBytes f = E" using assms(1) by (auto simp: state_ok_def)
  consider "tcp_flags p AND SYN \<noteq> 0" "exportList f ?k = None" | v where "tcp_flags p AND SYN \<noteq> 0" "exportList f ?k = Some v"
    | "tcp_flags p AND SYN = 0" "tcp_flags p AND RST \<noteq> 0 \<or> tcp_flags p AND FIN \<noteq> 0"
    | "tcp_flags p AND SYN = 0" "\<not> (tcp_flags p AND RST \<noteq> 0 \<or> tcp_flags p AND FIN \<noteq> 0)"
    by (cases "exportList f ?k") auto
  then show ?thesis
  proof cases
    case 1
    then have "budget f ?k = 0" by (simp add: budget_def)
    then show ?thesis using 1 ctrl assms(1) by (simp add: run budget_step_def budget_updates)
  next
    case (2 v)
    then have "budget f ?k = 0 \<Longrightarrow> E = 0" using assms(1) ctrl(2) by (auto simp: budget_def state_ok_def split: if_splits)
    then have "budget f ?k = 0 \<Longrightarrow> (budget f)(?k := E) = budget f" by auto
    then show ?thesis using 2 ctrl assms(1) by (simp add: run budget_step_def Let_def)
  next
    case 3
    then show ?thesis using ctrl assms(1) by (auto simp: run budget_step_def budget_updates Let_def)
  next
    case 4
    then show ?thesis using known_packet_refines [OF assms(1,2) payloadLen_small [OF p], of ?k]
      by (auto simp: run budget_step_def Let_def)
  qed
qed

lemma state_run_refines:
  assumes "state_ok E f" and "E < 2 ^ 31" and "\<forall>p \<in> set ps. ipProtocolType p = TCP \<longrightarrow> tcp_packet p"
  shows "\<exists>f' qs. process_run (sampler_step state_process) ps f = Inr (fst (budget_run E ps (budget f)), f', qs) \<and>
    budget f' = snd (budget_run E ps (budget f))"
  using assms(1,3)
proof (induction ps arbitrary: f)
  case (Cons p ps)
  obtain f1 where f1: "state_process p f = Inr (fst (budget_step E p (budget f)), f1)" "state_ok E f1"
      "budget f1 = snd (budget_step E p (budget f))"
    using state_step_refines [OF Cons.prems(1) assms(2), of p] Cons.prems(2) by auto
  obtain f' qs where "process_run (sampler_step state_process) ps f1 = Inr (fst (budget_run E ps (budget f1)), f', qs)"
      "budget f' = snd (budget_run E ps (budget f1))"
    using Cons.IH [OF f1(2)] Cons.prems(2) by auto
  moreover have "sampler_step state_process p f = Inr (fst (budget_step E p (budget f)), f1, p)"
    using f1(1) by (simp add: sampler_step_def)
  ultimately show ?case using f1(3) by (auto simp: Let_def split: prod.splits)
qed simp


section \<open>The Bloom filter variant\<close>

text \<open>
  The connection filter does not look at the TCP flags. In an Ethernet frame with an IPv4 header
  of 20 octets it reads the last octet of the destination address instead: a packet to an address
  whose last octet has bit 1 set is taken for a SYN and passes, whatever its flags are.
\<close>

theorem connection_filter_reads_address:
  assumes "tcp_packet p" and "layer2HeaderLen p = 14" and "transportHeaderOffset p = 20"
    and "header_field 16 4 p = [a, b, c, d]" and "d AND SYN \<noteq> 0"
  shows "connection_process rng p f = Inr (conn_exportControlPackets f,
    f\<lparr>synFilter := AgeBloomFilter_set rng (conn_key p) (fst (timestamp p)) (synFilter f)\<rparr>)"
proof -
  have len: "length (data p) = 158" "ipProtocolType p = TCP"
    using assms(1) by (auto simp: tcp_packet_def packet_sized_def maxLayer2HeaderLength_def PCAP_MAX_CAPTURE_LENGTH_def)
  have "data p ! 49 = header_field 16 4 p ! 3" by (simp add: header_field_def maxLayer2HeaderLength_def len)
  then have "rd8 (data p) 49 = Inr d" using assms(4) len by (simp add: rd8_def)
  then show ?thesis
    using assms(2,3,5) len by (simp add: connection_process_def QuintupleKey_conn_key [OF assms(1)] maxLayer2HeaderLength_def Let_def)
qed

section \<open>The theorems at concrete inputs\<close>

text \<open>A segment between 10.0.0.1 and 10.0.0.2 with ports 7 and 9 and given flags, and one in the other direction.\<close>

definition segment :: "byte \<Rightarrow> byte \<Rightarrow> byte \<Rightarrow> byte \<Rightarrow> byte \<Rightarrow> packet" where
  "segment src dst sport dport flags = blank_packet\<lparr>
     data := replicate 42 0 @ [10, 0, 0, src, 10, 0, 0, dst, 0, sport, 0, dport] @ replicate 9 0 @ [flags] @ replicate 94 0,
     layer2HeaderLen := 14, transportHeader := Some 20, transportHeaderOffset := 20, ipProtocolType := TCP,
     classification := PCLASS_NET_IP4 OR PCLASS_TRN_TCP OR PCLASS_PAYLOAD, payload := Some 40, payloadOffset := 40,
     data_length := 60\<rparr>"

lemma tcp_segment: "tcp_packet (segment src dst sport dport flags)"
  by (simp add: tcp_packet_def segment_def blank_packet_def packet_sized_def maxLayer2HeaderLength_def PCAP_MAX_CAPTURE_LENGTH_def)

lemma endpoints_segment: "endpoints (segment src dst sport dport flags) = (([10, 0, 0, src], [0, sport]), ([10, 0, 0, dst], [0, dport]))"
  by (simp add: endpoints_def segment_def header_field_def maxLayer2HeaderLength_def Let_def)

theorem connection_key_identifies_witness:
  "QuintupleKey (segment 1 2 7 9 0) = QuintupleKey (segment 2 1 9 7 0) \<and> QuintupleKey (segment 1 2 7 9 0) \<noteq> QuintupleKey (segment 1 2 7 8 0)"
  using connection_key_identifies [OF tcp_segment tcp_segment, of 1 2 7 9 0 2 1 9 7 0]
    connection_key_identifies [OF tcp_segment tcp_segment, of 1 2 7 9 0 1 2 7 8 0]
  by (simp add: endpoints_segment)


theorem connection_filter_reads_address_witness:
  "\<exists>f'. connection_process (\<lambda>s i. 1) (segment 1 2 7 9 0) (ConnectionFilter (\<lambda>i. 0) 5 100 1 8) = Inr (True, f') \<and>
     tcp_flags (segment 1 2 7 9 0) = 0"
proof -
  have "header_field 16 4 (segment 1 2 7 9 0) = [10, 0, 0, 2]" by (simp add: segment_def header_field_def maxLayer2HeaderLength_def)
  moreover have "layer2HeaderLen (segment 1 2 7 9 0) = 14" "transportHeaderOffset (segment 1 2 7 9 0) = 20" "tcp_flags (segment 1 2 7 9 0) = 0"
    by (simp_all add: segment_def tcp_flags_def maxLayer2HeaderLength_def nth_append)
  ultimately show ?thesis
    using connection_filter_reads_address [OF tcp_segment, of 1 2 7 9 0 10 0 0 2 "\<lambda>s i. 1" "ConnectionFilter (\<lambda>i. 0) 5 100 1 8"]
    by (simp add: SYN_def ConnectionFilter_def Let_def)
qed

end
