(* ===== verification/Rijndael.thy ===== *)
theory Rijndael
  imports Rijndael_Tables
begin

text \<open>
  The block cipher of src/src/common/cryptopan/rijndael.cpp: key schedule, the table-driven rounds, and
  the interface with the modes ECB, CBC and CFB1. The code moves four octets at a time through
  \<open>UINT32\<close> pointers; an exclusive or of such words is one of the four octets, whatever the byte
  order. A state is four columns of four octets, the expanded key a sequence of columns.
\<close>

type_synonym block = "quad \<times> quad \<times> quad \<times> quad"

fun xor4 :: "quad \<Rightarrow> quad \<Rightarrow> quad" where
  "xor4 (a, b, c, d) (a', b', c', d') = (a XOR a', b XOR b', c XOR c', d XOR d')"

fun xor_block :: "block \<Rightarrow> block \<Rightarrow> block" where
  "xor_block (a, b, c, d) (a', b', c', d') = (xor4 a a', xor4 b b', xor4 c c', xor4 d d')"

section \<open>State\<close>

datatype rijndael_mode = ECB | CBC | CFB1
datatype rijndael_direction = Encrypt | Decrypt
datatype key_length = Key16Bytes | Key24Bytes | Key32Bytes
datatype rijndael_state = Valid | Invalid

record rijndael =
  m_state :: rijndael_state
  m_mode :: rijndael_mode
  m_direction :: rijndael_direction
  m_initVector :: bytes
  m_uRounds :: nat
  m_expandedKey :: "quad list"

definition RIJNDAEL_SUCCESS :: int where "RIJNDAEL_SUCCESS = 0"
definition RIJNDAEL_BAD_KEY :: int where "RIJNDAEL_BAD_KEY = -4"
definition RIJNDAEL_NOT_INITIALIZED :: int where "RIJNDAEL_NOT_INITIALIZED = -5"
definition RIJNDAEL_BAD_DIRECTION :: int where "RIJNDAEL_BAD_DIRECTION = -6"
definition RIJNDAEL_CORRUPTED_DATA :: int where "RIJNDAEL_CORRUPTED_DATA = -7"

text \<open>Round \<open>r\<close> of the expanded key.\<close>

definition round_key :: "quad list \<Rightarrow> nat \<Rightarrow> block" where
  "round_key ek r = (ek ! (4 * r), ek ! (4 * r + 1), ek ! (4 * r + 2), ek ! (4 * r + 3))"

section \<open>Key schedule\<close>

text \<open>The loop that copies columns into the round keys until they are full.\<close>

fun copy_columns :: "nat \<Rightarrow> quad list \<Rightarrow> nat \<Rightarrow> nat \<Rightarrow> quad list \<Rightarrow> nat \<times> nat \<times> quad list" where
  "copy_columns rounds [] r t ek = (r, t, ek)"
| "copy_columns rounds (c # cs) r t ek =
     (if r \<le> rounds
      then if t + 1 = 4 then copy_columns rounds cs (r + 1) 0 (ek[4 * r + t := c])
           else copy_columns rounds cs r (t + 1) (ek[4 * r + t := c])
      else (r, t, ek))"

text \<open>Each column is combined with its updated predecessor.\<close>

fun chain_columns :: "quad \<Rightarrow> quad list \<Rightarrow> quad list" where
  "chain_columns prev [] = []"
| "chain_columns prev (c # cs) = (let c' = xor4 c prev in c' # chain_columns c' cs)"

fun sub4 :: "quad \<Rightarrow> quad" where
  "sub4 (a, b, c, d) = (sbox a, sbox b, sbox c, sbox d)"

fun rot_word :: "quad \<Rightarrow> quad" where
  "rot_word (a, b, c, d) = (b, c, d, a)"

definition next_columns :: "quad list \<Rightarrow> nat \<Rightarrow> quad list" where
  "next_columns tempKey rconpointer =
     (let k0 = xor4 (xor4 (hd tempKey) (sub4 (rot_word (last tempKey)))) (rijndael_rcon ! rconpointer, 0, 0, 0) in
      if length tempKey \<noteq> 8 then k0 # chain_columns k0 (tl tempKey)
      else let lo = k0 # chain_columns k0 (take 3 (tl tempKey));
               k4 = xor4 (tempKey ! 4) (sub4 (lo ! 3))
           in lo @ k4 # chain_columns k4 (drop 5 tempKey))"

lemma copy_columns_progress:
  "copy_columns rounds cs r t ek = (r', t', ek') \<Longrightarrow> t < 4 \<Longrightarrow>
     4 * r + t \<le> 4 * r' + t' \<and> t' < 4 \<and> (cs \<noteq> [] \<and> r \<le> rounds \<longrightarrow> 4 * r + t < 4 * r' + t')"
proof (induction cs arbitrary: r t ek)
  case (Cons c cs)
  show ?case
  proof (cases "r \<le> rounds")
    case True
    then show ?thesis using Cons.prems Cons.IH [of "r + 1" 0] Cons.IH [of r "t + 1"]
      by (auto split: if_splits) (linarith | fastforce)+
  qed (use Cons.prems in simp)
qed simp

lemma length_chain [simp]: "length (chain_columns p cs) = length cs"
  by (induction cs arbitrary: p) (auto simp: Let_def)

function schedule_loop :: "nat \<Rightarrow> quad list \<Rightarrow> nat \<Rightarrow> nat \<Rightarrow> nat \<Rightarrow> quad list \<Rightarrow> quad list" where
  "schedule_loop rounds tempKey rconpointer r t ek =
     (if r \<le> rounds \<and> t < 4
      then let tempKey' = next_columns tempKey rconpointer;
               (r', t', ek') = copy_columns rounds tempKey' r t ek
           in schedule_loop rounds tempKey' (rconpointer + 1) r' t' ek'
      else ek)"
  by pat_completeness auto
termination
proof (relation "measure (\<lambda>(rounds, tempKey, rc, r, t, ek). 4 * rounds + 4 - (4 * r + t))")
  fix rounds tempKey rc r t ek tk p r' q t' ek'
  assume "r \<le> rounds \<and> t < 4" and tk: "tk = next_columns tempKey rc" and "p = copy_columns rounds tk r t ek"
    and "(r', q) = p" and "(t', ek') = q"
  moreover have "tk \<noteq> []" by (auto simp: tk next_columns_def Let_def)
  ultimately have "4 * r + t < 4 * r' + t'" using copy_columns_progress [of rounds tk r t ek r' t' ek'] by auto
  then show "((rounds, tk, rc + 1, r', t', ek'), rounds, tempKey, rc, r, t, ek)
      \<in> measure (\<lambda>(rounds, tempKey, rc, r, t, ek). 4 * rounds + 4 - (4 * r + t))"
    using \<open>r \<le> rounds \<and> t < 4\<close> by auto
qed simp

declare schedule_loop.simps [simp del]

definition keySched :: "nat \<Rightarrow> quad list \<Rightarrow> quad list \<Rightarrow> quad list" where
  "keySched rounds key ek =
     (let (r, t, ek1) = copy_columns rounds key 0 0 ek in schedule_loop rounds key 0 r t ek1)"

fun dec_column :: "quad \<Rightarrow> quad" where
  "dec_column (w0, w1, w2, w3) =
     xor4 (xor4 (xor4 (rijndael_U1 ! unat w0) (rijndael_U2 ! unat w1)) (rijndael_U3 ! unat w2)) (rijndael_U4 ! unat w3)"

text \<open>The round keys of decryption: all but the first and the last are transformed.\<close>

definition keyEncToDec :: "nat \<Rightarrow> quad list \<Rightarrow> quad list" where
  "keyEncToDec rounds ek =
     fold (\<lambda>r ek. ek[4 * r := dec_column (ek ! (4 * r)), 4 * r + 1 := dec_column (ek ! (4 * r + 1)),
                     4 * r + 2 := dec_column (ek ! (4 * r + 2)), 4 * r + 3 := dec_column (ek ! (4 * r + 3))])
       [1..<rounds] ek"

section \<open>Encryption and decryption of a block\<close>

definition t_column :: "byte \<Rightarrow> byte \<Rightarrow> byte \<Rightarrow> byte \<Rightarrow> quad" where
  "t_column a b c d =
     xor4 (xor4 (xor4 (rijndael_T1 ! unat a) (rijndael_T2 ! unat b)) (rijndael_T3 ! unat c)) (rijndael_T4 ! unat d)"

fun enc_round :: "block \<Rightarrow> block" where
  "enc_round ((t00, t01, t02, t03), (t10, t11, t12, t13), (t20, t21, t22, t23), (t30, t31, t32, t33)) =
     (t_column t00 t11 t22 t33, t_column t10 t21 t32 t03, t_column t20 t31 t02 t13, t_column t30 t01 t12 t23)"

text \<open>The last round uses the second octet of the entries of \<open>T1\<close>.\<close>

definition t1_1 :: "byte \<Rightarrow> byte" where
  "t1_1 a = fst (snd (rijndael_T1 ! unat a))"

fun enc_last :: "block \<Rightarrow> block" where
  "enc_last ((t00, t01, t02, t03), (t10, t11, t12, t13), (t20, t21, t22, t23), (t30, t31, t32, t33)) =
     ((t1_1 t00, t1_1 t11, t1_1 t22, t1_1 t33), (t1_1 t10, t1_1 t21, t1_1 t32, t1_1 t03),
      (t1_1 t20, t1_1 t31, t1_1 t02, t1_1 t13), (t1_1 t30, t1_1 t01, t1_1 t12, t1_1 t23))"

definition encrypt :: "nat \<Rightarrow> quad list \<Rightarrow> block \<Rightarrow> block" where
  "encrypt rounds ek a =
     (let b0 = enc_round (xor_block a (round_key ek 0));
          b1 = fold (\<lambda>r b. enc_round (xor_block b (round_key ek r))) [1..<rounds - 1] b0
      in xor_block (enc_last (xor_block b1 (round_key ek (rounds - 1)))) (round_key ek rounds))"

definition t_inv_column :: "byte \<Rightarrow> byte \<Rightarrow> byte \<Rightarrow> byte \<Rightarrow> quad" where
  "t_inv_column a b c d =
     xor4 (xor4 (xor4 (rijndael_T5 ! unat a) (rijndael_T6 ! unat b)) (rijndael_T7 ! unat c)) (rijndael_T8 ! unat d)"

fun dec_round :: "block \<Rightarrow> block" where
  "dec_round ((t00, t01, t02, t03), (t10, t11, t12, t13), (t20, t21, t22, t23), (t30, t31, t32, t33)) =
     (t_inv_column t00 t31 t22 t13, t_inv_column t10 t01 t32 t23,
      t_inv_column t20 t11 t02 t33, t_inv_column t30 t21 t12 t03)"

fun dec_last :: "block \<Rightarrow> block" where
  "dec_last ((t00, t01, t02, t03), (t10, t11, t12, t13), (t20, t21, t22, t23), (t30, t31, t32, t33)) =
     ((isbox t00, isbox t31, isbox t22, isbox t13), (isbox t10, isbox t01, isbox t32, isbox t23),
      (isbox t20, isbox t11, isbox t02, isbox t33), (isbox t30, isbox t21, isbox t12, isbox t03))"

definition decrypt :: "nat \<Rightarrow> quad list \<Rightarrow> block \<Rightarrow> block" where
  "decrypt rounds ek a =
     (let b0 = dec_round (xor_block a (round_key ek rounds));
          b1 = fold (\<lambda>r b. dec_round (xor_block b (round_key ek r))) (rev [2..<rounds]) b0
      in xor_block (dec_last (xor_block b1 (round_key ek 1))) (round_key ek 0))"

section \<open>Blocks in memory\<close>

fun quads_of :: "bytes \<Rightarrow> quad list" where
  "quads_of (a # b # c # d # rest) = (a, b, c, d) # quads_of rest"
| "quads_of _ = []"

definition block_of :: "bytes \<Rightarrow> block" where
  "block_of bs = (let q = quads_of bs in (q ! 0, q ! 1, q ! 2, q ! 3))"

fun quad_bytes :: "quad \<Rightarrow> bytes" where
  "quad_bytes (a, b, c, d) = [a, b, c, d]"

fun block_bytes :: "block \<Rightarrow> bytes" where
  "block_bytes (a, b, c, d) = quad_bytes a @ quad_bytes b @ quad_bytes c @ quad_bytes d"

definition get_block :: "bytes \<Rightarrow> nat \<Rightarrow> block res" where
  "get_block m i = (if i + 16 \<le> length m then Inr (block_of (take 16 (drop i m))) else Inl OutOfBounds)"

definition put_block :: "bytes \<Rightarrow> nat \<Rightarrow> block \<Rightarrow> bytes res" where
  "put_block m i b = (if i + 16 \<le> length m then Inr (put_bytes m i (block_bytes b)) else Inl HeapOverflow)"

section \<open>Initialisation\<close>

definition key_bytes :: "key_length \<Rightarrow> nat" where
  "key_bytes l = (case l of Key16Bytes \<Rightarrow> 16 | Key24Bytes \<Rightarrow> 24 | Key32Bytes \<Rightarrow> 32)"

definition key_rounds :: "key_length \<Rightarrow> nat" where
  "key_rounds l = (case l of Key16Bytes \<Rightarrow> 10 | Key24Bytes \<Rightarrow> 12 | Key32Bytes \<Rightarrow> 14)"

definition rijndael_init :: "rijndael_mode \<Rightarrow> rijndael_direction \<Rightarrow> bytes option \<Rightarrow> key_length \<Rightarrow> bytes option \<Rightarrow> rijndael
    \<Rightarrow> (int \<times> rijndael) res" where
  "rijndael_init mode dir key keyLen initVector m =
     res_bind (case initVector of None \<Rightarrow> Inr (replicate 16 0)
               | Some iv \<Rightarrow> if 16 \<le> length iv then Inr (take 16 iv) else Inl OutOfBounds) (\<lambda>iv.
       let m1 = m\<lparr>m_state := Invalid, m_mode := mode, m_direction := dir, m_initVector := iv, m_uRounds := key_rounds keyLen\<rparr>
       in case key of None \<Rightarrow> Inr (RIJNDAEL_BAD_KEY, m1)
          | Some k \<Rightarrow>
              if length k < key_bytes keyLen then Inl OutOfBounds
              else let ek = keySched (m_uRounds m1) (quads_of (take (key_bytes keyLen) k)) (m_expandedKey m1);
                       ek' = (if dir = Decrypt then keyEncToDec (m_uRounds m1) ek else ek)
                   in Inr (RIJNDAEL_SUCCESS, m1\<lparr>m_expandedKey := ek', m_state := Valid\<rparr>))"

definition encrypt_block :: "rijndael \<Rightarrow> block \<Rightarrow> block" where
  "encrypt_block m = encrypt (m_uRounds m) (m_expandedKey m)"

definition decrypt_block :: "rijndael \<Rightarrow> block \<Rightarrow> block" where
  "decrypt_block m = decrypt (m_uRounds m) (m_expandedKey m)"

section \<open>The modes\<close>

text \<open>\<open>n\<close> blocks from offset \<open>i\<close> on, each alone.\<close>

fun ecb_loop :: "(block \<Rightarrow> block) \<Rightarrow> nat \<Rightarrow> bytes \<Rightarrow> nat \<Rightarrow> bytes \<Rightarrow> bytes res" where
  "ecb_loop f 0 inp i out = Inr out"
| "ecb_loop f (Suc n) inp i out =
     res_bind (get_block inp i) (\<lambda>b. res_bind (put_block out i (f b)) (\<lambda>out'. ecb_loop f n inp (i + 16) out'))"

text \<open>\<open>n\<close> blocks from offset \<open>i\<close> on, each combined with the previous block of the output.\<close>

fun cbc_loop :: "(block \<Rightarrow> block) \<Rightarrow> nat \<Rightarrow> bytes \<Rightarrow> nat \<Rightarrow> block \<Rightarrow> bytes \<Rightarrow> (block \<times> bytes) res" where
  "cbc_loop f 0 inp i iv out = Inr (iv, out)"
| "cbc_loop f (Suc n) inp i iv out =
     res_bind (get_block inp i) (\<lambda>b. res_bind (put_block out i (f (xor_block iv b))) (\<lambda>out'.
       cbc_loop f n inp (i + 16) (f (xor_block iv b)) out'))"

fun cbc_inverse_loop :: "(block \<Rightarrow> block) \<Rightarrow> nat \<Rightarrow> bytes \<Rightarrow> nat \<Rightarrow> block \<Rightarrow> bytes \<Rightarrow> (block \<times> bytes) res" where
  "cbc_inverse_loop f 0 inp i iv out = Inr (iv, out)"
| "cbc_inverse_loop f (Suc n) inp i iv out =
     res_bind (get_block inp i) (\<lambda>b. res_bind (put_block out i (xor_block (f b) iv)) (\<lambda>out'.
       cbc_inverse_loop f n inp (i + 16) b out'))"

text \<open>
  CFB1 shifts its register by one bit. As in the code the last octet keeps only its lowest bit, the
  output is combined with what the buffer held, and all blocks go to its first 16 octets.
\<close>

definition cfb_shift :: "bytes \<Rightarrow> byte \<Rightarrow> nat \<Rightarrow> bytes" where
  "cfb_shift iv x k =
     map2 (\<lambda>a b. push_bit 1 a OR drop_bit 7 b) (butlast iv) (tl iv) @
     [(push_bit 1 (last iv) OR drop_bit (7 - k mod 8) x) AND 1]"

definition cfb_output :: "rijndael \<Rightarrow> nat \<Rightarrow> bytes \<Rightarrow> bytes \<Rightarrow> bytes" where
  "cfb_output m k iv out =
     (let x = hd (block_bytes (encrypt_block m (block_of iv))) AND 0x80; i = k div 8 in out[i := out ! i XOR drop_bit (k mod 8) x])"

definition cfb_encrypt_bit :: "rijndael \<Rightarrow> nat \<Rightarrow> bytes \<times> bytes \<Rightarrow> bytes \<times> bytes" where
  "cfb_encrypt_bit m k s =
     (let (iv, out) = s; out' = cfb_output m k iv out in (cfb_shift iv (out' ! (k div 8)) k, out'))"

definition cfb_decrypt_bit :: "rijndael \<Rightarrow> bytes \<Rightarrow> nat \<Rightarrow> bytes \<times> bytes \<Rightarrow> bytes \<times> bytes" where
  "cfb_decrypt_bit m inp k s =
     (let (iv, out) = s in (cfb_shift iv (inp ! (k div 8)) k, cfb_output m k iv out))"

definition cfb_blocks :: "(nat \<Rightarrow> bytes \<times> bytes \<Rightarrow> bytes \<times> bytes) \<Rightarrow> nat \<Rightarrow> bytes \<Rightarrow> bytes \<Rightarrow> bytes res" where
  "cfb_blocks bit_step numBlocks iv out =
     (if 0 < numBlocks \<and> length out < 16 then Inl HeapOverflow
      else Inr (snd ((fold bit_step [0..<128] ^^ numBlocks) (iv, out))))"

definition blockEncrypt :: "rijndael \<Rightarrow> bytes option \<Rightarrow> int \<Rightarrow> bytes \<Rightarrow> (int \<times> bytes) res" where
  "blockEncrypt m input inputLen out =
     (if m_state m \<noteq> Valid then Inr (RIJNDAEL_NOT_INITIALIZED, out)
      else if m_direction m \<noteq> Encrypt then Inr (RIJNDAEL_BAD_DIRECTION, out)
      else case input of None \<Rightarrow> Inr (0, out)
      | Some inp \<Rightarrow>
          if inputLen \<le> 0 then Inr (0, out)
          else let numBlocks = nat (inputLen div 128) in
            res_bind
              (case m_mode m of
                 ECB \<Rightarrow> ecb_loop (encrypt_block m) numBlocks inp 0 out
               | CBC \<Rightarrow> res_bind (cbc_loop (encrypt_block m) 1 inp 0 (block_of (m_initVector m)) out) (\<lambda>(iv, out1).
                   res_bind (cbc_loop (encrypt_block m) (numBlocks - 1) inp 16 iv out1) (\<lambda>(iv, out2). Inr out2))
               | CFB1 \<Rightarrow> cfb_blocks (cfb_encrypt_bit m) numBlocks (m_initVector m) out)
              (\<lambda>out'. Inr (int (128 * numBlocks), out')))"

definition blockDecrypt :: "rijndael \<Rightarrow> bytes option \<Rightarrow> int \<Rightarrow> bytes \<Rightarrow> (int \<times> bytes) res" where
  "blockDecrypt m input inputLen out =
     (if m_state m \<noteq> Valid then Inr (RIJNDAEL_NOT_INITIALIZED, out)
      else if m_mode m \<noteq> CFB1 \<and> m_direction m = Encrypt then Inr (RIJNDAEL_BAD_DIRECTION, out)
      else case input of None \<Rightarrow> Inr (0, out)
      | Some inp \<Rightarrow>
          if inputLen \<le> 0 then Inr (0, out)
          else let numBlocks = nat (inputLen div 128) in
            res_bind
              (case m_mode m of
                 ECB \<Rightarrow> ecb_loop (decrypt_block m) numBlocks inp 0 out
               | CBC \<Rightarrow> res_bind (cbc_inverse_loop (decrypt_block m) numBlocks inp 0 (block_of (m_initVector m)) out) (\<lambda>(iv, out'). Inr out')
               | CFB1 \<Rightarrow> if 0 < numBlocks \<and> length inp < 16 then Inl OutOfBounds
                          else cfb_blocks (cfb_decrypt_bit m inp) numBlocks (m_initVector m) out)
              (\<lambda>out'. Inr (int (128 * numBlocks), out')))"

text \<open>The last, padded block: \<open>n\<close> octets of data and \<open>16 - n\<close> octets that hold this number.\<close>

definition padded :: "bytes \<Rightarrow> nat \<Rightarrow> nat \<Rightarrow> block res" where
  "padded inp i n = (if i + n \<le> length inp
     then Inr (block_of (take n (drop i inp) @ replicate (16 - n) (of_nat (16 - n)))) else Inl OutOfBounds)"

definition padEncrypt :: "rijndael \<Rightarrow> bytes option \<Rightarrow> int \<Rightarrow> bytes \<Rightarrow> (int \<times> bytes) res" where
  "padEncrypt m input inputOctets out =
     (if m_state m \<noteq> Valid then Inr (RIJNDAEL_NOT_INITIALIZED, out)
      else if m_direction m \<noteq> Encrypt then Inr (RIJNDAEL_NOT_INITIALIZED, out)
      else case input of None \<Rightarrow> Inr (0, out)
      | Some inp \<Rightarrow>
          if inputOctets \<le> 0 then Inr (0, out)
          else let n = nat inputOctets; numBlocks = n div 16; rest = n - 16 * numBlocks in
            case m_mode m of
              ECB \<Rightarrow> res_bind (ecb_loop (encrypt_block m) numBlocks inp 0 out) (\<lambda>out1.
                res_bind (padded inp (16 * numBlocks) rest) (\<lambda>b.
                  res_bind (put_block out1 (16 * numBlocks) (encrypt_block m b)) (\<lambda>out2. Inr (int (16 * (numBlocks + 1)), out2))))
            | CBC \<Rightarrow> res_bind (cbc_loop (encrypt_block m) numBlocks inp 0 (block_of (m_initVector m)) out) (\<lambda>(iv, out1).
                res_bind (padded inp (16 * numBlocks) rest) (\<lambda>b.
                  res_bind (put_block out1 (16 * numBlocks) (encrypt_block m (xor_block b iv))) (\<lambda>out2. Inr (int (16 * (numBlocks + 1)), out2))))
            | CFB1 \<Rightarrow> Inr (-1, out))"

text \<open>The check of the padding: \<open>ok\<close> is the range the mode accepts for its length.\<close>

definition unpad :: "(nat \<Rightarrow> bool) \<Rightarrow> nat \<Rightarrow> block \<Rightarrow> bytes \<Rightarrow> (int \<times> bytes) res" where
  "unpad ok numBlocks b out =
     (let bs = block_bytes b; padLen = unat (last bs); i = 16 * (numBlocks - 1) in
      if \<not> ok padLen then Inr (RIJNDAEL_CORRUPTED_DATA, out)
      else if \<exists>x \<in> set (drop (16 - padLen) bs). unat x \<noteq> padLen then Inr (RIJNDAEL_CORRUPTED_DATA, out)
      else if i + (16 - padLen) \<le> length out then Inr (int (16 * numBlocks) - int padLen, put_bytes out i (take (16 - padLen) bs))
      else Inl HeapOverflow)"

definition padDecrypt :: "rijndael \<Rightarrow> bytes option \<Rightarrow> int \<Rightarrow> bytes \<Rightarrow> (int \<times> bytes) res" where
  "padDecrypt m input inputOctets out =
     (if m_state m \<noteq> Valid then Inr (RIJNDAEL_NOT_INITIALIZED, out)
      else if m_direction m \<noteq> Decrypt then Inr (RIJNDAEL_BAD_DIRECTION, out)
      else case input of None \<Rightarrow> Inr (0, out)
      | Some inp \<Rightarrow>
          if inputOctets \<le> 0 then Inr (0, out)
          else if inputOctets mod 16 \<noteq> 0 then Inr (RIJNDAEL_CORRUPTED_DATA, out)
          else let numBlocks = nat inputOctets div 16; i = 16 * (numBlocks - 1) in
            case m_mode m of
              ECB \<Rightarrow> res_bind (ecb_loop (decrypt_block m) (numBlocks - 1) inp 0 out) (\<lambda>out1.
                res_bind (get_block inp i) (\<lambda>b. unpad (\<lambda>n. n < 16) numBlocks (decrypt_block m b) out1))
            | CBC \<Rightarrow> res_bind (cbc_inverse_loop (decrypt_block m) (numBlocks - 1) inp 0 (block_of (m_initVector m)) out) (\<lambda>(iv, out1).
                res_bind (get_block inp i) (\<lambda>b. unpad (\<lambda>n. 0 < n \<and> n \<le> 16) numBlocks (xor_block (decrypt_block m b) iv) out1))
            | CFB1 \<Rightarrow> Inr (-1, out))"

end
