(* ===== verification/Rijndael_Correct.thy ===== *)
theory Rijndael_Correct
  imports Rijndael
begin

text \<open>
  The cipher is the Advanced Encryption Standard: the table-driven rounds and the key schedule are the
  Cipher and KeyExpansion of FIPS 197, written out here over the field arithmetic. Decryption with
  the transformed round keys inverts encryption, and padded CBC messages are recovered.
\<close>

section \<open>The standard\<close>

fun map_quad :: "(byte \<Rightarrow> byte) \<Rightarrow> quad \<Rightarrow> quad" where
  "map_quad f (a, b, c, d) = (f a, f b, f c, f d)"

fun map_block :: "(quad \<Rightarrow> quad) \<Rightarrow> block \<Rightarrow> block" where
  "map_block f (a, b, c, d) = (f a, f b, f c, f d)"

fun shift_rows :: "block \<Rightarrow> block" where
  "shift_rows ((a0, a1, a2, a3), (b0, b1, b2, b3), (c0, c1, c2, c3), (d0, d1, d2, d3)) =
     ((a0, b1, c2, d3), (b0, c1, d2, a3), (c0, d1, a2, b3), (d0, a1, b2, c3))"

definition xtime3 :: "byte \<Rightarrow> byte" where
  "xtime3 s = xtime s XOR s"

fun mix_column :: "quad \<Rightarrow> quad" where
  "mix_column (a, b, c, d) =
     (xtime a XOR xtime3 b XOR c XOR d, a XOR xtime b XOR xtime3 c XOR d,
      a XOR b XOR xtime c XOR xtime3 d, xtime3 a XOR b XOR c XOR xtime d)"

abbreviation sub_bytes :: "block \<Rightarrow> block" where
  "sub_bytes \<equiv> map_block (map_quad sbox)"

abbreviation mix_columns :: "block \<Rightarrow> block" where
  "mix_columns \<equiv> map_block mix_column"

definition aes_cipher :: "nat \<Rightarrow> (nat \<Rightarrow> block) \<Rightarrow> block \<Rightarrow> block" where
  "aes_cipher nr w inp =
     (let s = fold (\<lambda>r s. xor_block (mix_columns (shift_rows (sub_bytes s))) (w r)) [1..<nr] (xor_block inp (w 0))
      in xor_block (shift_rows (sub_bytes s)) (w nr))"

function aes_word :: "quad list \<Rightarrow> nat \<Rightarrow> quad" where
  "aes_word key i =
     (let nk = length key in
      if i < nk \<or> nk = 0 then key ! i
      else xor4 (aes_word key (i - nk))
        (if i mod nk = 0 then xor4 (sub4 (rot_word (aes_word key (i - 1)))) ((xtime ^^ (i div nk - 1)) 1, 0, 0, 0)
         else if 6 < nk \<and> i mod nk = 4 then sub4 (aes_word key (i - 1))
         else aes_word key (i - 1)))"
  by pat_completeness auto
termination
proof (relation "measure snd")
  fix key :: "quad list" and i nk
  assume "nk = length key" and "\<not> (i < nk \<or> nk = 0)"
  then have "0 < nk" "nk \<le> i" by auto
  then have "0 < i" by simp
  show "((key, i - nk), key, i) \<in> measure snd" "((key, i - 1), key, i) \<in> measure snd"
    "((key, i - 1), key, i) \<in> measure snd" "((key, i - 1), key, i) \<in> measure snd"
    using \<open>0 < i\<close> \<open>0 < nk\<close> by simp_all
qed simp

declare aes_word.simps [simp del]

section \<open>Rounds\<close>

lemma xor4_assoc: "xor4 (xor4 a b) c = xor4 a (xor4 b c)"
  by (cases a; cases b; cases c) (simp add: xor.assoc)

lemma xor4_commute: "xor4 a b = xor4 b a"
  by (cases a; cases b) (simp add: xor.commute)

lemma xor4_cancel: "xor4 (xor4 a b) b = a"
  by (cases a; cases b) (simp add: xor.assoc)

lemma xor_block_cancel: "xor_block (xor_block a b) b = a"
  by (cases a; cases b) (simp add: xor4_cancel xor.assoc)

lemma xor_block_commute: "xor_block a b = xor_block b a"
  by (cases a; cases b) (simp add: xor4_commute xor.commute)

lemma t_column_mix: "t_column a b c d = mix_column (sbox a, sbox b, sbox c, sbox d)"
  by (simp add: t_column_def T_at mix1_def xtime3_def xor.assoc)

lemma t1_1_sbox: "t1_1 a = sbox a"
  by (simp add: t1_1_def T_at mix1_def)

lemma enc_round_aes: "enc_round s = mix_columns (shift_rows (sub_bytes s))"
  by (cases s rule: enc_round.cases) (simp add: t_column_mix)

lemma enc_last_aes: "enc_last s = shift_rows (sub_bytes s)"
  by (cases s rule: enc_last.cases) (simp add: t1_1_sbox)

lemma rounds_shift:
  "fold (\<lambda>r s. xor_block (f s) (w r)) [1..<Suc n] (xor_block x (w 0)) =
   xor_block (fold (\<lambda>r b. f (xor_block b (w r))) [0..<n] x) (w n)"
  by (induction n) auto

lemma encrypt_aes_cipher:
  assumes "2 \<le> rounds"
  shows "encrypt rounds ek a = aes_cipher rounds (round_key ek) a"
proof -
  define n where "n = rounds - 2"
  then have n: "rounds = Suc (Suc n)" using assms by simp
  have "fold (\<lambda>r b. enc_round (xor_block b (round_key ek r))) [0..<Suc n] a =
      fold (\<lambda>r b. enc_round (xor_block b (round_key ek r))) [1..<Suc n] (enc_round (xor_block a (round_key ek 0)))"
    by (simp add: upt_conv_Cons del: upt_Suc)
  then show ?thesis
    using rounds_shift [of enc_round "round_key ek" "Suc n" a]
    unfolding encrypt_def aes_cipher_def n enc_last_aes Let_def enc_round_aes [symmetric]
    by (simp del: upt_Suc)
qed

section \<open>Key schedule\<close>

lemma rcon_map: "rijndael_rcon = map (\<lambda>j. (xtime ^^ j) 1) [0..<30]"
  by (simp add: rijndael_rcon_def upt_conv_Cons numeral_eq_Suc) (simp add: xtime_def)

lemma rcon_at: "j < 30 \<Longrightarrow> rijndael_rcon ! j = (xtime ^^ j) 1"
  by (simp add: rcon_map del: funpow.simps)

text \<open>The columns of one period of the key schedule, and how the standard relates them to the next.\<close>

definition key_period :: "quad list \<Rightarrow> nat \<Rightarrow> quad list" where
  "key_period key m = map (\<lambda>j. aes_word key (length key * m + j)) [0..<length key]"

lemma aes_word_first:
  assumes "0 < length key"
  shows "aes_word key (length key * Suc m) = xor4 (xor4 (aes_word key (length key * m))
      (sub4 (rot_word (aes_word key (length key * m + (length key - 1)))))) ((xtime ^^ m) 1, 0, 0, 0)"
proof -
  obtain n where n: "length key = Suc n" using assms gr0_implies_Suc by blast
  have c: "(length key * Suc m < length key \<or> length key = 0) = False" "(length key * Suc m mod length key = 0) = True"
    "length key * Suc m - 1 = length key * m + (length key - 1)" "length key * Suc m - length key = length key * m"
    "length key * Suc m div length key - 1 = m"
    using assms unfolding n by (auto simp del: mult_Suc mult_Suc_right) auto
  show ?thesis unfolding aes_word.simps [of key "length key * Suc m"] Let_def c
    by (simp only: if_True if_False xor4_assoc)
qed

lemma aes_word_next:
  assumes "0 < j" and "j < length key"
  shows "aes_word key (length key * Suc m + j) = xor4 (aes_word key (length key * m + j))
    (if 6 < length key \<and> j = 4 then sub4 (aes_word key (length key * Suc m + (j - 1)))
     else aes_word key (length key * Suc m + (j - 1)))"
proof -
  have "(length key * Suc m + j) mod length key = j" using assms(2) by (simp only: mod_mult_self4 mod_less)
  then have c: "(length key * Suc m + j < length key \<or> length key = 0) = False" "((length key * Suc m + j) mod length key = 0) = False"
    "((length key * Suc m + j) mod length key = 4) = (j = 4)"
    "length key * Suc m + j - 1 = length key * Suc m + (j - 1)" "length key * Suc m + j - length key = length key * m + j"
    using assms by auto
  show ?thesis unfolding aes_word.simps [of key "length key * Suc m + j"] Let_def c
    by (simp only: if_True if_False)
qed

lemma chain_columns_map:
  assumes "prev = g i" and "\<And>x. i < x \<Longrightarrow> x < j \<Longrightarrow> g x = xor4 (f x) (g (x - 1))"
  shows "chain_columns prev (map f [Suc i..<j]) = map g [Suc i..<j]"
  using assms
proof (induction "j - Suc i" arbitrary: i prev)
  case (Suc n)
  then have u: "[Suc i..<j] = Suc i # [Suc (Suc i)..<j]" by (simp add: upt_conv_Cons)
  have "g (Suc i) = xor4 (f (Suc i)) prev" using Suc.prems Suc.hyps(2) by simp
  moreover have "chain_columns (g (Suc i)) (map f [Suc (Suc i)..<j]) = map g [Suc (Suc i)..<j]"
    using Suc.hyps(1) [of "Suc i" "g (Suc i)"] Suc.hyps(2) Suc.prems(2) by auto
  ultimately show ?case by (simp add: u Let_def)
qed simp

lemma upts: "[0..<8] = [0, 1, 2, 3, 4, 5, 6, 7]" "[Suc 0..<4] = [1, 2, 3]" "[Suc 4..<8] = [5, 6, 7]" "[5..<8] = [5, 6, 7]"
  by (simp_all add: upt_conv_Cons)

lemma next_columns_period:
  assumes "length key \<in> {4, 6, 8}" and "m < 30"
  shows "next_columns (key_period key m) m = key_period key (Suc m)"
proof -
  let ?n = "length key"
  define f g where "f = (\<lambda>j. aes_word key (?n * m + j))" and "g = (\<lambda>j. aes_word key (?n * Suc m + j))"
  have pos: "0 < ?n" using assms(1) by auto
  have g0: "g 0 = xor4 (xor4 (f 0) (sub4 (rot_word (f (?n - 1))))) (rijndael_rcon ! m, 0, 0, 0)"
    using aes_word_first [OF pos, of m] unfolding f_def g_def rcon_at [OF assms(2)] add_0_right .
  have gs: "g x = xor4 (f x) (if 6 < ?n \<and> x = 4 then sub4 (g (x - 1)) else g (x - 1))" if "0 < x" "x < ?n" for x
    using aes_word_next [OF that, of m] unfolding f_def g_def .
  have step: "g x = xor4 (f x) (g (x - 1))" if "0 < x" "x < ?n" "x \<noteq> 4 \<or> ?n \<le> 6" for x
    using gs [OF that(1,2)] that(3) by (simp only: not_less [symmetric]) auto
  have ends: "hd (map f [0..<?n]) = f 0" "last (map f [0..<?n]) = f (?n - 1)" "tl (map f [0..<?n]) = map f [1..<?n]"
    using pos by (simp_all add: hd_map last_map tl_upt map_tl [symmetric])
  have period: "key_period key m = map f [0..<?n]" "key_period key (Suc m) = map g [0..<?n]"
    by (simp_all add: key_period_def f_def g_def)
  show ?thesis
  proof (cases "?n = 8")
    case False
    then have "chain_columns (g 0) (map f [Suc 0..<?n]) = map g [Suc 0..<?n]"
      using False assms(1) by (intro chain_columns_map [OF refl] step) auto
    moreover have "next_columns (map f [0..<?n]) m = g 0 # chain_columns (g 0) (map f [1..<?n])"
      unfolding next_columns_def ends g0 [symmetric] Let_def using False by simp
    moreover have "map g [0..<?n] = g 0 # map g [Suc 0..<?n]" using pos by (simp add: upt_conv_Cons)
    ultimately show ?thesis unfolding period by simp
  next
    case True
    have "chain_columns (g 0) (map f [Suc 0..<4]) = map g [Suc 0..<4]"
      using True by (intro chain_columns_map [OF refl] step) auto
    then have lo: "chain_columns (g 0) [f 1, f 2, f 3] = [g 1, g 2, g 3]" by (simp only: upts list.map)
    have "chain_columns (g 4) (map f [Suc 4..<8]) = map g [Suc 4..<8]"
      using True by (intro chain_columns_map [OF refl] step) auto
    then have hi: "chain_columns (g 4) [f 5, f 6, f 7] = [g 5, g 6, g 7]" by (simp only: upts list.map)
    have g4: "g 4 = xor4 (f 4) (sub4 (g 3))" using gs [of 4] True by simp
    have g0: "xor4 (xor4 (f 0) (sub4 (rot_word (f 7)))) (rijndael_rcon ! m, 0, 0, 0) = g 0" using g0 True by simp
    have "next_columns [f 0, f 1, f 2, f 3, f 4, f 5, f 6, f 7] m = [g 0, g 1, g 2, g 3, g 4, g 5, g 6, g 7]"
      using lo hi g0 by (simp add: next_columns_def Let_def True g4 [symmetric] del: chain_columns.simps)
    then show ?thesis by (simp add: period True upts)
  qed
qed

lemma copy_columns_exact:
  assumes "copy_columns rounds cs r t ek = (r', t', ek')" and "t < 4" and "4 * r + t \<le> 4 * rounds + 4"
    and "4 * rounds + 4 \<le> length ek" and "n = min (length cs) (4 * rounds + 4 - (4 * r + t))"
  shows "4 * r' + t' = 4 * r + t + n \<and> t' < 4 \<and> length ek' = length ek \<and>
    (\<forall>i < 4 * r + t. ek' ! i = ek ! i) \<and> (\<forall>i < n. ek' ! (4 * r + t + i) = cs ! i)"
  using assms
proof (induction cs arbitrary: r t ek n)
  case (Cons c cs)
  show ?case
  proof (cases "r \<le> rounds")
    case False
    then have "4 * r + t = 4 * rounds + 4" using Cons.prems by linarith
    then show ?thesis using Cons.prems False by simp
  next
    case True
    let ?ek = "ek[4 * r + t := c]"
    obtain r1 t1 where nx: "copy_columns rounds cs r1 t1 ?ek = (r', t', ek')" "4 * r1 + t1 = 4 * r + t + 1" "t1 < 4"
      using Cons.prems(1,2) True by (cases "t + 1 = 4") auto
    let ?m = "min (length cs) (4 * rounds + 4 - (4 * r1 + t1))"
    have n: "n = Suc ?m" using Cons.prems True nx(2) by (auto simp: min_def)
    have IH: "4 * r' + t' = 4 * r1 + t1 + ?m" "t' < 4" "length ek' = length ?ek"
        "\<forall>i < 4 * r1 + t1. ek' ! i = ?ek ! i" "\<forall>i < ?m. ek' ! (4 * r1 + t1 + i) = cs ! i"
      using Cons.IH [OF nx(1,3) _ _ refl] nx(2) Cons.prems True by auto
    have "ek' ! (4 * r + t + i) = (c # cs) ! i" if "i < n" for i
    proof (cases i)
      case 0
      then show ?thesis using IH(4) nx(2) Cons.prems True by simp
    next
      case (Suc j)
      then have "ek' ! (4 * r1 + t1 + j) = cs ! j" using IH(5) that n by simp
      then show ?thesis using Suc nx(2) by simp
    qed
    then show ?thesis using IH nx(2) n by auto
  qed
qed auto

lemma schedule_loop_exact:
  assumes "length key \<in> {4, 6, 8}" and "rounds = length key + 6"
    and "tempKey = key_period key m" and "4 * r + t = min (length key * Suc m) (4 * rounds + 4)" and "t < 4"
    and "4 * rounds + 4 \<le> length ek" and "\<forall>i < 4 * r + t. ek ! i = aes_word key i"
  shows "length (schedule_loop rounds tempKey m r t ek) = length ek \<and>
    (\<forall>i < 4 * rounds + 4. schedule_loop rounds tempKey m r t ek ! i = aes_word key i)"
  using assms
proof (induction rounds tempKey m r t ek rule: schedule_loop.induct)
  case (1 rounds tempKey m r t ek)
  let ?n = "length key"
  show ?case
  proof (cases "r \<le> rounds")
    case False
    then have "schedule_loop rounds tempKey m r t ek = ek" "4 * rounds + 4 \<le> 4 * r + t"
      by (simp_all add: schedule_loop.simps [of rounds])
    then show ?thesis using "1.prems"(7) by auto
  next
    case True
    then have lt: "?n * Suc m < 4 * rounds + 4" and p: "4 * r + t = ?n * Suc m" using "1.prems"(4,5) by (auto simp: min_def split: if_splits)
    have m: "m < 30" using lt "1.prems"(1,2) by auto
    have tk: "next_columns tempKey m = key_period key (Suc m)" using next_columns_period [OF "1.prems"(1) m] "1.prems"(3) by simp
    obtain r' t' ek' where cp: "copy_columns rounds (key_period key (Suc m)) r t ek = (r', t', ek')" by (metis surj_pair)
    let ?k = "min ?n (4 * rounds + 4 - (4 * r + t))"
    have ex: "4 * r' + t' = 4 * r + t + ?k" "t' < 4" "length ek' = length ek" "\<forall>i < 4 * r + t. ek' ! i = ek ! i"
        "\<forall>i < ?k. ek' ! (4 * r + t + i) = key_period key (Suc m) ! i"
      using copy_columns_exact [OF cp "1.prems"(5) _ "1.prems"(6) refl] lt p by (auto simp: key_period_def)
    have "ek' ! i = aes_word key i" if "i < 4 * r' + t'" for i
    proof (cases "i < 4 * r + t")
      case True
      then show ?thesis using ex(4) "1.prems"(7) by simp
    next
      case False
      then obtain j where j: "i = 4 * r + t + j" using le_Suc_ex not_less by blast
      then have "j < ?k" using that ex(1) by simp
      then show ?thesis using ex(5) j p by (simp add: key_period_def)
    qed
    moreover have "4 * r' + t' = min (?n * Suc (Suc m)) (4 * rounds + 4)" using ex(1) p lt by (auto simp: min_def)
    ultimately have "length (schedule_loop rounds (key_period key (Suc m)) (m + 1) r' t' ek') = length ek' \<and>
        (\<forall>i < 4 * rounds + 4. schedule_loop rounds (key_period key (Suc m)) (m + 1) r' t' ek' ! i = aes_word key i)"
      using "1.IH" [OF _ tk [symmetric] cp [symmetric] refl refl] True "1.prems"(1,2,5,6) ex(2,3) by simp
    moreover have "schedule_loop rounds tempKey m r t ek = schedule_loop rounds (key_period key (Suc m)) (m + 1) r' t' ek'"
      using True "1.prems"(5) by (subst schedule_loop.simps) (simp add: tk cp Let_def)
    ultimately show ?thesis using ex(3) by simp
  qed
qed

text \<open>The key schedule is the KeyExpansion of the standard.\<close>

lemma keySched_aes:
  assumes "length key \<in> {4, 6, 8}" and "rounds = length key + 6" and "4 * rounds + 4 \<le> length ek"
  shows "length (keySched rounds key ek) = length ek \<and> (\<forall>i < 4 * rounds + 4. keySched rounds key ek ! i = aes_word key i)"
proof -
  obtain r t ek1 where cp: "copy_columns rounds key 0 0 ek = (r, t, ek1)" by (metis surj_pair)
  have min: "min (length key) (4 * rounds + 4) = length key" using assms(2) by simp
  have ex: "4 * r + t = length key" "t < 4" "length ek1 = length ek" "\<forall>i < length key. ek1 ! i = key ! i"
    using copy_columns_exact [OF cp _ _ assms(3) refl] min by auto
  moreover have "aes_word key i = key ! i" if "i < length key" for i using that by (subst aes_word.simps) (simp add: Let_def)
  moreover have "key = key_period key 0"
    using calculation(5) by (auto simp: key_period_def intro!: nth_equalityI)
  ultimately show ?thesis
    using schedule_loop_exact [OF assms(1,2) _ _ _ , of key 0 r t ek1] assms(3) min by (simp add: keySched_def cp)
qed

section \<open>Decryption\<close>

fun unshift_rows :: "block \<Rightarrow> block" where
  "unshift_rows ((a0, a1, a2, a3), (b0, b1, b2, b3), (c0, c1, c2, c3), (d0, d1, d2, d3)) =
     ((a0, d1, c2, b3), (b0, a1, d2, c3), (c0, b1, a2, d3), (d0, c1, b2, a3))"

lemma xor_self_left: "x XOR (x XOR y) = y" for x :: byte
  by (simp flip: xor.assoc)

lemma rot_xor4: "rot (xor4 p q) = xor4 (rot p) (rot q)"
  by (cases p; cases q) simp

lemma rot4: "rot (rot (rot (rot q))) = q"
  by (cases q) simp

lemma imix1_xor: "imix1 (a XOR b) = xor4 (imix1 a) (imix1 b)"
  by (simp add: imix1_def xtime_xor Let_def xor.assoc xor.left_commute)

lemma imix1_0: "imix1 0 = (0, 0, 0, 0)"
  by (simp add: imix1_def xtime_def)

lemma xor4_left_commute: "xor4 a (xor4 b c) = xor4 b (xor4 a c)"
  by (metis xor4_assoc xor4_commute)

lemma dec_column_xor: "dec_column (xor4 p q) = xor4 (dec_column p) (dec_column q)"
  by (cases p; cases q) (simp add: U_at imix1_xor rot_xor4 xor4_assoc xor4_left_commute)

lemma dec_column_rot: "dec_column (rot q) = rot (dec_column q)"
  by (cases q) (simp add: U_at rot_xor4 rot4 xor4_assoc xor4_left_commute xor4_commute)

lemma dec_column_mix1: "dec_column (mix1 a) = (a, 0, 0, 0)"
  by (simp add: U_at mix1_def imix1_def Let_def xtime_xor xor.assoc xor.left_commute xor.commute xor_self_left)

lemma mix_column_split:
  "mix_column (a, b, c, d) = xor4 (xor4 (xor4 (mix1 a) (rot (mix1 b))) (rot (rot (mix1 c)))) (rot (rot (rot (mix1 d))))"
  by (simp add: mix1_def xtime3_def xor.assoc)

lemma dec_column_mix: "dec_column (mix_column q) = q"
  by (cases q) (simp add: mix_column_split dec_column_xor dec_column_rot dec_column_mix1 del: mix_column.simps dec_column.simps)

lemma t_inv_column_mix: "t_inv_column a b c d = dec_column (isbox a, isbox b, isbox c, isbox d)"
  by (simp add: t_inv_column_def T_inv_at U_at)

lemma dec_round_inv: "dec_round s = map_block dec_column (unshift_rows (map_block (map_quad isbox) s))"
  by (cases s rule: dec_round.cases) (simp add: t_inv_column_mix del: dec_column.simps)

lemma dec_last_inv: "dec_last s = unshift_rows (map_block (map_quad isbox) s)"
  by (cases s rule: dec_last.cases) simp

lemma dec_last_enc_last: "dec_last (enc_last s) = s"
  by (cases s rule: enc_last.cases) (simp add: t1_1_sbox isbox_sbox)

lemma map_block_xor:
  "(\<And>p q. f (xor4 p q) = xor4 (f p) (f q)) \<Longrightarrow> map_block f (xor_block a b) = xor_block (map_block f a) (map_block f b)"
  by (cases a; cases b) auto

text \<open>One round back: \<open>x\<close> is what the round before produced, without its round key.\<close>

lemma dec_round_enc:
  "dec_round (enc_last (xor_block (mix_columns x) k)) = xor_block x (map_block dec_column k)"
proof -
  have "dec_round (enc_last s) = map_block dec_column s" for s
    using dec_last_enc_last [of s] by (simp only: dec_round_inv dec_last_inv)
  moreover have "map_block dec_column (mix_columns x) = x" by (cases x) (simp add: dec_column_mix del: mix_column.simps dec_column.simps)
  ultimately show ?thesis by (simp add: map_block_xor [OF dec_column_xor])
qed

lemma keyEncToDec_keys:
  assumes "4 * n \<le> length ek"
  shows "length (keyEncToDec n ek) = length ek \<and>
    (\<forall>r. 4 * r + 3 < length ek \<longrightarrow> round_key (keyEncToDec n ek) r =
       (if 1 \<le> r \<and> r < n then map_block dec_column (round_key ek r) else round_key ek r))"
  using assms
proof (induction n)
  case 0
  then show ?case by (simp add: keyEncToDec_def)
next
  case (Suc n)
  let ?f = "\<lambda>r (ek :: quad list). ek[4 * r := dec_column (ek ! (4 * r)), 4 * r + 1 := dec_column (ek ! (4 * r + 1)),
     4 * r + 2 := dec_column (ek ! (4 * r + 2)), 4 * r + 3 := dec_column (ek ! (4 * r + 3))]"
  let ?e = "keyEncToDec n ek"
  have IH: "length ?e = length ek" "\<And>r. 4 * r + 3 < length ek \<Longrightarrow> round_key ?e r =
       (if 1 \<le> r \<and> r < n then map_block dec_column (round_key ek r) else round_key ek r)"
    using Suc by auto
  show ?case
  proof (cases "n = 0")
    case True
    then show ?thesis by (simp add: keyEncToDec_def)
  next
    case False
    then have step: "keyEncToDec (Suc n) ek = ?f n ?e" by (simp add: keyEncToDec_def)
    have "round_key (?f n ?e) r = (if r = n then map_block dec_column (round_key ?e r) else round_key ?e r)"
      if "4 * r + 3 < length ek" for r
      using that Suc.prems IH(1) by (cases "r = n") (auto simp: round_key_def nth_list_update simp del: dec_column.simps)
    then show ?thesis using IH False by (auto simp: step simp del: dec_column.simps)
  qed
qed

text \<open>The states between the rounds, before the round key is added.\<close>

fun between :: "(nat \<Rightarrow> block) \<Rightarrow> block \<Rightarrow> nat \<Rightarrow> block" where
  "between K a 0 = a"
| "between K a (Suc r) = mix_columns (enc_last (xor_block (between K a r) (K r)))"

lemma encrypt_between:
  "encrypt (Suc (Suc n)) ek a =
     xor_block (enc_last (xor_block (between (round_key ek) a (Suc n)) (round_key ek (Suc n)))) (round_key ek (Suc (Suc n)))"
proof -
  have er: "enc_round s = mix_columns (enc_last s)" for s by (simp only: enc_round_aes enc_last_aes)
  have "fold (\<lambda>r b. enc_round (xor_block b (round_key ek r))) [1..<Suc m] (enc_round (xor_block a (round_key ek 0))) =
      between (round_key ek) a (Suc m)" for m
    by (induction m) (auto simp: er)
  then show ?thesis by (simp add: encrypt_def Let_def)
qed

lemma decrypt_rounds:
  assumes "\<And>r. 1 \<le> r \<Longrightarrow> r \<le> Suc m \<Longrightarrow> D r = map_block dec_column (K r)"
  shows "fold (\<lambda>r b. dec_round (xor_block b (D r))) (rev [2..<Suc (Suc m)])
      (xor_block (enc_last (xor_block (between K a m) (K m))) (D (Suc m))) =
    xor_block (enc_last (xor_block a (K 0))) (D 1)"
  using assms
proof (induction m)
  case (Suc m)
  let ?y = "\<lambda>r. enc_last (xor_block (between K a r) (K r))"
  have "[2..<Suc (Suc (Suc m))] = [2..<Suc (Suc m)] @ [Suc (Suc m)]" by simp
  then have r: "rev [2..<Suc (Suc (Suc m))] = Suc (Suc m) # rev [2..<Suc (Suc m)]" by simp
  have "dec_round (xor_block (xor_block (?y (Suc m)) (D (Suc (Suc m)))) (D (Suc (Suc m)))) = xor_block (?y m) (D (Suc m))"
    using Suc.prems [of "Suc m"] by (simp add: xor_block_cancel dec_round_enc)
  then show ?case using Suc.IH Suc.prems unfolding r by simp
qed simp

lemma decrypt_encrypt:
  assumes "2 \<le> rounds" and "4 * rounds + 4 \<le> length ek"
  shows "decrypt rounds (keyEncToDec rounds ek) (encrypt rounds ek a) = a"
proof -
  define n where "n = rounds - 2"
  then have n: "rounds = Suc (Suc n)" using assms(1) by simp
  let ?K = "round_key ek" and ?D = "round_key (keyEncToDec rounds ek)"
  have D: "?D r = map_block dec_column (?K r)" if "1 \<le> r" "r \<le> Suc n" for r
    using keyEncToDec_keys [of rounds ek] assms(2) that n by auto
  have ends: "?D 0 = ?K 0" "?D rounds = ?K rounds" using keyEncToDec_keys [of rounds ek] assms(2) n by auto
  let ?y = "\<lambda>r. enc_last (xor_block (between ?K a r) (?K r))"
  have first: "dec_round (xor_block (encrypt rounds ek a) (?D rounds)) = xor_block (?y n) (?D (Suc n))"
    using D [of "Suc n"] unfolding n encrypt_between ends [unfolded n] xor_block_cancel by (simp add: dec_round_enc)
  have "fold (\<lambda>r b. dec_round (xor_block b (?D r))) (rev [2..<rounds]) (xor_block (?y n) (?D (Suc n))) = xor_block (?y 0) (?D 1)"
    using decrypt_rounds [of n ?D ?K a] D unfolding n by auto
  then show ?thesis
    unfolding decrypt_def Let_def first by (simp add: xor_block_cancel dec_last_enc_last ends(1))
qed

section \<open>Blocks in memory\<close>

lemma block_of_bytes: "block_of (block_bytes b) = b"
  by (cases b) (auto simp: block_of_def Let_def)

lemma length_block_bytes [simp]: "length (block_bytes b) = 16"
  by (cases b) auto

lemma block_bytes_of: "length bs = 16 \<Longrightarrow> block_bytes (block_of bs) = bs"
  by (auto simp: numeral_eq_Suc length_Suc_conv block_of_def)

lemma length_quads_of: "length bs = 4 * n \<Longrightarrow> length (quads_of bs) = n"
proof (induction n arbitrary: bs)
  case (Suc n)
  then obtain a b c d rest where "bs = a # b # c # d # rest" "length rest = 4 * n"
    by (auto simp: length_Suc_conv numeral_eq_Suc)
  then show ?case using Suc.IH by simp
qed simp

definition blocks_at :: "bytes \<Rightarrow> nat \<Rightarrow> nat \<Rightarrow> block list" where
  "blocks_at m i n = map (\<lambda>j. block_of (take 16 (drop (i + 16 * j) m))) [0..<n]"

abbreviation bytes_of :: "block list \<Rightarrow> bytes" where
  "bytes_of bs \<equiv> concat (map block_bytes bs)"

lemma length_bytes_of [simp]: "length (bytes_of bs) = 16 * length bs"
  by (induction bs) auto

lemma blocks_at_Suc: "blocks_at m i (Suc n) = block_of (take 16 (drop i m)) # blocks_at m (i + 16) n"
  by (simp add: blocks_at_def upt_conv_Cons map_Suc_upt [symmetric] algebra_simps del: upt_Suc)

lemma length_blocks_at [simp]: "length (blocks_at m i n) = n"
  by (simp add: blocks_at_def)

lemma put_bytes_put:
  "i + length xs + length ys \<le> length m \<Longrightarrow> put_bytes (put_bytes m i xs) (i + length xs) ys = put_bytes m i (xs @ ys)"
  by (simp add: put_bytes_def add.commute add.left_commute)

lemma put_bytes_nil [simp]: "put_bytes m i [] = m"
  by (simp add: put_bytes_def)

lemma bytes_of_blocks_at: "i + 16 * n \<le> length m \<Longrightarrow> bytes_of (blocks_at m i n) = take (16 * n) (drop i m)"
proof (induction n arbitrary: i)
  case (Suc n)
  then have "length (take 16 (drop i m)) = 16" by simp
  then have "bytes_of (blocks_at m i (Suc n)) = take 16 (drop i m) @ take (16 * n) (drop (i + 16) m)"
    using Suc by (simp add: blocks_at_Suc block_bytes_of del: take_drop)
  also have "\<dots> = take (16 + 16 * n) (drop i m)" by (simp add: take_add add.commute)
  finally show ?case by simp
qed (simp add: blocks_at_def)

lemma blocks_at_bytes: "blocks_at (bytes_of bs @ rest) 0 (length bs) = bs"
proof (induction bs)
  case (Cons b bs)
  have shift: "blocks_at (xs @ ys) (length xs + i) n = blocks_at ys i n" for xs ys :: bytes and i n
    by (simp add: blocks_at_def)
  show ?case using Cons shift [of "block_bytes b" "bytes_of bs @ rest" 0]
    by (simp add: blocks_at_Suc block_of_bytes)
qed (simp add: blocks_at_def)

section \<open>The loops of the modes\<close>

fun cbc_blocks :: "(block \<Rightarrow> block) \<Rightarrow> block \<Rightarrow> block list \<Rightarrow> block list" where
  "cbc_blocks f iv [] = []"
| "cbc_blocks f iv (b # bs) = (let c = f (xor_block iv b) in c # cbc_blocks f c bs)"

fun icbc_blocks :: "(block \<Rightarrow> block) \<Rightarrow> block \<Rightarrow> block list \<Rightarrow> block list" where
  "icbc_blocks f iv [] = []"
| "icbc_blocks f iv (c # cs) = xor_block (f c) iv # icbc_blocks f c cs"

lemma length_cbc_blocks [simp]: "length (cbc_blocks f iv bs) = length bs"
  by (induction bs arbitrary: iv) (auto simp: Let_def)

lemma length_icbc_blocks [simp]: "length (icbc_blocks f iv bs) = length bs"
  by (induction bs arbitrary: iv) auto

lemma put_put_block:
  "i + 16 * Suc n \<le> length m \<Longrightarrow> length ys = 16 * n \<Longrightarrow>
   put_bytes (put_bytes m i (block_bytes b)) (i + 16) ys = put_bytes m i (block_bytes b @ ys)"
  using put_bytes_put [of i "block_bytes b" ys m] by simp

lemma ecb_loop_exact:
  assumes "i + 16 * n \<le> length inp" and "i + 16 * n \<le> length out"
  shows "ecb_loop f n inp i out = Inr (put_bytes out i (bytes_of (map f (blocks_at inp i n))))"
  using assms
proof (induction n arbitrary: i out)
  case (Suc n)
  then show ?case using put_put_block [of i n out "bytes_of (map f (blocks_at inp (i + 16) n))" "f (block_of (take 16 (drop i inp)))"]
    by (simp add: get_block_def put_block_def blocks_at_Suc del: map_map)
qed (simp add: blocks_at_def)

lemma cbc_loop_exact:
  assumes "i + 16 * n \<le> length inp" and "i + 16 * n \<le> length out"
  shows "cbc_loop f n inp i iv out = Inr (last (iv # cbc_blocks f iv (blocks_at inp i n)),
    put_bytes out i (bytes_of (cbc_blocks f iv (blocks_at inp i n))))"
  using assms
proof (induction n arbitrary: i iv out)
  case (Suc n)
  let ?c = "f (xor_block iv (block_of (take 16 (drop i inp))))"
  show ?case using Suc put_put_block [of i n out "bytes_of (cbc_blocks f ?c (blocks_at inp (i + 16) n))" ?c]
    by (simp add: get_block_def put_block_def blocks_at_Suc Let_def)
qed (simp add: blocks_at_def)

lemma cbc_inverse_loop_exact:
  assumes "i + 16 * n \<le> length inp" and "i + 16 * n \<le> length out"
  shows "cbc_inverse_loop f n inp i iv out = Inr (last (iv # blocks_at inp i n),
    put_bytes out i (bytes_of (icbc_blocks f iv (blocks_at inp i n))))"
  using assms
proof (induction n arbitrary: i iv out)
  case (Suc n)
  let ?b = "block_of (take 16 (drop i inp))"
  show ?case using Suc put_put_block [of i n out "bytes_of (icbc_blocks f ?b (blocks_at inp (i + 16) n))" "xor_block (f ?b) iv"]
    by (simp add: get_block_def put_block_def blocks_at_Suc)
qed (simp add: blocks_at_def)

lemma icbc_cbc: "(\<And>b. g (f b) = b) \<Longrightarrow> icbc_blocks g iv (cbc_blocks f iv bs) = bs"
proof (induction bs arbitrary: iv)
  case (Cons b bs)
  have "xor_block (xor_block iv b) iv = b" by (simp add: xor_block_commute [of iv b] xor_block_cancel)
  then show ?case using Cons by (simp add: Let_def)
qed simp

section \<open>The interface\<close>

definition aes :: "bytes \<Rightarrow> block \<Rightarrow> block" where
  "aes key b = (let ks = quads_of key; w = aes_word ks
     in aes_cipher (length ks + 6) (\<lambda>r. (w (4 * r), w (4 * r + 1), w (4 * r + 2), w (4 * r + 3))) b)"

definition init_vector :: "bytes option \<Rightarrow> bytes" where
  "init_vector iv = (case iv of None \<Rightarrow> replicate 16 0 | Some v \<Rightarrow> take 16 v)"

text \<open>What \<open>init\<close> relies on: a key and an initialisation vector of enough octets, and the array of the round keys.\<close>

definition init_ready :: "bytes \<Rightarrow> key_length \<Rightarrow> bytes option \<Rightarrow> rijndael \<Rightarrow> bool" where
  "init_ready key kl iv m \<longleftrightarrow> key_bytes kl \<le> length key \<and> (case iv of None \<Rightarrow> True | Some v \<Rightarrow> 16 \<le> length v) \<and>
     length (m_expandedKey m) = 60"

lemma aes_cipher_cong: "(\<And>r. r \<le> n \<Longrightarrow> v r = w r) \<Longrightarrow> aes_cipher n v = aes_cipher n w"
proof (rule ext)
  fix a
  assume eq: "\<And>r. r \<le> n \<Longrightarrow> v r = w r"
  have "fold (\<lambda>r s. xor_block (mix_columns (shift_rows (sub_bytes s))) (v r)) [1..<n] x =
      fold (\<lambda>r s. xor_block (mix_columns (shift_rows (sub_bytes s))) (w r)) [1..<n] x" for x
    using eq by (intro fold_cong) auto
  then show "aes_cipher n v a = aes_cipher n w a" using eq [of 0] eq [of n] by (simp add: aes_cipher_def)
qed

lemma init_works:
  assumes "init_ready key kl iv m"
  shows "\<exists>m'. rijndael_init mode dir (Some key) kl iv m = Inr (RIJNDAEL_SUCCESS, m') \<and> m_state m' = Valid \<and>
    m_mode m' = mode \<and> m_direction m' = dir \<and> m_initVector m' = init_vector iv \<and>
    (dir = Encrypt \<longrightarrow> encrypt_block m' = aes (take (key_bytes kl) key)) \<and>
    (dir = Decrypt \<longrightarrow> (\<forall>b. decrypt_block m' (aes (take (key_bytes kl) key) b) = b))"
proof -
  let ?k = "take (key_bytes kl) key" and ?n = "key_rounds kl"
  let ?ks = "quads_of ?k" and ?ek = "keySched (key_rounds kl) (quads_of (take (key_bytes kl) key)) (m_expandedKey m)"
  have kb: "key_bytes kl = 4 * (?n - 6)" "?n - 6 \<in> {4, 6, 8}" "6 \<le> ?n" "?n \<le> 14"
    by (cases kl; simp add: key_bytes_def key_rounds_def; fail)+
  have len: "length ?ks = ?n - 6" using assms kb(1) by (intro length_quads_of) (simp add: init_ready_def)
  have l60: "length (m_expandedKey m) = 60" using assms by (simp add: init_ready_def)
  have ks: "length ?ks \<in> {4, 6, 8}" "?n = length ?ks + 6" unfolding len using kb(2,3) by simp_all
  have "4 * ?n + 4 \<le> length (m_expandedKey m)" using l60 kb(4) by simp
  note k = keySched_aes [OF ks this]
  have sched: "length ?ek = 60" "\<And>i. i < 4 * ?n + 4 \<Longrightarrow> ?ek ! i = aes_word ?ks i"
    using k [THEN conjunct1] k [THEN conjunct2, rule_format] l60 by simp_all
  have "encrypt ?n ?ek = aes_cipher ?n (round_key ?ek)" using encrypt_aes_cipher [of ?n] kb(3) by (intro ext) simp
  also have "\<dots> = aes_cipher ?n (\<lambda>r. (aes_word ?ks (4 * r), aes_word ?ks (4 * r + 1), aes_word ?ks (4 * r + 2), aes_word ?ks (4 * r + 3)))"
    by (rule aes_cipher_cong) (simp add: round_key_def sched(2))
  also have "\<dots> = aes ?k" using len kb(3) by (intro ext) (simp add: aes_def Let_def)
  finally have enc: "encrypt ?n ?ek = aes ?k" .
  have dec: "decrypt ?n (keyEncToDec ?n ?ek) (aes ?k b) = b" for b
    using decrypt_encrypt [of ?n ?ek b] kb(3,4) sched(1) unfolding enc by simp
  let ?m = "m\<lparr>m_state := Valid, m_mode := mode, m_direction := dir, m_initVector := init_vector iv, m_uRounds := ?n,
    m_expandedKey := (if dir = Decrypt then keyEncToDec ?n ?ek else ?ek)\<rparr>"
  have "rijndael_init mode dir (Some key) kl iv m = Inr (RIJNDAEL_SUCCESS, ?m)"
    using assms unfolding init_ready_def by (cases iv) (simp_all add: rijndael_init_def init_vector_def Let_def)
  moreover have "dir = Encrypt \<longrightarrow> encrypt_block ?m = aes ?k" "dir = Decrypt \<longrightarrow> (\<forall>b. decrypt_block ?m (aes ?k b) = b)"
    using enc dec by (simp_all add: encrypt_block_def decrypt_block_def)
  ultimately show ?thesis by (intro exI [of _ ?m]) simp
qed

text \<open>
  C28: the cipher is the Advanced Encryption Standard. For keys of 16, 24 and 32 octets, an object
  initialised for ECB encrypts every block of the input as the Cipher of FIPS 197 does under the
  round keys of its KeyExpansion, and writes nothing but the encrypted blocks.
\<close>

theorem cipher_is_aes:
  assumes "init_ready key kl iv m" and "n * 16 \<le> length inp" and "n * 16 \<le> length out" and "0 < n"
  shows "\<exists>m'. rijndael_init ECB Encrypt (Some key) kl iv m = Inr (RIJNDAEL_SUCCESS, m') \<and>
    blockEncrypt m' (Some inp) (128 * int n) out = Inr (128 * int n,
      concat (map block_bytes (map (aes (take (key_bytes kl) key)) (blocks_at inp 0 n))) @ drop (16 * n) out)"
proof -
  obtain m' where i: "rijndael_init ECB Encrypt (Some key) kl iv m = Inr (RIJNDAEL_SUCCESS, m')" and m': "m_state m' = Valid" "m_mode m' = ECB"
      "m_direction m' = Encrypt" "encrypt_block m' = aes (take (key_bytes kl) key)"
    using init_works [OF assms(1), of ECB Encrypt] by auto
  have "ecb_loop (encrypt_block m') n inp 0 out = Inr (put_bytes out 0 (bytes_of (map (encrypt_block m') (blocks_at inp 0 n))))"
    using assms(2,3) by (intro ecb_loop_exact) auto
  then show ?thesis using i m' assms(4)
    by (intro exI [of _ m']) (simp add: blockEncrypt_def Let_def put_bytes_def del: map_map)
qed

lemma unpad_padded:
  assumes "rest < 16" and "length ds = rest" and "b = block_of (ds @ replicate (16 - rest) (of_nat (16 - rest)))"
    and "ok (16 - rest)" and "16 * n + rest \<le> length out"
  shows "unpad ok (Suc n) b out = Inr (int (16 * n + rest), put_bytes out (16 * n) ds)"
proof -
  define x :: byte where "x = of_nat (16 - rest)"
  have bb: "block_bytes b = ds @ replicate (16 - rest) x"
    unfolding assms(3) x_def using assms(1,2) by (intro block_bytes_of) simp
  have pad: "unat x = 16 - rest" by (simp add: x_def unat_of_nat_byte del: of_nat_diff)
  have "last (block_bytes b) = x" using assms(1) unfolding bb by (simp add: last_replicate)
  then show ?thesis using assms(1,2,4,5) pad by (simp add: unpad_def Let_def bb)
qed

lemma pad_cbc_exact:
  assumes "length d + 16 \<le> length buf" and "0 < length d"
    and "m_state e = Valid" and "m_mode e = CBC" and "m_direction e = Encrypt"
    and "N = length d div 16" and "iv = block_of (m_initVector e)" and "cs = cbc_blocks (encrypt_block e) iv (blocks_at d 0 N)"
    and "pb = block_of (drop (16 * N) d @ replicate (16 - length d mod 16) (of_nat (16 - length d mod 16)))"
  shows "padEncrypt e (Some d) (int (length d)) buf = Inr (int (16 * (N + 1)),
    bytes_of (cs @ [encrypt_block e (xor_block pb (last (iv # cs)))]) @ drop (16 * (N + 1)) buf)"
proof -
  have N: "16 * N \<le> length d" "16 * N + length d mod 16 = length d" "length d - 16 * N = length d mod 16"
    using mult_div_mod_eq [of 16 "length d"] unfolding assms(6) by linarith+
  have loop: "cbc_loop (encrypt_block e) N d 0 iv buf = Inr (last (iv # cs), put_bytes buf 0 (bytes_of cs))"
    using cbc_loop_exact [of 0 N d buf] assms(1) N(1) by (simp add: assms(8))
  have pad: "padded d (16 * N) (length d mod 16) = Inr pb" using N by (simp add: padded_def assms(9))
  have lcs: "length cs = N" by (simp add: assms(8))
  have "put_block (put_bytes buf 0 (bytes_of cs)) (16 * N) b = Inr (bytes_of (cs @ [b]) @ drop (16 * (N + 1)) buf)" for b
    using assms(1) N(1) lcs by (simp add: put_block_def put_bytes_def add.commute)
  then show ?thesis
    using assms(2-5) N(3) loop pad by (simp add: padEncrypt_def Let_def assms(6) [symmetric] assms(7) [symmetric] del: map_append concat_append)
qed

text \<open>
  C29: padded CBC messages survive. Whatever the key size, the initialisation vector and the data, what
  \<open>padEncrypt\<close> writes is turned back by \<open>padDecrypt\<close> of an object initialised with the same key: the
  length it returns is that of the data, and the data stand at the start of the output.
\<close>

theorem padded_cbc_roundtrip:
  assumes "init_ready key kl iv m1" and "init_ready key kl iv m2" and "0 < length d"
    and "length d + 16 \<le> length buf1" and "length d \<le> length buf2"
  shows "\<exists>e de n c p. rijndael_init CBC Encrypt (Some key) kl iv m1 = Inr (RIJNDAEL_SUCCESS, e) \<and>
    rijndael_init CBC Decrypt (Some key) kl iv m2 = Inr (RIJNDAEL_SUCCESS, de) \<and>
    padEncrypt e (Some d) (int (length d)) buf1 = Inr (n, c) \<and>
    padDecrypt de (Some c) n buf2 = Inr (int (length d), p) \<and> take (length d) p = d"
proof -
  obtain e where e: "rijndael_init CBC Encrypt (Some key) kl iv m1 = Inr (RIJNDAEL_SUCCESS, e)" "m_state e = Valid" "m_mode e = CBC"
      "m_direction e = Encrypt" "m_initVector e = init_vector iv" "encrypt_block e = aes (take (key_bytes kl) key)"
    using init_works [OF assms(1), of CBC Encrypt] by auto
  obtain de where de: "rijndael_init CBC Decrypt (Some key) kl iv m2 = Inr (RIJNDAEL_SUCCESS, de)" "m_state de = Valid" "m_mode de = CBC"
      "m_direction de = Decrypt" "m_initVector de = init_vector iv" "\<And>b. decrypt_block de (encrypt_block e b) = b"
    using init_works [OF assms(2), of CBC Decrypt] unfolding e(6) by auto
  define N where "N = length d div 16"
  define v where "v = block_of (init_vector iv)"
  define cs where "cs = cbc_blocks (encrypt_block e) v (blocks_at d 0 N)"
  define pb where "pb = block_of (drop (16 * N) d @ replicate (16 - length d mod 16) (of_nat (16 - length d mod 16)))"
  define cl where "cl = encrypt_block e (xor_block pb (last (v # cs)))"
  define c where "c = bytes_of (cs @ [cl]) @ drop (16 * (N + 1)) buf1"
  have N: "16 * N \<le> length d" "16 * N + length d mod 16 = length d" "length (drop (16 * N) d) = length d mod 16"
    using mult_div_mod_eq [of 16 "length d"] unfolding N_def length_drop by linarith+
  have enc: "padEncrypt e (Some d) (int (length d)) buf1 = Inr (int (16 * (N + 1)), c)"
    unfolding c_def cl_def
    by (rule pad_cbc_exact [OF assms(4,3) e(2-4) N_def _ cs_def pb_def]) (simp add: v_def e(5))
  have lcs: "length cs = N" by (simp add: cs_def)
  have cs_back: "blocks_at c 0 N = cs"
    using blocks_at_bytes [of cs "block_bytes cl @ drop (16 * (N + 1)) buf1"] by (simp add: c_def lcs)
  have lc: "16 * (N + 1) \<le> length c" by (simp add: c_def lcs)
  have cl: "get_block c (16 * N) = Inr cl"
    using lc by (simp add: get_block_def c_def lcs block_of_bytes)
  have loop: "cbc_inverse_loop (decrypt_block de) N c 0 v buf2 = Inr (last (v # cs), put_bytes buf2 0 (bytes_of (blocks_at d 0 N)))"
    using cbc_inverse_loop_exact [of 0 N c buf2 "decrypt_block de" v] lc assms(5) N(1) cs_back
      icbc_cbc [of "decrypt_block de" "encrypt_block e" v "blocks_at d 0 N", OF de(6)] by (simp add: cs_def)
  have "xor_block (decrypt_block de cl) (last (v # cs)) = pb" by (simp add: cl_def de(6) xor_block_cancel)
  moreover have "unpad (\<lambda>n. 0 < n \<and> n \<le> 16) (Suc N) pb (put_bytes buf2 0 (bytes_of (blocks_at d 0 N))) =
      Inr (int (16 * N + length d mod 16), put_bytes (put_bytes buf2 0 (bytes_of (blocks_at d 0 N))) (16 * N) (drop (16 * N) d))"
    using assms(5) N by (intro unpad_padded [OF _ N(3) pb_def]) auto
  ultimately have dec: "padDecrypt de (Some c) (int (16 * (N + 1))) buf2 = Inr (int (length d),
      put_bytes (put_bytes buf2 0 (bytes_of (blocks_at d 0 N))) (16 * N) (drop (16 * N) d))"
    using de(2-5) loop cl N(2) by (simp add: padDecrypt_def Let_def v_def [symmetric] nat_add_distrib nat_mult_distrib)
  have "put_bytes (put_bytes buf2 0 (bytes_of (blocks_at d 0 N))) (16 * N) (drop (16 * N) d) = put_bytes buf2 0 d"
    using put_bytes_put [of 0 "take (16 * N) d" "drop (16 * N) d" buf2] bytes_of_blocks_at [of 0 N d] N(1) assms(5) by simp
  then have "take (length d) (put_bytes (put_bytes buf2 0 (bytes_of (blocks_at d 0 N))) (16 * N) (drop (16 * N) d)) = d"
    by (simp add: put_bytes_def)
  then show ?thesis using e(1) de(1) enc dec by blast
qed

text \<open>
  Padded ECB is not symmetric: data of whole blocks get a full block of padding, with 16 in its last
  octet, which \<open>padDecrypt\<close> takes for corrupted data.
\<close>

lemma ecb_full_padding_rejected:
  assumes "m_state de = Valid" and "m_mode de = ECB" and "m_direction de = Decrypt" and "\<And>b. decrypt_block de (f b) = b"
    and "c = bytes_of (map f (bs @ [block_of (replicate 16 16)]))" and "16 * length bs \<le> length buf"
  shows "\<exists>p. padDecrypt de (Some c) (int (length c)) buf = Inr (RIJNDAEL_CORRUPTED_DATA, p)"
proof -
  let ?n = "length bs" and ?pad = "block_of (replicate 16 16)"
  have lc: "length c = 16 * (?n + 1)" by (simp add: assms(5) del: map_map)
  have "c = bytes_of (map f bs) @ block_bytes (f ?pad)" by (simp add: assms(5))
  then have pad: "get_block c (16 * ?n) = Inr (f ?pad)"
    by (simp add: get_block_def block_of_bytes del: map_map)
  have bb: "block_bytes ?pad = replicate 16 16" by (intro block_bytes_of) simp
  obtain out where "ecb_loop (decrypt_block de) ?n c 0 buf = Inr out"
    using ecb_loop_exact [of 0 ?n c buf] lc assms(6) by auto
  then show ?thesis
    using assms(1-4) pad by (simp add: padDecrypt_def lc Let_def nat_add_distrib nat_mult_distrib unpad_def bb)
qed

section \<open>The theorems at concrete inputs\<close>

definition blank_rijndael :: rijndael where
  "blank_rijndael = \<lparr>m_state = Invalid, m_mode = ECB, m_direction = Encrypt, m_initVector = replicate 16 0, m_uRounds = 0,
     m_expandedKey = replicate 60 (0, 0, 0, 0)\<rparr>"

lemma blank_ready: "16 \<le> length key \<Longrightarrow> init_ready key Key16Bytes None blank_rijndael"
  by (simp add: init_ready_def blank_rijndael_def key_bytes_def)

theorem cipher_is_aes_witness:
  "\<exists>m'. rijndael_init ECB Encrypt (Some (replicate 16 1)) Key16Bytes None blank_rijndael = Inr (RIJNDAEL_SUCCESS, m') \<and>
    blockEncrypt m' (Some (replicate 16 2)) (128 * int 1) (replicate 16 0) =
      Inr (128 * int 1, block_bytes (aes (replicate 16 1) (block_of (replicate 16 2))))"
  using cipher_is_aes [OF blank_ready, of "replicate 16 1" 1 "replicate 16 2" "replicate 16 0"]
  by (simp add: key_bytes_def blocks_at_def)

text \<open>The example of appendix C.1 of FIPS 197, computed with the tables of the code.\<close>

lemma fips197_example:
  "encrypt 10 (keySched 10 [(0, 1, 2, 3), (4, 5, 6, 7), (8, 9, 10, 11), (12, 13, 14, 15)] (replicate 60 (0, 0, 0, 0)))
     ((0x00, 0x11, 0x22, 0x33), (0x44, 0x55, 0x66, 0x77), (0x88, 0x99, 0xaa, 0xbb), (0xcc, 0xdd, 0xee, 0xff)) =
     ((0x69, 0xc4, 0xe0, 0xd8), (0x6a, 0x7b, 0x04, 0x30), (0xd8, 0xcd, 0xb7, 0x80), (0x70, 0xb4, 0xc5, 0x5a))"
  by code_simp

theorem padded_cbc_roundtrip_witness:
  "\<exists>e de n c p. rijndael_init CBC Encrypt (Some (replicate 16 1)) Key16Bytes None blank_rijndael = Inr (RIJNDAEL_SUCCESS, e) \<and>
    rijndael_init CBC Decrypt (Some (replicate 16 1)) Key16Bytes None blank_rijndael = Inr (RIJNDAEL_SUCCESS, de) \<and>
    padEncrypt e (Some [7, 8, 9]) (int 3) (replicate 19 0) = Inr (n, c) \<and>
    padDecrypt de (Some c) n (replicate 3 0) = Inr (int 3, p) \<and> take 3 p = [7, 8, 9]"
  using padded_cbc_roundtrip [OF blank_ready blank_ready, of "replicate 16 1" "[7, 8, 9]" "replicate 19 0" "replicate 3 0"]
  by (simp add: numeral_3_eq_3)

end
