(* ===== verification/Aggregation_Rule.thy ===== *)
theory Aggregation_Rule
  imports Ipfix_Record Byte_Order
begin

text \<open>
  Aggregation rules (src/src/modules/ipfix/aggregator/Rule.hpp and Rule.cpp): which flow
  records a rule applies to, and what it keeps of them. A pointer to data is the memory from
  there on; a read behind its end is \<open>OutOfBounds\<close>.
\<close>

section \<open>Element numbers\<close>

text \<open>Element ids and enterprise numbers of ipfix_iana.h and ipfix.h.\<close>

abbreviation (input) "IPFIX_TYPEID_octetDeltaCount \<equiv> 1 :: u16"
abbreviation (input) "IPFIX_TYPEID_packetDeltaCount \<equiv> 2 :: u16"
abbreviation (input) "IPFIX_TYPEID_protocolIdentifier \<equiv> 4 :: u16"
abbreviation (input) "IPFIX_TYPEID_tcpControlBits \<equiv> 6 :: u16"
abbreviation (input) "IPFIX_TYPEID_sourceTransportPort \<equiv> 7 :: u16"
abbreviation (input) "IPFIX_TYPEID_sourceIPv4Address \<equiv> 8 :: u16"
abbreviation (input) "IPFIX_TYPEID_sourceIPv4PrefixLength \<equiv> 9 :: u16"
abbreviation (input) "IPFIX_TYPEID_destinationTransportPort \<equiv> 11 :: u16"
abbreviation (input) "IPFIX_TYPEID_destinationIPv4Address \<equiv> 12 :: u16"
abbreviation (input) "IPFIX_TYPEID_destinationIPv4PrefixLength \<equiv> 13 :: u16"
abbreviation (input) "IPFIX_TYPEID_bgpSourceAsNumber \<equiv> 16 :: u16"
abbreviation (input) "IPFIX_TYPEID_bgpDestinationAsNumber \<equiv> 17 :: u16"
abbreviation (input) "IPFIX_TYPEID_flowEndSysUpTime \<equiv> 21 :: u16"
abbreviation (input) "IPFIX_TYPEID_flowStartSysUpTime \<equiv> 22 :: u16"
abbreviation (input) "IPFIX_TYPEID_postOctetDeltaCount \<equiv> 23 :: u16"
abbreviation (input) "IPFIX_TYPEID_postPacketDeltaCount \<equiv> 24 :: u16"
abbreviation (input) "IPFIX_TYPEID_icmpTypeCodeIPv4 \<equiv> 32 :: u16"
abbreviation (input) "IPFIX_TYPEID_octetTotalCount \<equiv> 85 :: u16"
abbreviation (input) "IPFIX_TYPEID_packetTotalCount \<equiv> 86 :: u16"
abbreviation (input) "IPFIX_TYPEID_droppedOctetDeltaCount \<equiv> 132 :: u16"
abbreviation (input) "IPFIX_TYPEID_droppedPacketDeltaCount \<equiv> 133 :: u16"
abbreviation (input) "IPFIX_TYPEID_flowStartSeconds \<equiv> 150 :: u16"
abbreviation (input) "IPFIX_TYPEID_flowEndSeconds \<equiv> 151 :: u16"
abbreviation (input) "IPFIX_TYPEID_flowStartMilliseconds \<equiv> 152 :: u16"
abbreviation (input) "IPFIX_TYPEID_flowEndMilliseconds \<equiv> 153 :: u16"
abbreviation (input) "IPFIX_TYPEID_flowStartMicroseconds \<equiv> 154 :: u16"
abbreviation (input) "IPFIX_TYPEID_flowEndMicroseconds \<equiv> 155 :: u16"
abbreviation (input) "IPFIX_TYPEID_flowStartNanoseconds \<equiv> 156 :: u16"
abbreviation (input) "IPFIX_TYPEID_flowEndNanoseconds \<equiv> 157 :: u16"
abbreviation (input) "IPFIX_TYPEID_basicList \<equiv> 291 :: u16"

abbreviation (input) "IPFIX_ETYPEID_frontPayload \<equiv> 1 :: u16"
abbreviation (input) "IPFIX_ETYPEID_frontPayloadLen \<equiv> 2 :: u16"
abbreviation (input) "IPFIX_ETYPEID_maxPacketGap \<equiv> 3 :: u16"
abbreviation (input) "IPFIX_ETYPEID_frontPayloadPktCount \<equiv> 4 :: u16"
abbreviation (input) "IPFIX_ETYPEID_dpaFlowCount \<equiv> 5 :: u16"
abbreviation (input) "IPFIX_ETYPEID_dpaForcedExport \<equiv> 6 :: u16"
abbreviation (input) "IPFIX_ETYPEID_dpaReverseStart \<equiv> 7 :: u16"
abbreviation (input) "IPFIX_ETYPEID_transportOctetDeltaCount \<equiv> 8 :: u16"
abbreviation (input) "IPFIX_ETYPEID_anonymisationType \<equiv> 9 :: u16"

definition IPFIX_PEN_vermont :: u32 where "IPFIX_PEN_vermont = 0x77700000"

section \<open>Rules\<close>

text \<open>
  The modifier of a field is a value of the enumeration: DISCARD, KEEP, AGGREGATE, or from
  MASK\_START to MASK\_END for a network mask.
\<close>

abbreviation (input) "DISCARD \<equiv> 0 :: nat"
abbreviation (input) "KEEP \<equiv> 1 :: nat"
abbreviation (input) "AGGREGATE \<equiv> 2 :: nat"
abbreviation (input) "MASK_START \<equiv> 126 :: nat"
abbreviation (input) "MASK_END \<equiv> 254 :: nat"

record rule_field =
  rf_type :: ie_info
  rf_pattern :: "bytes option"
  rf_modifier :: nat

record rule =
  rule_id :: u16
  rule_fields :: "rule_field list"
  rule_biflow :: bool
  rule_patternFields :: "rule_field list"

definition getIPv4IMask :: "ie_info \<Rightarrow> bytes \<Rightarrow> byte res" where
  "getIPv4IMask t d =
     (if ie_length t > 4 then rd8 d 4
      else if ie_length t = 4 then Inr 0
      else if ie_length t = 3 then Inr 8
      else if ie_length t = 2 then Inr 16
      else if ie_length t = 1 then Inr 24
      else Inr 32)"

definition addr_octet :: "ie_info \<Rightarrow> bytes \<Rightarrow> nat \<Rightarrow> nat \<Rightarrow> u32 res" where
  "addr_octet t d i n =
     (if unat (ie_length t) > i then res_bind (rd8 d i) (\<lambda>b. Inr (push_bit n (ucast b))) else Inr 0)"

definition getIPv4Address :: "ie_info \<Rightarrow> bytes \<Rightarrow> u32 res" where
  "getIPv4Address t d =
     res_bind (addr_octet t d 0 24) (\<lambda>a.
     res_bind (addr_octet t d 1 16) (\<lambda>b.
     res_bind (addr_octet t d 2 8) (\<lambda>c.
     res_bind (addr_octet t d 3 0) (\<lambda>e.
     Inr (a OR b OR c OR e)))))"

text \<open>Whether one of \<open>k\<close> port ranges from position \<open>j\<close> of the pattern on holds the ports from \<open>lo\<close> to \<open>hi\<close>.\<close>

fun range_found :: "nat \<Rightarrow> bytes \<Rightarrow> nat \<Rightarrow> u16 \<Rightarrow> u16 \<Rightarrow> bool res" where
  "range_found 0 pat j lo hi = Inr False"
| "range_found (Suc k) pat j lo hi =
     res_bind (rd16 pat j) (\<lambda>pports.
     res_bind (rd16 pat (j + 2)) (\<lambda>pporte.
     if lo \<ge> pports \<and> hi \<le> pporte then Inr True else range_found k pat (j + 4) lo hi))"

fun ranges_avoid :: "nat \<Rightarrow> bytes \<Rightarrow> nat \<Rightarrow> bytes \<Rightarrow> bool res" where
  "ranges_avoid 0 d i pat = Inr True"
| "ranges_avoid (Suc k) d i pat =
     res_bind (rd16 d i) (\<lambda>dports.
     res_bind (rd16 d (i + 2)) (\<lambda>dporte.
     res_bind (rd16 pat 0) (\<lambda>pport.
     if dports < pport \<and> dporte > pport then Inr False else ranges_avoid k d (i + 4) pat)))"

fun ranges_found :: "nat \<Rightarrow> bytes \<Rightarrow> nat \<Rightarrow> nat \<Rightarrow> bytes \<Rightarrow> bool res" where
  "ranges_found 0 d i n pat = Inr True"
| "ranges_found (Suc k) d i n pat =
     res_bind (rd16 d i) (\<lambda>dports.
     res_bind (rd16 d (i + 2)) (\<lambda>dporte.
     res_bind (range_found n pat 0 dports dporte) (\<lambda>foundMatch.
     if \<not> foundMatch then Inr False else ranges_found k d (i + 4) n pat)))"

definition matchesPortPattern :: "ie_info \<Rightarrow> bytes \<Rightarrow> ie_info \<Rightarrow> bytes \<Rightarrow> bool res" where
  "matchesPortPattern dt d pt pat =
     (let dl = unat (ie_length dt); pl = unat (ie_length pt) in
      if dl = 2 \<and> pl = 2
      then res_bind (rd8 d 0) (\<lambda>d0. res_bind (rd8 pat 0) (\<lambda>p0.
             if d0 \<noteq> p0 then Inr False
             else res_bind (rd8 d 1) (\<lambda>d1. res_bind (rd8 pat 1) (\<lambda>p1. Inr (d1 = p1)))))
      else if dl = 2 \<and> pl mod 4 = 0
      then res_bind (rd16 d 0) (\<lambda>dport. range_found (pl div 4) pat 0 dport dport)
      else if dl mod 4 = 0 \<and> pl = 2 then ranges_avoid (dl div 4) d 0 pat
      else if dl mod 4 = 0 \<and> pl mod 4 = 0 then ranges_found (dl div 4) d 0 (pl div 4) pat
      else Inr False)"

text \<open>A shift of a \<open>uint32_t\<close>; C++ leaves a shift by 32 and more undefined.\<close>

definition shr32 :: "u32 \<Rightarrow> nat \<Rightarrow> u32 res" where
  "shr32 a n = (if n < 32 then Inr (drop_bit n a) else Inl Undefined)"

definition matchesIPv4Pattern :: "ie_info \<Rightarrow> bytes \<Rightarrow> ie_info \<Rightarrow> bytes \<Rightarrow> bool res" where
  "matchesIPv4Pattern dt d pt pat =
     res_bind (getIPv4IMask dt d) (\<lambda>dmaski.
     res_bind (getIPv4IMask pt pat) (\<lambda>pmaski.
     if dmaski > pmaski then Inr False
     else
       res_bind (getIPv4Address dt d) (\<lambda>daddr.
       res_bind (getIPv4Address pt pat) (\<lambda>paddr.
       res_bind (shr32 daddr (unat pmaski)) (\<lambda>a.
       res_bind (shr32 paddr (unat pmaski)) (\<lambda>b.
       Inr (a = b)))))))"

definition matchesRawPattern :: "ie_info \<Rightarrow> bytes \<Rightarrow> ie_info \<Rightarrow> bytes \<Rightarrow> bool res" where
  "matchesRawPattern dt d pt pat =
     (if ie_length dt \<noteq> ie_length pt then Inr False
      else res_bind (peek d 0 (unat (ie_length dt))) (\<lambda>a.
           res_bind (peek pat 0 (unat (ie_length dt))) (\<lambda>b. Inr (a = b))))"

definition checkMask :: "field_info option \<Rightarrow> bytes \<Rightarrow> ie_info \<Rightarrow> bytes \<Rightarrow> bool res" where
  "checkMask prefixInfo prefixData rt pat =
     (case prefixInfo of
        None \<Rightarrow> Inr True
      | Some fi \<Rightarrow>
          res_bind (getIPv4IMask rt pat) (\<lambda>imask.
          res_bind (rd8 prefixData (unat (offset fi))) (\<lambda>recordPrefix.
          Inr (recordPrefix \<ge> 32 - imask))))"

definition matchesPattern :: "ie_info \<Rightarrow> bytes \<Rightarrow> ie_info \<Rightarrow> bytes option \<Rightarrow> bool res" where
  "matchesPattern dt d pt pattern =
     (case pattern of
        None \<Rightarrow> Inr True
      | Some pat \<Rightarrow>
          (if ie_id dt \<noteq> ie_id pt \<or> enterprise dt \<noteq> enterprise pt then Inr False
           else if ie_id pt = IPFIX_TYPEID_sourceIPv4Address \<or> ie_id pt = IPFIX_TYPEID_destinationIPv4Address
           then matchesIPv4Pattern dt d pt pat
           else if ie_id pt = IPFIX_TYPEID_sourceTransportPort \<or> ie_id pt = IPFIX_TYPEID_destinationTransportPort
           then matchesPortPattern dt d pt pat
           else matchesRawPattern dt d pt pat))"

text \<open>
  One field of the rule against a record with template \<open>ti\<close> and data \<open>d\<close>: the body
  of the loop of \<open>dataRecordMatches\<close>, \<open>False\<close> where it returns 0.
\<close>

definition mask_field :: "rule_field \<Rightarrow> u16 option" where
  "mask_field rf =
     (if enterprise (rf_type rf) = 0 \<and> ie_length (rf_type rf) = 5
      then (if ie_id (rf_type rf) = IPFIX_TYPEID_sourceIPv4Address
            then Some IPFIX_TYPEID_sourceIPv4PrefixLength
            else if ie_id (rf_type rf) = IPFIX_TYPEID_destinationIPv4Address
            then Some IPFIX_TYPEID_destinationIPv4PrefixLength else None)
      else None)"

definition field_matches :: "ie_table \<Rightarrow> rule \<Rightarrow> template_info \<Rightarrow> bytes \<Rightarrow> rule_field \<Rightarrow> bool res" where
  "field_matches tbl r ti d rf =
     (let t = rf_type rf in
      if isReverseField t then Inr True
      else
        (case rf_pattern rf of
           Some pat \<Rightarrow>
             (case getFieldInfo ti (ie_id t) (enterprise t) of
                Some fi \<Rightarrow>
                  res_bind (matchesPattern (ftype fi) (drop (unat (offset fi)) d) t (Some pat)) (\<lambda>ok.
                  if \<not> ok then Inr False
                  else (case mask_field rf of
                          Some i \<Rightarrow> checkMask (getFieldInfo ti i 0) d t pat
                        | None \<Rightarrow> Inr True))
              | None \<Rightarrow> Inr False)
         | None \<Rightarrow>
             (if rf_modifier rf = DISCARD then Inr True
              else if getFieldInfo ti (ie_id t) (enterprise t) \<noteq> None then Inr True
              else if rule_biflow r \<and> existsReverseDirection tbl t
              then res_bind (getReverseDirection tbl t) (\<lambda>revie.
                   if getFieldInfo ti (ie_id revie) (enterprise revie) \<noteq> None then Inr True
                   else Inr (ie_id t = IPFIX_ETYPEID_anonymisationType \<and> enterprise t = IPFIX_PEN_vermont))
              else Inr (ie_id t = IPFIX_ETYPEID_anonymisationType \<and> enterprise t = IPFIX_PEN_vermont))))"

fun fields_match :: "ie_table \<Rightarrow> rule \<Rightarrow> template_info \<Rightarrow> bytes \<Rightarrow> rule_field list \<Rightarrow> bool res" where
  "fields_match tbl r ti d [] = Inr True"
| "fields_match tbl r ti d (rf # rfs) =
     res_bind (field_matches tbl r ti d rf) (\<lambda>ok.
     if \<not> ok then Inr False else fields_match tbl r ti d rfs)"

definition dataRecordMatches :: "ie_table \<Rightarrow> rule \<Rightarrow> template_info \<Rightarrow> bytes \<Rightarrow> bool res" where
  "dataRecordMatches tbl r ti d = fields_match tbl r ti d (rule_fields r)"

text \<open>Comparison of rules; \<open>memcmp\<close> reads the length of the first field's type.\<close>

definition rule_field_eq :: "rule_field \<Rightarrow> rule_field \<Rightarrow> bool res" where
  "rule_field_eq rhs lhs =
     (if rf_modifier rhs \<noteq> rf_modifier lhs then Inr False
      else if \<not> ie_eq (rf_type rhs) (rf_type lhs) then Inr False
      else (case (rf_pattern rhs, rf_pattern lhs) of
              (None, None) \<Rightarrow> Inr True
            | (Some a, Some b) \<Rightarrow>
                res_bind (peek a 0 (unat (ie_length (rf_type rhs)))) (\<lambda>x.
                res_bind (peek b 0 (unat (ie_length (rf_type rhs)))) (\<lambda>y. Inr (x = y)))
            | _ \<Rightarrow> Inr False))"

fun rule_fields_eq :: "rule_field list \<Rightarrow> rule_field list \<Rightarrow> bool res" where
  "rule_fields_eq (a # as) (b # bs) =
     res_bind (rule_field_eq a b) (\<lambda>ok. if \<not> ok then Inr False else rule_fields_eq as bs)"
| "rule_fields_eq _ _ = Inr True"

definition rule_eq :: "rule \<Rightarrow> rule \<Rightarrow> bool res" where
  "rule_eq rhs lhs =
     (if rule_id rhs \<noteq> rule_id lhs then Inr False
      else if length (rule_fields rhs) \<noteq> length (rule_fields lhs) then Inr False
      else if rule_biflow rhs \<noteq> rule_biflow lhs then Inr False
      else if length (rule_patternFields rhs) \<noteq> length (rule_patternFields lhs) then Inr False
      else res_bind (rule_fields_eq (rule_fields rhs) (rule_fields lhs)) (\<lambda>ok.
           if \<not> ok then Inr False
           else rule_fields_eq (rule_patternFields rhs) (rule_patternFields lhs)))"

end
