(* ===== verification/Bucket_List.thy ===== *)
theory Bucket_List
  imports Vermont_Prelude
begin

text \<open>
  Doubly linked lists on a heap, as the flow hashtables use them
  (src/src/modules/ipfix/aggregator/HashtableBuckets.h): the export list of
  BucketListElement nodes with its operations push and remove, and the shape predicate that
  the spill chains of the hashtable share with it.

  A heap maps addresses to nodes; freed and never allocated addresses have none. A null
  pointer is \<open>None\<close>. Following a pointer to a missing node is the fault
  \<open>OutOfBounds\<close>.
\<close>

section \<open>Chains\<close>

text \<open>
  \<open>chain nx pv H q p xs e\<close>: from pointer \<open>p\<close>, the nodes at \<open>xs\<close> are
  linked by \<open>nx\<close>, the last one points to \<open>e\<close>, every node points back to the one
  before it and the first one to \<open>q\<close>.
\<close>

fun chain :: "('c \<Rightarrow> nat option) \<Rightarrow> ('c \<Rightarrow> nat option) \<Rightarrow> (nat \<Rightarrow> 'c option) \<Rightarrow>
    nat option \<Rightarrow> nat option \<Rightarrow> nat list \<Rightarrow> nat option \<Rightarrow> bool" where
  "chain nx pv H q p [] e \<longleftrightarrow> p = e"
| "chain nx pv H q p (x # xs) e \<longleftrightarrow>
     p = Some x \<and>
     (case H x of None \<Rightarrow> False | Some c \<Rightarrow> pv c = q \<and> chain nx pv H (Some x) (nx c) xs e)"

definition last_ptr :: "nat option \<Rightarrow> nat list \<Rightarrow> nat option" where
  "last_ptr q xs = (if xs = [] then q else Some (last xs))"

definition first_ptr :: "nat list \<Rightarrow> nat option \<Rightarrow> nat option" where
  "first_ptr xs e = (case xs of [] \<Rightarrow> e | x # _ \<Rightarrow> Some x)"

lemma last_ptr_simps [simp]:
  "last_ptr q [] = q" "last_ptr q (xs @ [x]) = Some x"
  by (simp_all add: last_ptr_def)

lemma last_ptr_Cons [simp]: "last_ptr q (x # xs) = last_ptr (Some x) xs"
  by (simp add: last_ptr_def)

lemma last_ptr_append [simp]: "last_ptr q (xs @ ys) = last_ptr (last_ptr q xs) ys"
  by (simp add: last_ptr_def)

lemma first_ptr_simps [simp]: "first_ptr [] e = e" "first_ptr (x # xs) e = Some x"
  by (simp_all add: first_ptr_def)

lemma chain_first: "chain nx pv H q p xs e \<Longrightarrow> p = first_ptr xs e"
  by (cases xs) simp_all

lemma chain_append:
  "chain nx pv H q p (xs @ ys) e \<longleftrightarrow>
     chain nx pv H q p xs (first_ptr ys e) \<and>
     chain nx pv H (last_ptr q xs) (first_ptr ys e) ys e"
proof (induction xs arbitrary: q p)
  case Nil
  then show ?case by (cases ys) auto
next
  case (Cons x xs)
  then show ?case by (auto split: option.splits)
qed

lemma chain_cong:
  "(\<And>x. x \<in> set xs \<Longrightarrow> map_option (\<lambda>c. (nx c, pv c)) (H x) = map_option (\<lambda>c. (nx c, pv c)) (H' x)) \<Longrightarrow>
   chain nx pv H q p xs e = chain nx pv H' q p xs e"
proof (induction xs arbitrary: q p)
  case (Cons x xs)
  have "map_option (\<lambda>c. (nx c, pv c)) (H x) = map_option (\<lambda>c. (nx c, pv c)) (H' x)"
    using Cons.prems by simp
  moreover have "chain nx pv H q p xs e = chain nx pv H' q p xs e" for q p
    using Cons.IH Cons.prems by simp
  ultimately show ?case by (auto split: option.splits)
qed simp

lemma chain_upd [simp]: "x \<notin> set xs \<Longrightarrow> chain nx pv (H(x := c)) q p xs e = chain nx pv H q p xs e"
  by (rule chain_cong) auto

lemma chain_alloc: "chain nx pv H q p xs e \<Longrightarrow> x \<in> set xs \<Longrightarrow> \<exists>c. H x = Some c"
  by (induction xs arbitrary: q p) (auto split: option.splits)

lemma chain_at:
  assumes "chain nx pv H q p (xs @ x # ys) e"
  obtains c where "H x = Some c" and "pv c = last_ptr q xs" and "nx c = first_ptr ys e"
proof -
  have "chain nx pv H (last_ptr q xs) (Some x) (x # ys) e"
    using assms by (simp add: chain_append)
  then obtain c where c: "H x = Some c" "pv c = last_ptr q xs" "chain nx pv H (Some x) (nx c) ys e"
    by (auto split: option.splits)
  then show ?thesis using that [OF c(1,2)] chain_first [OF c(3)] by simp
qed

text \<open>
  Structures with a pair of link members. The two structures of the hashtable that have
  them, HashtableBucket and BucketListElement, are instances.
\<close>

locale linked =
  fixes nx pv :: "'c \<Rightarrow> nat option"
    and snx spv :: "nat option \<Rightarrow> 'c \<Rightarrow> 'c"
  assumes nx_snx: "nx (snx v c) = v" and pv_snx: "pv (snx v c) = pv c"
    and nx_spv: "nx (spv v c) = nx c" and pv_spv: "pv (spv v c) = v"
begin

lemmas link_laws = nx_snx pv_snx nx_spv pv_spv

text \<open>The next pointer of the last node of a segment may be redirected.\<close>

lemma redirect_last:
  assumes "chain nx pv H q p (xs @ [l]) e" and "l \<notin> set xs" and "H l = Some c"
  shows "chain nx pv (H(l \<mapsto> snx e' c)) q p (xs @ [l]) e'"
  using assms by (simp add: chain_append link_laws)

text \<open>And the back pointer of the first node of one.\<close>

lemma redirect_first:
  assumes "chain nx pv H q p (f # xs) e" and "f \<notin> set xs" and "H f = Some c"
  shows "chain nx pv (H(f \<mapsto> spv q' c)) q' p (f # xs) e"
  using assms by (simp add: link_laws)

lemma unlink_next:
  assumes ch: "chain nx pv H None p (xs @ x # ys) None" and d: "distinct (xs @ x # ys)"
    and l: "last_ptr None xs = Some l" and c: "H l = Some c"
  shows "chain nx pv (H(l \<mapsto> snx (first_ptr ys None) c)) None p xs (first_ptr ys None)"
proof -
  obtain zs where xs: "xs = zs @ [l]"
    using l by (cases xs rule: rev_cases) auto
  have "chain nx pv H None p xs (Some x)" using ch by (simp add: chain_append)
  then show ?thesis
    unfolding xs using d xs c by (intro redirect_last [where e = "Some x"]) auto
qed

lemma unlink_prev:
  assumes ch: "chain nx pv H None p (xs @ x # ys) None" and d: "distinct (xs @ x # ys)"
    and n: "ys = n # zs" and c: "H n = Some c"
  shows "chain nx pv (H(n \<mapsto> spv (last_ptr None xs) c)) (last_ptr None xs) (Some n) ys None"
proof -
  have "chain nx pv H (Some x) (Some n) ys None"
    using ch n by (auto simp: chain_append split: option.splits)
  then show ?thesis
    unfolding n using d n c by (intro redirect_first [where q = "Some x"]) auto
qed

text \<open>
  Taking a node out: its neighbours are linked to each other. \<open>H'\<close> is the heap after
  the one or two assignments.
\<close>

lemma chain_unlink:
  assumes ch: "chain nx pv H None p (xs @ x # ys) None" and d: "distinct (xs @ x # ys)"
    and H1: "H1 = (case last_ptr None xs of None \<Rightarrow> H
                   | Some l \<Rightarrow> H(l \<mapsto> snx (first_ptr ys None) (the (H l))))"
    and H2: "H2 = (case first_ptr ys None of None \<Rightarrow> H1
                   | Some n \<Rightarrow> H1(n \<mapsto> spv (last_ptr None xs) (the (H1 n))))"
  shows "chain nx pv H2 None (if xs = [] then first_ptr ys None else p) (xs @ ys) None"
proof -
  have allocl: "\<exists>c. H l = Some c" if "last_ptr None xs = Some l" for l
    using chain_alloc [OF ch] that by (auto simp: last_ptr_def split: if_splits)
  have front: "chain nx pv H1 None (if xs = [] then first_ptr ys None else p) xs (first_ptr ys None)"
  proof (cases "last_ptr None xs")
    case None
    then show ?thesis by (auto simp: last_ptr_def split: if_splits)
  next
    case (Some l)
    then have "xs \<noteq> []" by auto
    then show ?thesis
      using unlink_next [OF ch d Some] allocl [OF Some] by (auto simp: H1 Some)
  qed
  obtain c0 where "chain nx pv H (Some x) (nx c0) ys None"
    using ch by (auto simp: chain_append split: option.splits)
  then have "chain nx pv H (Some x) (first_ptr ys None) ys None"
    using chain_first by metis
  moreover have "l \<notin> set ys" if "last_ptr None xs = Some l" for l
    using that d by (auto simp: last_ptr_def split: if_splits) (metis IntI empty_iff last_in_set)
  ultimately have rest: "chain nx pv H1 (Some x) (first_ptr ys None) ys None"
    by (auto simp: H1 split: option.split)
  show ?thesis
  proof (cases ys)
    case Nil
    then show ?thesis using front by (simp add: H2 chain_append)
  next
    case (Cons n zs)
    then obtain c where c: "H1 n = Some c" and r: "pv c = Some x" "chain nx pv H1 (Some n) (nx c) zs None"
      using rest by (auto split: option.splits)
    have "n \<notin> set xs" "n \<notin> set zs" using d Cons by auto
    then have "chain nx pv H2 None (if xs = [] then Some n else p) xs (Some n)"
      and "chain nx pv H2 (last_ptr None xs) (Some n) ys None"
      using front r c by (auto simp: H2 Cons link_laws)
    then show ?thesis by (auto simp: chain_append Cons)
  qed
qed

text \<open>Appending a node at the end, and putting one in front.\<close>

lemma chain_snoc:
  assumes "chain nx pv H None p (xs @ [l]) None" and "distinct (xs @ [l])" and "n \<notin> set (xs @ [l])"
    and "H l = Some c" and "pv d = Some l" and "nx d = None"
  shows "chain nx pv (H(l \<mapsto> snx (Some n) c, n \<mapsto> d)) None p (xs @ [l, n]) None"
proof -
  have "chain nx pv (H(l \<mapsto> snx (Some n) c)) None p (xs @ [l]) (Some n)"
    using assms by (intro redirect_last) auto
  then show ?thesis using assms by (auto simp: chain_append)
qed

lemma chain_cons:
  assumes "chain nx pv H None p xs None" and "distinct xs" and "n \<notin> set xs"
    and "pv d = None" and "nx d = p"
    and "H' = (case p of None \<Rightarrow> H(n \<mapsto> d) | Some f \<Rightarrow> H(n \<mapsto> d, f \<mapsto> spv (Some n) (the (H f))))"
  shows "chain nx pv H' None (Some n) (n # xs) None"
proof (cases xs)
  case Nil
  then show ?thesis using assms by simp
next
  case (Cons f ys)
  then show ?thesis using assms by (auto simp: link_laws split: option.splits)
qed

end

section \<open>BucketListElement and HashtableBucketList\<close>

text \<open>The bucket of a node is the address of a HashtableBucket.\<close>

record list_element =
  le_next :: "nat option"
  le_prev :: "nat option"
  le_bucket :: "nat option"

record bucket_list =
  bl_head :: "nat option"
  bl_tail :: "nat option"
  bl_isEmpty :: bool
  bl_nodes :: "nat \<Rightarrow> list_element option"

text \<open>The constructors; \<open>node->reset()\<close> leaves the same node.\<close>

definition BucketListElement_reset :: list_element where
  "BucketListElement_reset = \<lparr>le_next = None, le_prev = None, le_bucket = None\<rparr>"

definition HashtableBucketList :: bucket_list where
  "HashtableBucketList =
     \<lparr>bl_head = None, bl_tail = None, bl_isEmpty = True, bl_nodes = Map.empty\<rparr>"

text \<open>Assigning a member of the node a pointer points to.\<close>

definition node_upd :: "nat option \<Rightarrow> (list_element \<Rightarrow> list_element) \<Rightarrow> bucket_list \<Rightarrow> bucket_list res" where
  "node_upd p f l =
     (case p of
        None \<Rightarrow> Inl OutOfBounds
      | Some n \<Rightarrow>
          (case bl_nodes l n of
             None \<Rightarrow> Inl OutOfBounds
           | Some c \<Rightarrow> Inr (l\<lparr>bl_nodes := (bl_nodes l)(n \<mapsto> f c)\<rparr>)))"

definition bl_push :: "nat \<Rightarrow> bucket_list \<Rightarrow> bucket_list res" where
  "bl_push node l =
     (if bl_isEmpty l
      then node_upd (Some node) (\<lambda>c. c\<lparr>le_prev := None, le_next := None\<rparr>)
             (l\<lparr>bl_isEmpty := False, bl_head := Some node, bl_tail := Some node\<rparr>)
      else
        res_bind (node_upd (bl_tail l) (\<lambda>c. c\<lparr>le_next := Some node\<rparr>) l) (\<lambda>l1.
        res_bind (node_upd (Some node) (\<lambda>c. c\<lparr>le_prev := bl_tail l, le_next := None\<rparr>) l1) (\<lambda>l2.
        Inr (l2\<lparr>bl_tail := Some node\<rparr>))))"

definition bl_remove :: "nat \<Rightarrow> bucket_list \<Rightarrow> bucket_list res" where
  "bl_remove node l =
     (if bl_isEmpty l then Inl (Exception ''List is empty: can't remove Node'')
      else
        (case bl_nodes l node of
           None \<Rightarrow> Inl OutOfBounds
         | Some c \<Rightarrow>
             (if le_prev c = None
              then (if le_next c = None
                    then Inr (l\<lparr>bl_isEmpty := True, bl_head := None, bl_tail := None\<rparr>)
                    else res_bind (node_upd (le_next c) (\<lambda>c. c\<lparr>le_prev := None\<rparr>) l) (\<lambda>l1.
                         Inr (l1\<lparr>bl_head := le_next c\<rparr>)))
              else if le_next c = None
              then res_bind (node_upd (le_prev c) (\<lambda>c. c\<lparr>le_next := None\<rparr>) l) (\<lambda>l1.
                   Inr (l1\<lparr>bl_tail := le_prev c\<rparr>))
              else res_bind (node_upd (le_prev c) (\<lambda>d. d\<lparr>le_next := le_next c\<rparr>) l) (\<lambda>l1.
                   node_upd (le_next c) (\<lambda>d. d\<lparr>le_prev := le_prev c\<rparr>) l1))))"

interpretation node_links: linked le_next le_prev
    "\<lambda>v c. c\<lparr>le_next := v\<rparr>" "\<lambda>v c. c\<lparr>le_prev := v\<rparr>"
  by unfold_locales simp_all

section \<open>The list as a sequence of nodes\<close>

definition bl_inv :: "bucket_list \<Rightarrow> nat list \<Rightarrow> bool" where
  "bl_inv l xs \<longleftrightarrow>
     chain le_next le_prev (bl_nodes l) None (bl_head l) xs None \<and> distinct xs \<and>
     bl_tail l = last_ptr None xs \<and> (bl_isEmpty l \<longleftrightarrow> xs = [])"

text \<open>What the operations leave alone: the nodes allocated and the buckets they stand for.\<close>

definition same_nodes :: "bucket_list \<Rightarrow> bucket_list \<Rightarrow> bool" where
  "same_nodes l l' \<longleftrightarrow>
     (\<forall>n. map_option le_bucket (bl_nodes l' n) = map_option le_bucket (bl_nodes l n))"

lemma same_nodes_refl [simp]: "same_nodes l l"
  by (simp add: same_nodes_def)

lemma same_nodes_trans: "same_nodes a b \<Longrightarrow> same_nodes b c \<Longrightarrow> same_nodes a c"
  by (simp add: same_nodes_def)

lemma HashtableBucketList_inv: "bl_inv HashtableBucketList []"
  by (simp add: bl_inv_def HashtableBucketList_def)

lemma node_upd_ok:
  "bl_nodes l n = Some c \<Longrightarrow> node_upd (Some n) f l = Inr (l\<lparr>bl_nodes := (bl_nodes l)(n \<mapsto> f c)\<rparr>)"
  by (simp add: node_upd_def)

lemma bl_push_refines:
  assumes inv: "bl_inv l xs" and n: "n \<notin> set xs" and c: "bl_nodes l n = Some c"
  shows "\<exists>l'. bl_push n l = Inr l' \<and> bl_inv l' (xs @ [n]) \<and> same_nodes l l'"
proof (cases xs rule: rev_cases)
  case Nil
  then show ?thesis
    using inv c by (auto simp: bl_push_def bl_inv_def node_upd_ok same_nodes_def)
next
  case (snoc zs t)
  have ch: "chain le_next le_prev (bl_nodes l) None (bl_head l) (zs @ [t]) None"
    and d: "distinct (zs @ [t])" and tail: "bl_tail l = Some t" and ne: "\<not> bl_isEmpty l"
    using inv snoc by (auto simp: bl_inv_def)
  obtain ct where ct: "bl_nodes l t = Some ct"
    using chain_alloc [OF ch] by auto
  have nt: "n \<noteq> t" using n snoc by auto
  have "chain le_next le_prev
      ((bl_nodes l)(t \<mapsto> ct\<lparr>le_next := Some n\<rparr>, n \<mapsto> c\<lparr>le_prev := Some t, le_next := None\<rparr>))
      None (bl_head l) (zs @ [t, n]) None"
    using n snoc by (intro node_links.chain_snoc [OF ch d _ ct]) simp_all
  then show ?thesis
    using d n snoc ct c nt
    by (auto simp: bl_push_def ne tail node_upd_ok bl_inv_def same_nodes_def)
qed

lemma bl_remove_refines:
  assumes inv: "bl_inv l (xs @ n # ys)"
  shows "\<exists>l'. bl_remove n l = Inr l' \<and> bl_inv l' (xs @ ys) \<and> same_nodes l l' \<and> bl_nodes l' n = bl_nodes l n"
proof -
  have ch: "chain le_next le_prev (bl_nodes l) None (bl_head l) (xs @ n # ys) None"
    and d: "distinct (xs @ n # ys)" and tail: "bl_tail l = last_ptr None (xs @ n # ys)"
    and ne: "\<not> bl_isEmpty l"
    using inv by (auto simp: bl_inv_def)
  obtain c where c: "bl_nodes l n = Some c" "le_prev c = last_ptr None xs" "le_next c = first_ptr ys None"
    by (rule chain_at [OF ch])
  note unl = node_links.chain_unlink [OF ch d refl refl]
  have d': "distinct (xs @ ys)" using d by auto
  show ?thesis
  proof (cases xs rule: rev_cases)
    case xs: Nil
    show ?thesis
    proof (cases ys)
      case Nil
      then show ?thesis using xs c by (auto simp: bl_remove_def ne bl_inv_def same_nodes_def)
    next
      case (Cons f zs)
      then obtain cf where "bl_nodes l f = Some cf" using chain_alloc [OF ch, of f] by auto
      then show ?thesis
        using xs c Cons unl d tail
        by (auto simp: bl_remove_def ne bl_inv_def same_nodes_def node_upd_ok)
    qed
  next
    case xs: (snoc zs t)
    then obtain ct where ct: "bl_nodes l t = Some ct" using chain_alloc [OF ch, of t] by auto
    show ?thesis
    proof (cases ys)
      case Nil
      then show ?thesis
        using xs c unl d tail ct
        by (auto simp: bl_remove_def ne bl_inv_def same_nodes_def node_upd_ok)
    next
      case (Cons f us)
      then obtain cf where "bl_nodes l f = Some cf" using chain_alloc [OF ch, of f] by auto
      then show ?thesis
        using xs c Cons unl d tail ct
        by (auto simp: bl_remove_def ne bl_inv_def same_nodes_def node_upd_ok last_ptr_def)
    qed
  qed
qed

end
