(* ===== verification/Base_Hashtable.thy ===== *)
theory Base_Hashtable
  imports Aggregation_Rule Bucket_List Crc
begin

text \<open>
  The hashtable of flows that the aggregators share
  (src/src/modules/ipfix/aggregator/BaseHashtable.cpp): the template of the aggregated flows
  with the layout of a flow in memory, the reverse mappings for biflows, buckets in spill
  chains, the export list and the export of expired flows.

  Buckets live on a heap; \<open>new\<close> takes the first address never used. The clock is the
  argument \<open>now\<close> of the operations, the records sent to the next module are collected in
  \<open>ht_sent\<close>, and \<open>tbl\<close> is the table of Information Elements.
\<close>

section \<open>State\<close>

record bucket =
  inactiveExpireTime :: int
  activeExpireTime :: int
  b_data :: bytes
  forceExpiry :: bool
  inTable :: bool
  b_prev :: "nat option"
  b_next :: "nat option"
  b_observationDomainID :: u32
  listNode :: "nat option"
  b_hash :: u32

record hashtable =
  dataTemplate :: template_info
  privDataOffset :: "nat list"
  fieldModifier :: "nat list"
  fieldLength :: u16
  privDataLength :: u16
  biflowAggregation :: bool
  revKeyMapper :: "u32 list"
  flowReverseMapper :: "nat list"
  htableSize :: u32
  inactiveTimeout :: u16
  activeTimeout :: u16
  buckets :: "nat option list"
  bheap :: "nat \<Rightarrow> bucket option"
  exportList :: bucket_list
  nextAddr :: nat
  aggInProgress :: bool
  ht_sourceID :: source_id
  statRecordsReceived :: u32
  statRecordsSent :: u32
  statTotalEntries :: u32
  statEmptyBuckets :: u32
  statExportedBuckets :: u32
  statLastExpBuckets :: u32
  statMultiEntries :: u32
  ht_sent :: "ipfix_record list"

section \<open>The template of the aggregated flows\<close>

definition isToBeAggregated :: "ie_info \<Rightarrow> bool" where
  "isToBeAggregated t =
     (if enterprise t = 0
      then ie_id t \<in> set
             [IPFIX_TYPEID_flowStartSysUpTime, IPFIX_TYPEID_flowStartSeconds,
              IPFIX_TYPEID_flowStartMilliseconds, IPFIX_TYPEID_flowStartMicroseconds,
              IPFIX_TYPEID_flowStartNanoseconds, IPFIX_TYPEID_flowEndSysUpTime,
              IPFIX_TYPEID_flowEndSeconds, IPFIX_TYPEID_flowEndMilliseconds,
              IPFIX_TYPEID_flowEndMicroseconds, IPFIX_TYPEID_flowEndNanoseconds,
              IPFIX_TYPEID_octetTotalCount, IPFIX_TYPEID_octetDeltaCount,
              IPFIX_TYPEID_postOctetDeltaCount, IPFIX_TYPEID_packetDeltaCount,
              IPFIX_TYPEID_packetTotalCount, IPFIX_TYPEID_postPacketDeltaCount,
              IPFIX_TYPEID_droppedOctetDeltaCount, IPFIX_TYPEID_droppedPacketDeltaCount,
              IPFIX_TYPEID_tcpControlBits, IPFIX_TYPEID_basicList]
      else if enterprise t = IPFIX_PEN_reverse
      then ie_id t \<in> set
             [IPFIX_TYPEID_flowStartSeconds, IPFIX_TYPEID_flowStartMilliseconds,
              IPFIX_TYPEID_flowStartNanoseconds, IPFIX_TYPEID_flowEndSeconds,
              IPFIX_TYPEID_flowEndMilliseconds, IPFIX_TYPEID_flowEndNanoseconds,
              IPFIX_TYPEID_octetDeltaCount, IPFIX_TYPEID_octetTotalCount,
              IPFIX_TYPEID_packetDeltaCount, IPFIX_TYPEID_packetTotalCount,
              IPFIX_TYPEID_tcpControlBits]
      else if enterprise t = IPFIX_PEN_vermont \<or> enterprise t = IPFIX_PEN_vermont OR IPFIX_PEN_reverse
      then ie_id t \<in> set
             [IPFIX_ETYPEID_frontPayload, IPFIX_ETYPEID_frontPayloadLen,
              IPFIX_ETYPEID_frontPayloadPktCount, IPFIX_ETYPEID_maxPacketGap,
              IPFIX_ETYPEID_dpaForcedExport, IPFIX_ETYPEID_dpaFlowCount,
              IPFIX_ETYPEID_dpaReverseStart, IPFIX_ETYPEID_transportOctetDeltaCount]
      else False)"

text \<open>The sizes of PayloadPrivateData and DpaPrivateData are 12 and 3.\<close>

definition getPrivateDataLength :: "ie_info \<Rightarrow> nat" where
  "getPrivateDataLength t =
     (if enterprise t AND IPFIX_PEN_vermont \<noteq> 0
      then (if ie_id t = IPFIX_ETYPEID_frontPayload \<or> ie_id t = IPFIX_ETYPEID_transportOctetDeltaCount
            then 12
            else if ie_id t = IPFIX_ETYPEID_dpaForcedExport then 3
            else if ie_id t = IPFIX_ETYPEID_maxPacketGap then 8
            else 0)
      else 0)"

text \<open>
  The first loop of \<open>createDataTemplate\<close>: the fields that are kept, one behind the other;
  \<open>fl\<close> is the length so far. A basicList takes the place of a pointer.
\<close>

fun layout_fields :: "rule_field list \<Rightarrow> u16 \<Rightarrow> field_info list \<times> nat list \<times> u16" where
  "layout_fields [] fl = ([], [], fl)"
| "layout_fields (rf # rfs) fl =
     (if rf_modifier rf = DISCARD then layout_fields rfs fl
      else
        (let t = rf_type rf;
             isVar = (ie_length t = 65535);
             fl1 = (if \<not> isVar then fl + ie_length t
                    else if ie_id t = IPFIX_TYPEID_basicList \<and> enterprise t = 0 then fl + 8
                    else fl)
         in (case layout_fields rfs fl1 of
               (fis, ms, fl2) \<Rightarrow>
                 (\<lparr>ftype = t, offset = ucast fl, isVariableLength = isVar\<rparr> # fis,
                  rf_modifier rf # ms, fl2))))"

text \<open>
  The second loop: private data behind the fields. The results are the private offsets, the
  length of the private data, and the offsets that belong to frontPayload in both directions.
\<close>

fun private_offsets :: "field_info list \<Rightarrow> u16 \<Rightarrow> u16 \<Rightarrow> nat \<Rightarrow> nat \<Rightarrow> nat list \<times> u16 \<times> nat \<times> nat" where
  "private_offsets [] fl pl fp rfp = ([], pl, fp, rfp)"
| "private_offsets (fi # fis) fl pl fp rfp =
     (let n = getPrivateDataLength (ftype fi);
          off = (if n > 0 then unat fl + unat pl else 0);
          pl1 = (if n > 0 then pl + of_nat n else pl);
          isFp = (ie_id (ftype fi) = IPFIX_ETYPEID_frontPayload);
          fp1 = (if isFp \<and> enterprise (ftype fi) = IPFIX_PEN_vermont then off else fp);
          rfp1 = (if isFp \<and> enterprise (ftype fi) = IPFIX_PEN_vermont OR IPFIX_PEN_reverse then off else rfp)
      in (case private_offsets fis fl pl1 fp1 rfp1 of
            (offs, rest) \<Rightarrow> (off # offs, rest)))"

text \<open>The third loop: fields that use the private data of frontPayload.\<close>

fun shared_offsets :: "field_info list \<Rightarrow> nat list \<Rightarrow> nat \<Rightarrow> nat \<Rightarrow> nat list res" where
  "shared_offsets (fi # fis) (off # offs) fp rfp =
     (let t = ftype fi in
      if ie_id t = IPFIX_ETYPEID_frontPayloadLen \<and> enterprise t = IPFIX_PEN_vermont \<and> fp = 0
      then Inl (Exception ''no front payload field specified in template, so front payload length is not available either'')
      else if ie_id t = IPFIX_ETYPEID_frontPayloadLen \<and> enterprise t = IPFIX_PEN_vermont OR IPFIX_PEN_reverse \<and> rfp = 0
      then Inl (Exception ''no reverse front payload field specified in template, so front payload length is not available either'')
      else if ie_id t = IPFIX_ETYPEID_frontPayloadPktCount \<and> enterprise t = IPFIX_PEN_vermont \<and> fp = 0
      then Inl (Exception ''no front payload field specified in template, so front payload packet count is not available either'')
      else res_bind (shared_offsets fis offs fp rfp) (\<lambda>rest.
           Inr ((if ie_id t = IPFIX_ETYPEID_frontPayloadLen \<and> enterprise t = IPFIX_PEN_vermont then fp
                 else if ie_id t = IPFIX_ETYPEID_frontPayloadLen \<and>
                         enterprise t = IPFIX_PEN_vermont OR IPFIX_PEN_reverse then rfp
                 else off) # rest)))"
| "shared_offsets _ _ fp rfp = Inr []"

definition createDataTemplate :: "rule \<Rightarrow> hashtable \<Rightarrow> hashtable res" where
  "createDataTemplate r ht =
     (case layout_fields (rule_fields r) 0 of (fis, ms, fl) \<Rightarrow>
      case private_offsets fis fl 0 0 0 of (offs, pl, fp, rfp) \<Rightarrow>
      res_bind (shared_offsets fis offs fp rfp) (\<lambda>offs1.
      Inr (ht\<lparr>dataTemplate := \<lparr>templateId = rule_id r, setId = IpfixTemplate,
                fieldCount = of_nat (length fis), fieldInfo = fis, scopeCount = 0, scopeInfo = []\<rparr>,
              privDataOffset := offs1, fieldModifier := ms, fieldLength := fl,
              privDataLength := pl\<rparr>)))"

section \<open>Reverse mappings for biflows\<close>

definition mapReverseElement :: "template_info \<Rightarrow> u16 \<Rightarrow> u32 \<Rightarrow> nat res" where
  "mapReverseElement ti i e =
     (let n = getFieldIndex ti i e in
      if n < 0 then Inl (Exception ''failed to retrieve IPFIX field id (derived as reverse field)'')
      else Inr (nat n))"

text \<open>The element that a field of the template is exchanged with when a flow is turned around.\<close>

definition reverse_element :: "ie_table \<Rightarrow> ie_info \<Rightarrow> (u16 \<times> u32) res" where
  "reverse_element tbl t =
     (let self = (ie_id t, enterprise t);
          default = (if enterprise t AND IPFIX_PEN_reverse = 0
                     then res_bind (getReverseDirection tbl t) (\<lambda>rev. Inr (ie_id rev, enterprise rev))
                     else Inr self)
      in
      if enterprise t = 0
      then (if ie_id t = IPFIX_TYPEID_protocolIdentifier \<or> ie_id t = IPFIX_TYPEID_icmpTypeCodeIPv4
            then Inr self
            else if ie_id t = IPFIX_TYPEID_sourceIPv4Address then Inr (IPFIX_TYPEID_destinationIPv4Address, 0)
            else if ie_id t = IPFIX_TYPEID_destinationIPv4Address then Inr self
            else if ie_id t = IPFIX_TYPEID_sourceTransportPort then Inr (IPFIX_TYPEID_destinationTransportPort, 0)
            else if ie_id t = IPFIX_TYPEID_destinationTransportPort then Inr self
            else if ie_id t = IPFIX_TYPEID_bgpSourceAsNumber then Inr (IPFIX_TYPEID_bgpSourceAsNumber, 0)
            else if ie_id t = IPFIX_TYPEID_bgpDestinationAsNumber then Inr (IPFIX_TYPEID_bgpDestinationAsNumber, 0)
            else default)
      else if enterprise t = IPFIX_PEN_vermont
      then (if ie_id t \<in> set [IPFIX_ETYPEID_dpaForcedExport, IPFIX_ETYPEID_dpaFlowCount,
                              IPFIX_ETYPEID_dpaReverseStart, IPFIX_ETYPEID_anonymisationType]
            then Inr self else default)
      else default)"

fun reverse_mapper :: "ie_table \<Rightarrow> template_info \<Rightarrow> field_info list \<Rightarrow> nat list res" where
  "reverse_mapper tbl ti [] = Inr []"
| "reverse_mapper tbl ti (fi # fis) =
     res_bind (reverse_element tbl (ftype fi)) (\<lambda>(i, e).
     res_bind (mapReverseElement ti i e) (\<lambda>n.
     res_bind (reverse_mapper tbl ti fis) (\<lambda>ns. Inr (n # ns))))"

text \<open>The index of the last field with a given element of enterprise 0, -1 if there is none.\<close>

fun key_index :: "u16 \<Rightarrow> field_info list \<Rightarrow> nat \<Rightarrow> int \<Rightarrow> int" where
  "key_index k [] i idx = idx"
| "key_index k (fi # fis) i idx =
     key_index k fis (Suc i) (if enterprise (ftype fi) = 0 \<and> ie_id (ftype fi) = k then int i else idx)"

text \<open>\<open>revKeyMapper\<close> is an array of \<open>uint32_t\<close>: an index of -1 becomes the largest one.\<close>

definition rev_key :: "field_info list \<Rightarrow> nat \<Rightarrow> u32" where
  "rev_key fis i =
     (let k = ie_id (ftype (fis ! i)) in
      if k = IPFIX_TYPEID_sourceIPv4Address then of_int (key_index IPFIX_TYPEID_destinationIPv4Address fis 0 (-1))
      else if k = IPFIX_TYPEID_destinationIPv4Address then of_int (key_index IPFIX_TYPEID_sourceIPv4Address fis 0 (-1))
      else if k = IPFIX_TYPEID_sourceTransportPort then of_int (key_index IPFIX_TYPEID_destinationTransportPort fis 0 (-1))
      else if k = IPFIX_TYPEID_destinationTransportPort then of_int (key_index IPFIX_TYPEID_sourceTransportPort fis 0 (-1))
      else if k = IPFIX_TYPEID_bgpSourceAsNumber then of_int (key_index IPFIX_TYPEID_bgpSourceAsNumber fis 0 (-1))
      else if k = IPFIX_TYPEID_bgpDestinationAsNumber then of_int (key_index IPFIX_TYPEID_bgpDestinationAsNumber fis 0 (-1))
      else of_nat i)"

definition genBiflowStructs :: "ie_table \<Rightarrow> hashtable \<Rightarrow> hashtable res" where
  "genBiflowStructs tbl ht =
     (let fis = fieldInfo (dataTemplate ht) in
      res_bind (reverse_mapper tbl (dataTemplate ht) fis) (\<lambda>frm.
      if key_index IPFIX_TYPEID_sourceIPv4Address fis 0 (-1) < 0 \<or>
         key_index IPFIX_TYPEID_destinationIPv4Address fis 0 (-1) < 0 \<or>
         key_index IPFIX_TYPEID_sourceTransportPort fis 0 (-1) < 0 \<or>
         key_index IPFIX_TYPEID_destinationTransportPort fis 0 (-1) < 0
      then Inl (Exception ''no biflow aggregation possible for current template, but was activated in configuration!'')
      else Inr (ht\<lparr>flowReverseMapper := frm, revKeyMapper := map (rev_key fis) [0..<length fis]\<rparr>)))"

section \<open>Construction\<close>

text \<open>
  The constructor, for \<open>hashbits\<close> below 31, where \<open>1<<hashbits\<close> is defined.
  \<open>sid\<close> is the fresh SourceID.
\<close>

definition BaseHashtable :: "ie_table \<Rightarrow> source_id \<Rightarrow> rule \<Rightarrow> u16 \<Rightarrow> u16 \<Rightarrow> nat \<Rightarrow> hashtable res" where
  "BaseHashtable tbl sid r inactive active hashbits =
     (let size = push_bit hashbits 1 :: u32;
          ht = \<lparr>dataTemplate = \<lparr>templateId = 0, setId = UnknownSetId, fieldCount = 0, fieldInfo = [],
                  scopeCount = 0, scopeInfo = []\<rparr>,
                privDataOffset = [], fieldModifier = [], fieldLength = 0, privDataLength = 0,
                biflowAggregation = rule_biflow r, revKeyMapper = [], flowReverseMapper = [],
                htableSize = size, inactiveTimeout = inactive, activeTimeout = active,
                buckets = replicate (unat size) None, bheap = Map.empty,
                exportList = HashtableBucketList, nextAddr = 0, aggInProgress = False,
                ht_sourceID = sid, statRecordsReceived = 0, statRecordsSent = 0,
                statTotalEntries = 0, statEmptyBuckets = size, statExportedBuckets = 0,
                statLastExpBuckets = 0, statMultiEntries = 0, ht_sent = []\<rparr>
      in if hashbits \<ge> 31 then Inl Undefined
         else res_bind (createDataTemplate r ht) (\<lambda>ht1.
              if biflowAggregation ht1 then genBiflowStructs tbl ht1 else Inr ht1))"

section \<open>Buckets\<close>

definition bucket_at :: "hashtable \<Rightarrow> nat option \<Rightarrow> bucket res" where
  "bucket_at ht p =
     (case p of
        None \<Rightarrow> Inl OutOfBounds
      | Some a \<Rightarrow> (case bheap ht a of None \<Rightarrow> Inl OutOfBounds | Some b \<Rightarrow> Inr b))"

definition bucket_upd :: "nat option \<Rightarrow> (bucket \<Rightarrow> bucket) \<Rightarrow> hashtable \<Rightarrow> hashtable res" where
  "bucket_upd p f ht =
     (case p of
        None \<Rightarrow> Inl OutOfBounds
      | Some a \<Rightarrow>
          (case bheap ht a of
             None \<Rightarrow> Inl OutOfBounds
           | Some b \<Rightarrow> Inr (ht\<lparr>bheap := (bheap ht)(a \<mapsto> f b)\<rparr>)))"

definition slot_at :: "hashtable \<Rightarrow> u32 \<Rightarrow> nat option res" where
  "slot_at ht h = (if unat h < length (buckets ht) then Inr (buckets ht ! unat h) else Inl OutOfBounds)"

definition slot_upd :: "u32 \<Rightarrow> nat option \<Rightarrow> hashtable \<Rightarrow> hashtable res" where
  "slot_upd h p ht =
     (if unat h < length (buckets ht) then Inr (ht\<lparr>buckets := (buckets ht)[unat h := p]\<rparr>) else Inl OutOfBounds)"

text \<open>\<open>createBucket\<close> returns the address of the bucket; \<open>new\<close> clears the members it does not set.\<close>

definition createBucket :: "bytes \<Rightarrow> u32 \<Rightarrow> nat option \<Rightarrow> nat option \<Rightarrow> u32 \<Rightarrow> int \<Rightarrow> hashtable \<Rightarrow> nat \<times> hashtable" where
  "createBucket d odid nxt prv h now ht =
     (let a = nextAddr ht;
          b = \<lparr>inactiveExpireTime = now + int (unat (inactiveTimeout ht)),
               activeExpireTime = now + int (unat (activeTimeout ht)), b_data = d,
               forceExpiry = False, inTable = False, b_prev = prv, b_next = nxt,
               b_observationDomainID = odid, listNode = None, b_hash = h\<rparr>
      in (a, ht\<lparr>bheap := (bheap ht)(a \<mapsto> b), nextAddr := a + 1\<rparr>))"

definition exportBucket :: "nat option \<Rightarrow> hashtable \<Rightarrow> hashtable res" where
  "exportBucket p ht =
     res_bind (bucket_at ht p) (\<lambda>b.
     Inr (ht\<lparr>ht_sent := ht_sent ht @ [DataRecord (ht_sourceID ht) (dataTemplate ht)
                                         (unat (fieldLength ht)) (b_data b) 0],
             statRecordsSent := statRecordsSent ht + 1\<rparr>))"

definition destroyBucket :: "nat option \<Rightarrow> hashtable \<Rightarrow> hashtable res" where
  "destroyBucket p ht =
     (case p of
        None \<Rightarrow> Inr ht
      | Some a \<Rightarrow> (case bheap ht a of None \<Rightarrow> Inl OutOfBounds
                   | Some _ \<Rightarrow> Inr (ht\<lparr>bheap := (bheap ht)(a := None)\<rparr>)))"

definition removeBucket :: "nat option \<Rightarrow> hashtable \<Rightarrow> hashtable res" where
  "removeBucket p ht =
     res_bind (bucket_at ht p) (\<lambda>b.
     let ht1 = ht\<lparr>statMultiEntries := (if b_next b \<noteq> None \<or> b_prev b \<noteq> None
                                       then statMultiEntries ht - 1 else statMultiEntries ht),
                  statEmptyBuckets := (if b_next b = None \<and> b_prev b = None
                                       then statEmptyBuckets ht + 1 else statEmptyBuckets ht)\<rparr>
     in
     res_bind (if b_prev b \<noteq> None then bucket_upd (b_prev b) (\<lambda>c. c\<lparr>b_next := b_next b\<rparr>) ht1
               else slot_upd (b_hash b) (b_next b) ht1) (\<lambda>ht2.
     res_bind (if b_next b \<noteq> None then bucket_upd (b_next b) (\<lambda>c. c\<lparr>b_prev := b_prev b\<rparr>) ht2
               else Inr ht2) (\<lambda>ht3.
     bucket_upd p (\<lambda>c. c\<lparr>b_next := None, b_prev := None, b_hash := 0, inTable := False\<rparr>) ht3)))"

text \<open>The export list of the hashtable.\<close>

definition list_push :: "nat option \<Rightarrow> hashtable \<Rightarrow> hashtable res" where
  "list_push p ht =
     (case p of
        None \<Rightarrow> Inl OutOfBounds
      | Some n \<Rightarrow> res_bind (bl_push n (exportList ht)) (\<lambda>l. Inr (ht\<lparr>exportList := l\<rparr>)))"

definition list_remove :: "nat option \<Rightarrow> hashtable \<Rightarrow> hashtable res" where
  "list_remove p ht =
     (case p of
        None \<Rightarrow> (if bl_isEmpty (exportList ht) then Inl (Exception ''List is empty: can't remove Node'')
                 else Inl OutOfBounds)
      | Some n \<Rightarrow> res_bind (bl_remove n (exportList ht)) (\<lambda>l. Inr (ht\<lparr>exportList := l\<rparr>)))"

definition node_at :: "hashtable \<Rightarrow> nat \<Rightarrow> list_element res" where
  "node_at ht n = (case bl_nodes (exportList ht) n of None \<Rightarrow> Inl OutOfBounds | Some c \<Rightarrow> Inr c)"

text \<open>A node that is given back; it is not used again under its address.\<close>

definition node_free :: "nat \<Rightarrow> hashtable \<Rightarrow> hashtable" where
  "node_free n ht = ht\<lparr>exportList := (exportList ht)\<lparr>bl_nodes := (bl_nodes (exportList ht))(n := None)\<rparr>\<rparr>"

definition node_new :: "list_element \<Rightarrow> hashtable \<Rightarrow> nat \<times> hashtable" where
  "node_new c ht =
     (let n = nextAddr ht in
      (n, ht\<lparr>exportList := (exportList ht)\<lparr>bl_nodes := (bl_nodes (exportList ht))(n \<mapsto> c)\<rparr>,
             nextAddr := n + 1\<rparr>))"

section \<open>Locking\<close>

text \<open>
  A lock that is taken is waited for; in a single thread of control nobody will ever
  release it.
\<close>

definition agg_lock :: "hashtable \<Rightarrow> hashtable res" where
  "agg_lock ht = (if aggInProgress ht then Inl Diverges else Inr (ht\<lparr>aggInProgress := True\<rparr>))"

definition agg_release :: "hashtable \<Rightarrow> hashtable" where
  "agg_release ht = ht\<lparr>aggInProgress := False\<rparr>"

section \<open>Expiry\<close>

text \<open>The exit of a bucket in the loop of \<open>expireFlows\<close>.\<close>

definition expire_bucket :: "nat \<Rightarrow> nat option \<Rightarrow> hashtable \<Rightarrow> hashtable res" where
  "expire_bucket node p ht =
     res_bind (bucket_at ht p) (\<lambda>b.
     res_bind (if inTable b then removeBucket p ht else Inr ht) (\<lambda>ht1.
     res_bind (exportBucket p (ht1\<lparr>statExportedBuckets := statExportedBuckets ht1 + 1\<rparr>)) (\<lambda>ht2.
     res_bind (list_remove (Some node) ht2) (\<lambda>ht3.
     res_bind (destroyBucket p ht3) (\<lambda>ht4.
     Inr ((node_free node ht4)\<lparr>statTotalEntries := statTotalEntries ht4 - 1\<rparr>))))))"

definition is_expired :: "int \<Rightarrow> bool \<Rightarrow> bucket \<Rightarrow> bool" where
  "is_expired now every b \<longleftrightarrow> inactiveExpireTime b \<le> now \<or> activeExpireTime b \<le> now \<or> every"

text \<open>The loop; that it returns is a property.\<close>

partial_function (option) expire_loop :: "int \<Rightarrow> bool \<Rightarrow> hashtable \<Rightarrow> hashtable res option" where
  [code]: "expire_loop now every ht =
     (case bl_head (exportList ht) of
        None \<Rightarrow> Some (Inr ht)
      | Some node \<Rightarrow>
          (case node_at ht node of
             Inl e \<Rightarrow> Some (Inl e)
           | Inr c \<Rightarrow>
               (case bucket_at ht (le_bucket c) of
                  Inl e \<Rightarrow> Some (Inl e)
                | Inr b \<Rightarrow>
                    (if is_expired now every b
                     then (case expire_bucket node (le_bucket c) ht of
                             Inl e \<Rightarrow> Some (Inl e)
                           | Inr ht1 \<Rightarrow> expire_loop now every ht1)
                     else Some (Inr ht)))))"

definition expireFlows :: "int \<Rightarrow> bool \<Rightarrow> hashtable \<Rightarrow> hashtable res option" where
  "expireFlows now every ht =
     (case agg_lock ht of
        Inl e \<Rightarrow> Some (Inl e)
      | Inr ht1 \<Rightarrow>
          (if bl_isEmpty (exportList ht1) then Some (Inr (agg_release ht1))
           else map_option (\<lambda>r. res_bind r (\<lambda>ht2. Inr (agg_release ht2))) (expire_loop now every ht1)))"

section \<open>Life cycle\<close>

definition sendDataTemplate :: "hashtable \<Rightarrow> hashtable" where
  "sendDataTemplate ht = ht\<lparr>ht_sent := ht_sent ht @ [TemplateRecord (ht_sourceID ht) (dataTemplate ht)]\<rparr>"

definition sendTemplateDestructionRecord :: "hashtable \<Rightarrow> hashtable" where
  "sendTemplateDestructionRecord ht =
     ht\<lparr>ht_sent := ht_sent ht @ [TemplateDestructionRecord (ht_sourceID ht) (dataTemplate ht)]\<rparr>"

definition ht_performStart :: "hashtable \<Rightarrow> hashtable" where
  "ht_performStart ht = sendDataTemplate ht"

definition ht_performShutdown :: "hashtable \<Rightarrow> hashtable" where
  "ht_performShutdown ht = ht"

definition ht_preReconfiguration :: "int \<Rightarrow> hashtable \<Rightarrow> hashtable res option" where
  "ht_preReconfiguration now ht = expireFlows now True ht"

definition ht_postReconfiguration :: "hashtable \<Rightarrow> hashtable" where
  "ht_postReconfiguration ht = sendDataTemplate ht"

definition ht_clearStatistics :: "hashtable \<Rightarrow> hashtable" where
  "ht_clearStatistics ht =
     ht\<lparr>statExportedBuckets := 0, statLastExpBuckets := 0, statRecordsReceived := 0, statRecordsSent := 0\<rparr>"

text \<open>The destructor frees every bucket it finds in a spill chain.\<close>

partial_function (option) destroy_chain :: "nat option \<Rightarrow> hashtable \<Rightarrow> hashtable res option" where
  [code]: "destroy_chain p ht =
     (case p of
        None \<Rightarrow> Some (Inr ht)
      | Some a \<Rightarrow>
          (case bucket_at ht p of
             Inl e \<Rightarrow> Some (Inl e)
           | Inr b \<Rightarrow>
               (case destroyBucket p ht of
                  Inl e \<Rightarrow> Some (Inl e)
                | Inr ht1 \<Rightarrow> destroy_chain (b_next b) ht1)))"

fun destroy_chains :: "nat option list \<Rightarrow> hashtable \<Rightarrow> hashtable res option" where
  "destroy_chains [] ht = Some (Inr ht)"
| "destroy_chains (p # ps) ht =
     (case destroy_chain p ht of
        None \<Rightarrow> None
      | Some (Inl e) \<Rightarrow> Some (Inl e)
      | Some (Inr ht1) \<Rightarrow> destroy_chains ps ht1)"

definition BaseHashtable_destroy :: "hashtable \<Rightarrow> hashtable res option" where
  "BaseHashtable_destroy ht = destroy_chains (buckets ht) ht"

section \<open>Turning a flow around\<close>

text \<open>The loop over the fields of the template; \<open>i\<close> is the index of the first field left.\<close>

fun reverse_fields :: "field_info list \<Rightarrow> nat list \<Rightarrow> nat \<Rightarrow> field_info list \<Rightarrow> bytes \<Rightarrow> bytes res" where
  "reverse_fields fis (j # js) i (fi # rest) d =
     (if j = i then reverse_fields fis js (Suc i) rest d
      else if j < length fis
      then (let len = unat (ie_length (ftype fi)); src = unat (offset fi); dst = unat (offset (fis ! j)) in
            res_bind (peek d src len) (\<lambda>switchArray.
            res_bind (peek d dst len) (\<lambda>other.
            res_bind (poke d src other) (\<lambda>d1.
            res_bind (poke d1 dst switchArray) (\<lambda>d2.
            reverse_fields fis js (Suc i) rest d2)))))
      else Inl OutOfBounds)"
| "reverse_fields fis [] i (fi # rest) d = Inl OutOfBounds"
| "reverse_fields fis js i [] d = Inr d"

definition reverseFlowBucket :: "nat option \<Rightarrow> hashtable \<Rightarrow> hashtable res" where
  "reverseFlowBucket p ht =
     res_bind (bucket_at ht p) (\<lambda>b.
     res_bind (reverse_fields (fieldInfo (dataTemplate ht)) (flowReverseMapper ht) 0
                 (fieldInfo (dataTemplate ht)) (b_data b)) (\<lambda>d.
     bucket_upd p (\<lambda>c. c\<lparr>b_data := d\<rparr>) ht))"

end
