(* ===== verification/Flow_Hashtable.thy ===== *)
theory Flow_Hashtable
  imports Base_Hashtable
begin

text \<open>
  Aggregation of flow records (src/src/modules/ipfix/aggregator/FlowHashtable.cpp): how two
  values of a field are combined, the key of a flow and its hash, and the insertion of a
  record into the hashtable. The host is little-endian where two octets are read as one integer.
\<close>

section \<open>Combining field values\<close>

text \<open>Two octets of a field, masked with \<open>Connection::MASK\<close> on a little-endian host.\<close>

definition Connection_MASK :: u16 where "Connection_MASK = 0x01ff"

definition le16 :: "bytes \<Rightarrow> u16" where
  "le16 bs = of_nat (be_of (rev bs))"

definition le16_bytes :: "u16 \<Rightarrow> bytes" where
  "le16_bytes w = rev (be_bytes 2 (unat w))"

definition or_flags :: "nat \<Rightarrow> bytes \<Rightarrow> bytes \<Rightarrow> bytes" where
  "or_flags n base delta =
     (if n = 1 then [base ! 0 OR delta ! 0]
      else le16_bytes (le16 base OR (le16 delta AND Connection_MASK)))"

definition is_zero :: "bytes \<Rightarrow> bool" where
  "is_zero bs \<longleftrightarrow> be_of bs = 0"

text \<open>
  \<open>field_op t\<close>: how many octets of both fields \<open>aggregateField\<close> reads for a field of
  type \<open>t\<close> and what it writes back; \<open>None\<close> where it returns 1 and changes nothing.
  The payload is treated by \<open>aggregateField\<close> itself.
\<close>

definition field_op :: "ie_info \<Rightarrow> (nat \<times> (bytes \<Rightarrow> bytes \<Rightarrow> bytes)) option" where
  "field_op t =
     (if enterprise t = 0
      then (if ie_id t \<in> set [IPFIX_TYPEID_flowStartSysUpTime, IPFIX_TYPEID_flowStartSeconds,
                              IPFIX_TYPEID_flowStartMicroseconds]
            then (if ie_length t \<noteq> 4 then None else Some (4, lesserUint32Nbo))
            else if ie_id t \<in> set [IPFIX_TYPEID_flowStartMilliseconds, IPFIX_TYPEID_flowStartNanoseconds]
            then (if ie_length t \<noteq> 8 then None else Some (8, lesserUint64Nbo))
            else if ie_id t \<in> set [IPFIX_TYPEID_flowEndSysUpTime, IPFIX_TYPEID_flowEndSeconds,
                                   IPFIX_TYPEID_flowEndMicroseconds]
            then (if ie_length t \<noteq> 4 then None else Some (4, greaterUint32Nbo))
            else if ie_id t \<in> set [IPFIX_TYPEID_flowEndMilliseconds, IPFIX_TYPEID_flowEndNanoseconds]
            then (if ie_length t \<noteq> 8 then None else Some (8, greaterUint64Nbo))
            else if ie_id t \<in> set [IPFIX_TYPEID_octetTotalCount, IPFIX_TYPEID_octetDeltaCount,
                                   IPFIX_TYPEID_postOctetDeltaCount, IPFIX_TYPEID_packetTotalCount,
                                   IPFIX_TYPEID_packetDeltaCount, IPFIX_TYPEID_postPacketDeltaCount,
                                   IPFIX_TYPEID_droppedOctetDeltaCount, IPFIX_TYPEID_droppedPacketDeltaCount]
            then (if ie_length t \<noteq> 8 then None else Some (8, addUint64Nbo))
            else if ie_id t = IPFIX_TYPEID_tcpControlBits
            then (if ie_length t = 1 then Some (1, or_flags 1) else Some (2, or_flags 2))
            else None)
      else if enterprise t = IPFIX_PEN_reverse
      then (if ie_id t = IPFIX_TYPEID_flowStartSeconds
            then (if ie_length t \<noteq> 4 then None
                  else Some (4, \<lambda>base delta. if is_zero base then delta
                                             else if \<not> is_zero delta then lesserUint32Nbo base delta else base))
            else if ie_id t \<in> set [IPFIX_TYPEID_flowStartMilliseconds, IPFIX_TYPEID_flowStartNanoseconds]
            then (if ie_length t \<noteq> 8 then None
                  else Some (8, \<lambda>base delta. if is_zero base then delta
                                             else if \<not> is_zero delta then lesserUint64Nbo base delta else base))
            else if ie_id t = IPFIX_TYPEID_flowEndSeconds
            then (if ie_length t \<noteq> 4 then None else Some (4, greaterUint32Nbo))
            else if ie_id t \<in> set [IPFIX_TYPEID_flowEndMilliseconds, IPFIX_TYPEID_flowEndNanoseconds]
            then (if ie_length t \<noteq> 8 then None else Some (8, greaterUint64Nbo))
            else if ie_id t \<in> set [IPFIX_TYPEID_octetTotalCount, IPFIX_TYPEID_octetDeltaCount,
                                   IPFIX_TYPEID_packetTotalCount, IPFIX_TYPEID_packetDeltaCount]
            then Some (8, addUint64Nbo)
            else if ie_id t = IPFIX_TYPEID_tcpControlBits
            then (if ie_length t = 1 then Some (1, or_flags 1) else Some (2, or_flags 2))
            else None)
      else if enterprise t = IPFIX_PEN_vermont \<or> enterprise t = IPFIX_PEN_reverse OR IPFIX_PEN_vermont
      then (if ie_id t = IPFIX_ETYPEID_frontPayloadLen
            then Some (4, \<lambda>base delta. if is_zero base then delta else base)
            else if ie_id t = IPFIX_ETYPEID_maxPacketGap then Some (4, greaterUint32Nbo)
            else if ie_id t = IPFIX_ETYPEID_frontPayloadPktCount \<and> enterprise t = IPFIX_PEN_vermont
            then Some (4, addUint32Nbo)
            else None)
      else None)"

definition is_payload :: "ie_info \<Rightarrow> bool" where
  "is_payload t \<longleftrightarrow>
     (enterprise t = IPFIX_PEN_vermont \<or> enterprise t = IPFIX_PEN_reverse OR IPFIX_PEN_vermont) \<and>
     ie_id t = IPFIX_ETYPEID_frontPayload"

text \<open>
  \<open>aggregateField\<close> on the blocks \<open>base\<close> and \<open>delta\<close>; the base field has type \<open>t\<close>,
  offset \<open>bo\<close> and private data at \<open>bp\<close>, the delta field has \<open>dof\<close> and \<open>dp\<close>.
\<close>

definition aggregateField :: "ie_info \<Rightarrow> nat \<Rightarrow> nat \<Rightarrow> nat \<Rightarrow> nat \<Rightarrow> bytes \<Rightarrow> bytes \<Rightarrow> bytes res" where
  "aggregateField t bo bp dof dp base delta =
     (if is_payload t
      then res_bind (peek base (bp + 4) 4) (\<lambda>plen.
           if is_zero plen
           then res_bind (peek delta dof (unat (ie_length t))) (\<lambda>payload.
                res_bind (poke base bo payload) (\<lambda>base1.
                res_bind (peek delta (dp + 4) 4) (\<lambda>dlen.
                poke base1 (bp + 4) dlen)))
           else Inr base)
      else
        (case field_op t of
           None \<Rightarrow> Inr base
         | Some (n, f) \<Rightarrow>
             res_bind (peek base bo n) (\<lambda>b.
             res_bind (peek delta dof n) (\<lambda>d.
             poke base bo (f b d)))))"

section \<open>Combining flows\<close>

definition compareField :: "nat \<Rightarrow> bytes \<Rightarrow> nat \<Rightarrow> bytes \<Rightarrow> nat \<Rightarrow> int res" where
  "compareField n baseFlow bo flow dof =
     res_bind (peek baseFlow bo n) (\<lambda>base.
     res_bind (peek flow dof n) (\<lambda>delta.
     Inr (if be_of base < be_of delta then -1 else if be_of base = be_of delta then 0 else 1)))"

definition compare4ByteField :: "bytes \<Rightarrow> nat \<Rightarrow> bytes \<Rightarrow> nat \<Rightarrow> int res" where
  "compare4ByteField = compareField 4"

definition compare8ByteField :: "bytes \<Rightarrow> nat \<Rightarrow> bytes \<Rightarrow> nat \<Rightarrow> int res" where
  "compare8ByteField = compareField 8"

text \<open>The comparison of the start times in the loop of \<open>aggregateFlow\<close>; -2 where there is none.\<close>

definition start_order :: "field_info \<Rightarrow> bytes \<Rightarrow> bytes \<Rightarrow> int res" where
  "start_order fi baseFlow flow =
     (let o1 = unat (offset fi) in
      if ie_id (ftype fi) = IPFIX_TYPEID_flowStartSeconds then compare4ByteField baseFlow o1 flow o1
      else if ie_id (ftype fi) = IPFIX_TYPEID_flowStartMilliseconds then compare8ByteField baseFlow o1 flow o1
      else if ie_id (ftype fi) = IPFIX_TYPEID_flowStartNanoseconds then compare8ByteField baseFlow o1 flow o1
      else Inr (-2))"

text \<open>
  The loop of \<open>aggregateFlow\<close> from field \<open>i\<close> on, for the fields \<open>fis\<close> left. The
  result tells whether the flow has to be reversed.
\<close>

fun aggregate_fields :: "hashtable \<Rightarrow> bool \<Rightarrow> nat \<Rightarrow> field_info list \<Rightarrow> bytes \<Rightarrow> bytes \<Rightarrow> bool \<Rightarrow> (bytes \<times> bool) res" where
  "aggregate_fields ht rv i [] baseFlow flow result = Inr (baseFlow, result)"
| "aggregate_fields ht rv i (fi # fis) baseFlow flow result =
     (if \<not> isToBeAggregated (ftype fi) then aggregate_fields ht rv (Suc i) fis baseFlow flow result
      else if rv \<and> enterprise (ftype fi) = 0
      then
        res_bind (start_order fi baseFlow flow) (\<lambda>order.
        if i < length (flowReverseMapper ht) \<and>
           flowReverseMapper ht ! i < length (fieldInfo (dataTemplate ht))
        then (let j = flowReverseMapper ht ! i; rfi = fieldInfo (dataTemplate ht) ! j in
              res_bind (aggregateField (ftype rfi) (unat (offset rfi)) (privDataOffset ht ! j)
                          (unat (offset fi)) (privDataOffset ht ! i) baseFlow flow) (\<lambda>baseFlow1.
              aggregate_fields ht rv (Suc i) fis baseFlow1 flow (result \<or> order > 0)))
        else Inl OutOfBounds)
      else
        res_bind (aggregateField (ftype fi) (unat (offset fi)) (privDataOffset ht ! i)
                    (unat (offset fi)) (privDataOffset ht ! i) baseFlow flow) (\<lambda>baseFlow1.
        aggregate_fields ht rv (Suc i) fis baseFlow1 flow result))"

text \<open>\<open>aggregateFlow\<close> on a bucket; it releases the lock before it returns.\<close>

definition aggregateFlow :: "nat option \<Rightarrow> bytes \<Rightarrow> bool \<Rightarrow> hashtable \<Rightarrow> (bool \<times> hashtable) res" where
  "aggregateFlow p flow rv ht =
     res_bind (bucket_at ht p) (\<lambda>b.
     res_bind (aggregate_fields ht rv 0 (fieldInfo (dataTemplate ht)) (b_data b) flow False) (\<lambda>(d, result).
     res_bind (bucket_upd p (\<lambda>c. c\<lparr>b_data := d\<rparr>) ht) (\<lambda>ht1.
     Inr (result, agg_release ht1))))"

section \<open>Keys\<close>

text \<open>The field whose octets stand for field \<open>i\<close> of the key.\<close>

definition key_source :: "hashtable \<Rightarrow> bool \<Rightarrow> nat \<Rightarrow> field_info res" where
  "key_source ht rv i =
     (let fis = fieldInfo (dataTemplate ht) in
      if rv
      then (if i < length (revKeyMapper ht) \<and> unat (revKeyMapper ht ! i) < length fis
            then Inr (fis ! unat (revKeyMapper ht ! i)) else Inl OutOfBounds)
      else (if i < length fis then Inr (fis ! i) else Inl OutOfBounds))"

fun hash_fields :: "hashtable \<Rightarrow> bool \<Rightarrow> nat \<Rightarrow> field_info list \<Rightarrow> bytes \<Rightarrow> u32 \<Rightarrow> u32 res" where
  "hash_fields ht rv i [] d h = Inr h"
| "hash_fields ht rv i (fi # fis) d h =
     (if isToBeAggregated (ftype fi) then hash_fields ht rv (Suc i) fis d h
      else res_bind (key_source ht rv i) (\<lambda>kf.
           res_bind (crc32 h (ucast (ie_length (ftype kf))) (drop (unat (offset kf)) d)) (\<lambda>h1.
           hash_fields ht rv (Suc i) fis d h1)))"

definition getHash :: "hashtable \<Rightarrow> bytes \<Rightarrow> bool \<Rightarrow> u32 res" where
  "getHash ht d rv =
     res_bind (hash_fields ht rv 0 (fieldInfo (dataTemplate ht)) d 0) (\<lambda>h.
     Inr (h AND (htableSize ht - 1)))"

text \<open>\<open>equalRaw\<close> with equal types: the octets are compared one by one.\<close>

fun octets_equal :: "nat \<Rightarrow> bytes \<Rightarrow> nat \<Rightarrow> bytes \<Rightarrow> nat \<Rightarrow> bool res" where
  "octets_equal 0 d1 i d2 j = Inr True"
| "octets_equal (Suc k) d1 i d2 j =
     res_bind (rd8 d1 i) (\<lambda>a. res_bind (rd8 d2 j) (\<lambda>b.
     if a \<noteq> b then Inr False else octets_equal k d1 (Suc i) d2 (Suc j)))"

definition equalRaw :: "ie_info \<Rightarrow> bytes \<Rightarrow> nat \<Rightarrow> ie_info \<Rightarrow> bytes \<Rightarrow> nat \<Rightarrow> bool res" where
  "equalRaw t1 d1 i t2 d2 j =
     (if ie_id t1 \<noteq> ie_id t2 then Inr False
      else if ie_length t1 \<noteq> ie_length t2 then Inr False
      else if enterprise t1 \<noteq> enterprise t2 then Inr False
      else octets_equal (unat (ie_length t1)) d1 i d2 j)"

fun equal_fields :: "hashtable \<Rightarrow> bool \<Rightarrow> nat \<Rightarrow> field_info list \<Rightarrow> bytes \<Rightarrow> bytes \<Rightarrow> bool res" where
  "equal_fields ht rv i [] flow1 flow2 = Inr True"
| "equal_fields ht rv i (fi # fis) flow1 flow2 =
     (if isToBeAggregated (ftype fi) then equal_fields ht rv (Suc i) fis flow1 flow2
      else res_bind (key_source ht rv i) (\<lambda>kf.
           res_bind (equalRaw (ftype fi) flow1 (unat (offset fi)) (ftype fi) flow2 (unat (offset kf))) (\<lambda>eq.
           if \<not> eq then Inr False else equal_fields ht rv (Suc i) fis flow1 flow2)))"

text \<open>The two flows are different objects: one is in a bucket and one is about to be inserted.\<close>

definition equalFlow :: "hashtable \<Rightarrow> bytes \<Rightarrow> bytes \<Rightarrow> bool \<Rightarrow> bool res" where
  "equalFlow ht flow1 flow2 rv = equal_fields ht rv 0 (fieldInfo (dataTemplate ht)) flow1 flow2"

section \<open>Insertion\<close>

text \<open>The search in a spill chain; the result is the bucket found and the one before it.\<close>

partial_function (option) chain_search ::
    "hashtable \<Rightarrow> bytes \<Rightarrow> bool \<Rightarrow> nat option \<Rightarrow> nat option \<Rightarrow> (nat option \<times> nat option) res option" where
  [code]: "chain_search ht d rv p prev =
     (case p of
        None \<Rightarrow> Some (Inr (None, prev))
      | Some a \<Rightarrow>
          (case bucket_at ht p of
             Inl e \<Rightarrow> Some (Inl e)
           | Inr b \<Rightarrow>
               (case equalFlow ht (b_data b) d rv of
                  Inl e \<Rightarrow> Some (Inl e)
                | Inr eq \<Rightarrow> (if eq then Some (Inr (p, prev)) else chain_search ht d rv (b_next b) p))))"

definition lookupBucket :: "u32 \<Rightarrow> bytes \<Rightarrow> bool \<Rightarrow> hashtable \<Rightarrow> (nat option \<times> nat option) res option" where
  "lookupBucket h d rv ht =
     (case slot_at ht h of Inl e \<Rightarrow> Some (Inl e) | Inr p \<Rightarrow> chain_search ht d rv p None)"

text \<open>Sequencing of steps that may fault or not return.\<close>

definition ro_bind :: "'a res option \<Rightarrow> ('a \<Rightarrow> 'b res option) \<Rightarrow> 'b res option" where
  "ro_bind m f = (case m of None \<Rightarrow> None | Some (Inl e) \<Rightarrow> Some (Inl e) | Some (Inr x) \<Rightarrow> f x)"

text \<open>The new inactivity timeout of a flow that was found, and its place in the export list.\<close>

definition refresh_bucket :: "nat option \<Rightarrow> int \<Rightarrow> hashtable \<Rightarrow> hashtable res" where
  "refresh_bucket p now ht =
     res_bind (bucket_upd p (\<lambda>c. c\<lparr>inactiveExpireTime := now + int (unat (inactiveTimeout ht))\<rparr>) ht) (\<lambda>ht1.
     res_bind (bucket_at ht1 p) (\<lambda>b.
     if activeExpireTime b > inactiveExpireTime b
     then res_bind (list_remove (listNode b) ht1) (\<lambda>ht2.
          res_bind (list_push (listNode b) ht2) (\<lambda>ht3.
          removeBucket p ht3))
     else Inr ht1))"

definition force_expiry :: "nat option \<Rightarrow> hashtable \<Rightarrow> hashtable res" where
  "force_expiry p ht =
     res_bind (bucket_upd p (\<lambda>c. c\<lparr>forceExpiry := True\<rparr>) ht) (\<lambda>ht1. removeBucket p ht1)"

definition is_overdue :: "int \<Rightarrow> bucket \<Rightarrow> bool" where
  "is_overdue now b \<longleftrightarrow> now > inactiveExpireTime b \<or> now > activeExpireTime b"

text \<open>
  The branches for a flow found in its own and in the reverse direction. The results tell
  whether the record was aggregated (otherwise the bucket was forced to expire).
\<close>

definition forward_found :: "nat option \<Rightarrow> bytes \<Rightarrow> int \<Rightarrow> hashtable \<Rightarrow> (bool \<times> hashtable) res" where
  "forward_found p d now ht =
     res_bind (bucket_at ht p) (\<lambda>b.
     if is_overdue now b
     then res_bind (force_expiry p ht) (\<lambda>ht1. Inr (False, ht1))
     else res_bind (aggregateFlow p d False ht) (\<lambda>(_, ht1).
          res_bind (refresh_bucket p now ht1) (\<lambda>ht2. Inr (True, ht2))))"

text \<open>The bucket leaves its chain and enters the one of its new hash.\<close>

definition rehash_bucket :: "nat option \<Rightarrow> nat option \<Rightarrow> u32 \<Rightarrow> hashtable \<Rightarrow> hashtable res" where
  "rehash_bucket p prevbucket rhash ht =
     res_bind (bucket_at ht p) (\<lambda>b.
     res_bind (if prevbucket = None then slot_upd rhash (b_next b) ht
               else bucket_upd prevbucket (\<lambda>c. c\<lparr>b_next := b_next b\<rparr>) ht) (\<lambda>ht1.
     res_bind (if b_next b \<noteq> None then bucket_upd (b_next b) (\<lambda>c. c\<lparr>b_prev := prevbucket\<rparr>) ht1
               else Inr ht1) (\<lambda>ht2.
     res_bind (getHash ht2 (b_data b) False) (\<lambda>nhash.
     res_bind (slot_at ht2 nhash) (\<lambda>q.
     res_bind (bucket_upd p (\<lambda>c. c\<lparr>b_next := q, b_hash := nhash\<rparr>) ht2) (\<lambda>ht3.
     res_bind (slot_upd nhash p ht3) (\<lambda>ht4.
     res_bind (bucket_upd p (\<lambda>c. c\<lparr>b_prev := None\<rparr>) ht4) (\<lambda>ht5.
     if q \<noteq> None then bucket_upd q (\<lambda>c. c\<lparr>b_prev := p\<rparr>) ht5 else Inr ht5))))))))"

definition reverse_found :: "nat option \<Rightarrow> nat option \<Rightarrow> u32 \<Rightarrow> bytes \<Rightarrow> int \<Rightarrow> hashtable \<Rightarrow> (bool \<times> hashtable) res" where
  "reverse_found p prevbucket rhash d now ht =
     res_bind (bucket_at ht p) (\<lambda>b.
     if is_overdue now b
     then res_bind (force_expiry p ht) (\<lambda>ht1. Inr (False, ht1))
     else res_bind (aggregateFlow p d True ht) (\<lambda>(must_reverse, ht1).
          if must_reverse
          then res_bind (reverseFlowBucket p ht1) (\<lambda>ht2.
               res_bind (rehash_bucket p prevbucket rhash ht2) (\<lambda>ht3.
               res_bind (refresh_bucket p now ht3) (\<lambda>ht4. Inr (True, ht4))))
          else Inr (True, ht1)))"

definition insert_new :: "u32 \<Rightarrow> bytes \<Rightarrow> int \<Rightarrow> hashtable \<Rightarrow> hashtable res" where
  "insert_new nhash d now ht =
     (let ht1 = ht\<lparr>statTotalEntries := statTotalEntries ht + 1\<rparr> in
      res_bind (slot_at ht1 nhash) (\<lambda>n.
      case createBucket d 0 n None nhash now ht1 of (a, ht2) \<Rightarrow>
      res_bind (slot_upd nhash (Some a) ht2) (\<lambda>ht3.
      res_bind (bucket_upd (Some a) (\<lambda>c. c\<lparr>inTable := True\<rparr>) ht3) (\<lambda>ht4.
      res_bind (if n \<noteq> None then bucket_upd n (\<lambda>c. c\<lparr>b_prev := Some a\<rparr>) ht4 else Inr ht4) (\<lambda>ht5.
      case node_new (BucketListElement_reset\<lparr>le_bucket := Some a\<rparr>) ht5 of (node, ht6) \<Rightarrow>
      res_bind (bucket_upd (Some a) (\<lambda>c. c\<lparr>listNode := Some node\<rparr>) ht6) (\<lambda>ht7.
      list_push (Some node) ht7))))))"

text \<open>The search in the reverse direction; its results are as those of the branches, with None where nothing is found.\<close>

definition try_reverse :: "bytes \<Rightarrow> int \<Rightarrow> hashtable \<Rightarrow> (bool option \<times> hashtable) res option" where
  "try_reverse d now ht =
     ro_bind (Some (getHash ht d True)) (\<lambda>rhash.
     ro_bind (lookupBucket rhash d True ht) (\<lambda>(bucket, prevbucket).
     if bucket = None then Some (Inr (None, ht))
     else Some (res_bind (reverse_found bucket prevbucket rhash d now ht) (\<lambda>(found, ht1).
                Inr (Some found, ht1)))))"

definition bufferDataBlock :: "bytes \<Rightarrow> int \<Rightarrow> hashtable \<Rightarrow> hashtable res option" where
  "bufferDataBlock d now ht0 =
     (let ht = ht0\<lparr>statRecordsReceived := statRecordsReceived ht0 + 1\<rparr> in
      ro_bind (Some (getHash ht d False)) (\<lambda>nhash.
      ro_bind (lookupBucket nhash d False ht) (\<lambda>(bucket, _).
      ro_bind (if bucket \<noteq> None
               then Some (res_bind (forward_found bucket d now ht) (\<lambda>(found, ht1). Inr (Some found, ht1)))
               else if biflowAggregation ht then try_reverse d now ht
               else Some (Inr (None, ht))) (\<lambda>(found, ht1).
      ro_bind (if found = Some True then Some (Inr ht1) else Some (insert_new nhash d now ht1)) (\<lambda>ht2.
      Some (Inr (agg_release ht2)))))))"

section \<open>Records\<close>

text \<open>
  Host bits of an address are cleared by \<open>copyData\<close>; a shift by more than 31 bits in the
  construction of the pattern is undefined.
\<close>

definition clear_host_bits :: "byte \<Rightarrow> bytes \<Rightarrow> nat \<Rightarrow> bytes res" where
  "clear_host_bits imask d i =
     (if imask = 0 then Inr d
      else if imask = 8 then poke d (i + 3) [0]
      else if imask = 16 then poke d (i + 2) [0, 0]
      else if imask = 24 then poke d (i + 1) [0, 0, 0]
      else if imask = 32 then poke d i [0, 0, 0, 0]
      else if imask > 32 then Inl Undefined
      else res_bind (rd32 d i) (\<lambda>a.
           poke d i (htonl_bytes (a AND NOT (mask (unat imask))))))"

definition apply_modifier :: "ie_info \<Rightarrow> nat \<Rightarrow> nat \<Rightarrow> bytes \<Rightarrow> bytes res" where
  "apply_modifier t i modifier d =
     (if modifier \<ge> MASK_START \<and> modifier \<le> MASK_END
      then (if ie_id t \<noteq> IPFIX_TYPEID_sourceIPv4Address \<and> ie_id t \<noteq> IPFIX_TYPEID_destinationIPv4Address
            then Inr d
            else if ie_length t \<noteq> 5 then Inr d
            else (let imask = of_int (32 - (int modifier - int MASK_START)) :: byte in
                  res_bind (poke d (i + 4) [imask]) (\<lambda>d1. clear_host_bits imask d1 i)))
      else Inr d)"

definition is_front_payload :: "ie_info \<Rightarrow> bool" where
  "is_front_payload t \<longleftrightarrow> enterprise t AND IPFIX_PEN_vermont \<noteq> 0 \<and> ie_id t = IPFIX_ETYPEID_frontPayload"

text \<open>
  The octets a field of type \<open>dt\<close> receives from one of type \<open>st\<close> at offset \<open>so\<close> of
  the record; None when it does not fit.
\<close>

definition fitted :: "ie_info \<Rightarrow> ie_info \<Rightarrow> bytes \<Rightarrow> nat \<Rightarrow> (bytes \<times> nat) option res" where
  "fitted dt st src so =
     (let dl = unat (ie_length dt); sl = unat (ie_length st) in
      if dl = sl then res_bind (peek src so sl) (\<lambda>v. Inr (Some (v, sl)))
      else if dl > sl
      then res_bind (peek src so sl) (\<lambda>v.
           Inr (Some (if (enterprise dt = 0 \<and> (ie_id dt = IPFIX_TYPEID_sourceIPv4Address \<or>
                                              ie_id dt = IPFIX_TYPEID_destinationIPv4Address)) \<or>
                         (enterprise dt \<noteq> 0 \<and> is_front_payload dt)
                      then v @ replicate (dl - sl) 0 else replicate (dl - sl) 0 @ v, sl)))
      else if is_front_payload dt
      then res_bind (peek src so dl) (\<lambda>v. Inr (Some (v, dl)))
      else Inr None)"

text \<open>
  \<open>copyData\<close> into the block \<open>dst\<close>; \<open>dp\<close> is the private offset of the field. The
  payload length is a host integer.
\<close>

definition copyData :: "field_info \<Rightarrow> nat \<Rightarrow> bytes \<Rightarrow> field_info \<Rightarrow> bytes \<Rightarrow> nat \<Rightarrow> bytes res" where
  "copyData dfi dp dst sfi src modifier =
     (let dt = ftype dfi; st = ftype sfi; i = unat (offset dfi) in
      if ie_id dt \<noteq> ie_id st \<or> enterprise dt \<noteq> enterprise st then Inr dst
      else
        res_bind (fitted dt st src (unat (offset sfi))) (\<lambda>v.
        case v of
          None \<Rightarrow> Inr dst
        | Some (bs, copylen) \<Rightarrow>
            res_bind (poke dst i bs) (\<lambda>dst1.
            res_bind (if is_front_payload dt then poke dst1 (dp + 4) (rev (be_bytes 4 copylen)) else Inr dst1) (\<lambda>dst2.
            apply_modifier dt i modifier dst2))))"

text \<open>The associated mask of an address.\<close>

definition copy_mask :: "template_info \<Rightarrow> bytes \<Rightarrow> field_info \<Rightarrow> u16 \<Rightarrow> bytes \<Rightarrow> bytes res" where
  "copy_mask ti src hfi k d =
     (case getFieldInfo ti k 0 of
        None \<Rightarrow> Inr d
      | Some tfi \<Rightarrow>
          (if ie_length (ftype hfi) \<noteq> 5 then Inr d
           else if ie_length (ftype tfi) = 1
           then res_bind (rd8 src (unat (offset tfi))) (\<lambda>m. poke d (unat (offset hfi) + 4) [m])
           else Inr d))"

definition fill_field :: "template_info \<Rightarrow> bytes \<Rightarrow> field_info \<Rightarrow> nat \<Rightarrow> nat \<Rightarrow> bytes \<Rightarrow> bytes res" where
  "fill_field ti src hfi dp m d =
     (let t = ftype hfi in
      case getFieldInfo ti (ie_id t) (enterprise t) of
        Some tfi \<Rightarrow>
          res_bind (copyData hfi dp d tfi src m) (\<lambda>d1.
          if ie_id t = IPFIX_TYPEID_sourceIPv4Address
          then copy_mask ti src hfi IPFIX_TYPEID_sourceIPv4PrefixLength d1
          else if ie_id t = IPFIX_TYPEID_destinationIPv4Address
          then copy_mask ti src hfi IPFIX_TYPEID_destinationIPv4PrefixLength d1
          else Inr d1)
      | None \<Rightarrow> poke d (unat (offset hfi)) (replicate (unat (ie_length t)) 0))"

fun fill_block :: "template_info \<Rightarrow> bytes \<Rightarrow> field_info list \<Rightarrow> nat list \<Rightarrow> nat list \<Rightarrow> bytes \<Rightarrow> bytes res" where
  "fill_block ti src (hfi # hfis) (dp # dps) (m # ms) d =
     res_bind (fill_field ti src hfi dp m d) (\<lambda>d1. fill_block ti src hfis dps ms d1)"
| "fill_block ti src _ _ _ d = Inr d"

text \<open>
  \<open>aggregateDataRecord\<close> for a record with template \<open>ti\<close> and data \<open>src\<close>; \<open>mem\<close>
  is what the memory of the new block held.
\<close>

definition new_block :: "hashtable \<Rightarrow> bytes \<Rightarrow> bytes" where
  "new_block ht mem = take (unat (fieldLength ht)) mem @ replicate (unat (privDataLength ht)) 0"

definition aggregateDataRecord :: "bytes \<Rightarrow> template_info \<Rightarrow> bytes \<Rightarrow> int \<Rightarrow> hashtable \<Rightarrow> hashtable res option" where
  "aggregateDataRecord mem ti src now ht =
     ro_bind (Some (agg_lock ht)) (\<lambda>ht1.
     ro_bind (Some (fill_block ti src (fieldInfo (dataTemplate ht1)) (privDataOffset ht1)
                      (fieldModifier ht1) (new_block ht1 mem))) (\<lambda>htdata.
     ro_bind (bufferDataBlock htdata now ht1) (\<lambda>ht2.
     Some (Inr (agg_release ht2)))))"

end
