(* ===== verification/Hashtable_Heap.thy ===== *)
theory Hashtable_Heap
  imports Flow_Hashtable "HOL-Library.Multiset"
begin

text \<open>
  The pointer structure of the flow hashtable: spill chains, export list and their links to
  each other. Every operation on buckets keeps the structure, and what it does is described on the
  sequence of flows that are held, in the order of the export list.
\<close>

interpretation bucket_links: linked b_next b_prev
    "\<lambda>v c. c\<lparr>b_next := v\<rparr>" "\<lambda>v c. c\<lparr>b_prev := v\<rparr>"
  by unfold_locales simp_all

section \<open>The invariant\<close>

text \<open>The bucket of a node of the export list.\<close>

definition node_bucket :: "hashtable \<Rightarrow> nat \<Rightarrow> nat option" where
  "node_bucket ht n = (case bl_nodes (exportList ht) n of None \<Rightarrow> None | Some c \<Rightarrow> le_bucket c)"

definition block_size :: "hashtable \<Rightarrow> nat" where
  "block_size ht = unat (fieldLength ht) + unat (privDataLength ht)"

text \<open>Spill chains: \<open>cs h\<close> are the buckets of slot \<open>h\<close>.\<close>

definition chains_inv :: "hashtable \<Rightarrow> (nat \<Rightarrow> nat list) \<Rightarrow> bool" where
  "chains_inv ht cs \<longleftrightarrow>
     (\<forall>h < length (buckets ht).
        chain b_next b_prev (bheap ht) None (buckets ht ! h) (cs h) None \<and> distinct (cs h) \<and>
        (\<forall>a \<in> set (cs h). \<forall>b. bheap ht a = Some b \<longrightarrow> inTable b \<and> unat (b_hash b) = h)) \<and>
     (\<forall>a b. bheap ht a = Some b \<longrightarrow> inTable b \<longrightarrow>
        unat (b_hash b) < length (buckets ht) \<and> a \<in> set (cs (unat (b_hash b))))"

text \<open>Export list: \<open>xs\<close> are its nodes, one for each bucket.\<close>

definition nodes_inv :: "hashtable \<Rightarrow> nat list \<Rightarrow> bool" where
  "nodes_inv ht xs \<longleftrightarrow>
     bl_inv (exportList ht) xs \<and> dom (bl_nodes (exportList ht)) = set xs \<and>
     (\<forall>n \<in> set xs. \<exists>a b. node_bucket ht n = Some a \<and> bheap ht a = Some b \<and> listNode b = Some n) \<and>
     (\<forall>a b. bheap ht a = Some b \<longrightarrow> (\<exists>n \<in> set xs. listNode b = Some n \<and> node_bucket ht n = Some a))"

definition fresh_inv :: "hashtable \<Rightarrow> bool" where
  "fresh_inv ht \<longleftrightarrow> (\<forall>a \<in> dom (bheap ht) \<union> dom (bl_nodes (exportList ht)). a < nextAddr ht)"

definition blocks_inv :: "hashtable \<Rightarrow> bool" where
  "blocks_inv ht \<longleftrightarrow> (\<forall>a b. bheap ht a = Some b \<longrightarrow> length (b_data b) = block_size ht)"

definition heap_inv :: "hashtable \<Rightarrow> (nat \<Rightarrow> nat list) \<Rightarrow> nat list \<Rightarrow> bool" where
  "heap_inv ht cs xs \<longleftrightarrow> chains_inv ht cs \<and> nodes_inv ht xs \<and> fresh_inv ht \<and> blocks_inv ht"

text \<open>The flows held, in the order in which they will leave.\<close>

definition held :: "hashtable \<Rightarrow> nat list \<Rightarrow> bucket list" where
  "held ht xs = map (\<lambda>n. the (bheap ht (the (node_bucket ht n)))) xs"

text \<open>What \<open>removeBucket\<close> and the chain operations leave alone.\<close>

definition core :: "bucket \<Rightarrow> int \<times> int \<times> bytes \<times> nat option" where
  "core b = (inactiveExpireTime b, activeExpireTime b, b_data b, listNode b)"

lemma core_simps [simp]:
  "core (b\<lparr>b_next := v\<rparr>) = core b" "core (b\<lparr>b_prev := v\<rparr>) = core b" "core (b\<lparr>b_hash := h\<rparr>) = core b"
  "core (b\<lparr>inTable := t\<rparr>) = core b" "core (b\<lparr>forceExpiry := t\<rparr>) = core b"
  by (simp_all add: core_def)

text \<open>The configuration, which no operation changes after the construction.\<close>

definition config :: "hashtable \<Rightarrow> template_info \<times> nat list \<times> nat list \<times> u16 \<times> u16 \<times> bool \<times> u32 list \<times> nat list \<times> u32 \<times> u16 \<times> u16 \<times> source_id" where
  "config ht = (dataTemplate ht, privDataOffset ht, fieldModifier ht, fieldLength ht, privDataLength ht,
     biflowAggregation ht, revKeyMapper ht, flowReverseMapper ht, htableSize ht, inactiveTimeout ht,
     activeTimeout ht, ht_sourceID ht)"

definition frame :: "hashtable \<Rightarrow> hashtable \<Rightarrow> bool" where
  "frame ht ht' \<longleftrightarrow>
     config ht' = config ht \<and> length (buckets ht') = length (buckets ht) \<and> ht_sent ht' = ht_sent ht \<and>
     nextAddr ht' = nextAddr ht \<and> exportList ht' = exportList ht \<and>
     (\<forall>a. map_option core (bheap ht' a) = map_option core (bheap ht a))"

text \<open>Every bucket of the second state is one of the first, and no bucket has entered the table.\<close>

definition survives :: "hashtable \<Rightarrow> hashtable \<Rightarrow> bool" where
  "survives ht ht' \<longleftrightarrow>
     (\<forall>a c. bheap ht' a = Some c \<longrightarrow>
        (\<exists>b. bheap ht a = Some b \<and> core c = core b \<and> (inTable c \<longrightarrow> inTable b \<and> b_hash c = b_hash b)))"

lemma survives_refl [simp]: "survives ht ht"
  by (simp add: survives_def)

lemma survives_same: "bheap ht' = bheap ht \<Longrightarrow> survives ht ht'"
  by (simp add: survives_def)

lemma survives_trans: "survives a b \<Longrightarrow> survives b c \<Longrightarrow> survives a c"
  unfolding survives_def by metis

lemma frame_refl [simp]: "frame ht ht"
  by (simp add: frame_def)

lemma frame_trans: "frame a b \<Longrightarrow> frame b c \<Longrightarrow> frame a c"
  by (simp add: frame_def)

lemma config_block_size: "config ht' = config ht \<Longrightarrow> block_size ht' = block_size ht"
  by (simp add: config_def block_size_def)

lemma frame_bucket:
  assumes "frame ht ht'" and "bheap ht a = Some b"
  obtains b' where "bheap ht' a = Some b'" and "core b' = core b"
proof -
  have "map_option core (bheap ht' a) = map_option core (bheap ht a)" using assms(1) by (simp add: frame_def)
  then show ?thesis using assms(2) that by (cases "bheap ht' a") auto
qed

lemma frame_bucket_rev:
  assumes "frame ht ht'" and "bheap ht' a = Some b'"
  obtains b where "bheap ht a = Some b" and "core b' = core b"
proof -
  have "map_option core (bheap ht' a) = map_option core (bheap ht a)" using assms(1) by (simp add: frame_def)
  then show ?thesis using assms(2) that by (cases "bheap ht a") auto
qed

lemma core_eqD: "core b' = core b \<Longrightarrow>
   b_data b' = b_data b \<and> listNode b' = listNode b \<and>
   inactiveExpireTime b' = inactiveExpireTime b \<and> activeExpireTime b' = activeExpireTime b"
  by (simp add: core_def)

lemma nodes_inv_frame:
  assumes "frame ht ht'" and "nodes_inv ht xs"
  shows "nodes_inv ht' xs"
proof -
  have e: "exportList ht' = exportList ht" using assms(1) by (simp add: frame_def)
  then have nb: "node_bucket ht' = node_bucket ht" by (simp add: node_bucket_def fun_eq_iff)
  have "\<exists>a b. node_bucket ht n = Some a \<and> bheap ht' a = Some b \<and> listNode b = Some n"
    if "n \<in> set xs" for n
  proof -
    obtain a b where ab: "node_bucket ht n = Some a" "bheap ht a = Some b" "listNode b = Some n"
      using assms(2) \<open>n \<in> set xs\<close> by (auto simp: nodes_inv_def)
    then obtain b' where "bheap ht' a = Some b'" "core b' = core b"
      using frame_bucket [OF assms(1)] by metis
    then show ?thesis using ab core_eqD [of b' b] by simp
  qed
  moreover have "\<exists>n \<in> set xs. listNode b' = Some n \<and> node_bucket ht n = Some a"
    if "bheap ht' a = Some b'" for a b'
  proof -
    obtain b where "bheap ht a = Some b" "core b' = core b"
      using frame_bucket_rev [OF assms(1) \<open>bheap ht' a = Some b'\<close>] by metis
    moreover have "\<exists>n \<in> set xs. listNode b = Some n \<and> node_bucket ht n = Some a"
      using assms(2) \<open>bheap ht a = Some b\<close> by (simp add: nodes_inv_def)
    ultimately show ?thesis using core_eqD [of b' b] by simp
  qed
  moreover have "bl_inv (exportList ht) xs" "dom (bl_nodes (exportList ht)) = set xs"
    using assms(2) by (simp_all add: nodes_inv_def)
  ultimately show ?thesis unfolding nodes_inv_def e nb by blast
qed

lemma frame_dom: "frame ht ht' \<Longrightarrow> dom (bheap ht') = dom (bheap ht)"
  by (auto elim: frame_bucket frame_bucket_rev)

lemma fresh_inv_frame: "frame ht ht' \<Longrightarrow> fresh_inv ht \<Longrightarrow> fresh_inv ht'"
  using frame_dom [of ht ht'] by (simp add: fresh_inv_def frame_def)

lemma blocks_inv_frame:
  assumes "frame ht ht'" and "blocks_inv ht"
  shows "blocks_inv ht'"
  unfolding blocks_inv_def
proof (intro allI impI)
  fix a b' assume "bheap ht' a = Some b'"
  then obtain b where "bheap ht a = Some b" "core b' = core b"
    by (rule frame_bucket_rev [OF assms(1)])
  then show "length (b_data b') = block_size ht'"
    using assms core_eqD [of b' b] config_block_size [of ht' ht] by (auto simp: blocks_inv_def frame_def)
qed

lemma held_frame:
  assumes "frame ht ht'" and "nodes_inv ht xs"
  shows "map core (held ht' xs) = map core (held ht xs)"
proof -
  have e: "exportList ht' = exportList ht" using assms(1) by (simp add: frame_def)
  then have nb: "node_bucket ht' = node_bucket ht" by (simp add: node_bucket_def fun_eq_iff)
  have "core (the (bheap ht' (the (node_bucket ht n)))) = core (the (bheap ht (the (node_bucket ht n))))"
    if n: "n \<in> set xs" for n
  proof -
    obtain a b where ab: "node_bucket ht n = Some a" "bheap ht a = Some b"
      using assms(2) n by (auto simp: nodes_inv_def)
    then obtain b' where "bheap ht' a = Some b'" "core b' = core b"
      using frame_bucket [OF assms(1)] by metis
    then show ?thesis using ab by simp
  qed
  then show ?thesis by (simp add: held_def nb)
qed

section \<open>Taking a bucket out of its chain\<close>

lemma bucket_at_ok: "bheap ht a = Some b \<Longrightarrow> bucket_at ht (Some a) = Inr b"
  by (simp add: bucket_at_def)

lemma bucket_upd_ok:
  "bheap ht a = Some b \<Longrightarrow> bucket_upd (Some a) f ht = Inr (ht\<lparr>bheap := (bheap ht)(a \<mapsto> f b)\<rparr>)"
  by (simp add: bucket_upd_def)

lemma slot_upd_ok:
  "unat h < length (buckets ht) \<Longrightarrow> slot_upd h p ht = Inr (ht\<lparr>buckets := (buckets ht)[unat h := p]\<rparr>)"
  by (simp add: slot_upd_def)

lemma slot_at_ok: "unat h < length (buckets ht) \<Longrightarrow> slot_at ht h = Inr (buckets ht ! unat h)"
  by (simp add: slot_at_def)

lemma chains_inv_chain:
  assumes "chains_inv ht cs" and "h < length (buckets ht)"
  shows "chain b_next b_prev (bheap ht) None (buckets ht ! h) (cs h) None" and "distinct (cs h)"
    and "a \<in> set (cs h) \<Longrightarrow> \<exists>b. bheap ht a = Some b \<and> inTable b \<and> unat (b_hash b) = h"
proof -
  show ch: "chain b_next b_prev (bheap ht) None (buckets ht ! h) (cs h) None" and "distinct (cs h)"
    using assms by (simp_all add: chains_inv_def)
  assume a: "a \<in> set (cs h)"
  then obtain b where b: "bheap ht a = Some b" using chain_alloc [OF ch] by blast
  moreover have "\<forall>b. bheap ht a = Some b \<longrightarrow> inTable b \<and> unat (b_hash b) = h"
    using assms a by (simp add: chains_inv_def)
  ultimately show "\<exists>b. bheap ht a = Some b \<and> inTable b \<and> unat (b_hash b) = h" by blast
qed

lemma chains_disjoint:
  assumes "chains_inv ht cs" and "h < length (buckets ht)" and "h' < length (buckets ht)" and "h \<noteq> h'"
  shows "set (cs h) \<inter> set (cs h') = {}"
  using chains_inv_chain(3) [OF assms(1,2)] chains_inv_chain(3) [OF assms(1,3)] assms(4) by fastforce

text \<open>The heap after the neighbours of a bucket have been linked to each other.\<close>

definition relink :: "(nat \<Rightarrow> bucket option) \<Rightarrow> nat option \<Rightarrow> nat option \<Rightarrow> nat \<Rightarrow> bucket option" where
  "relink H l n =
     (let H1 = (case l of None \<Rightarrow> H | Some x \<Rightarrow> H(x \<mapsto> (the (H x))\<lparr>b_next := n\<rparr>))
      in (case n of None \<Rightarrow> H1 | Some y \<Rightarrow> H1(y \<mapsto> (the (H1 y))\<lparr>b_prev := l\<rparr>)))"

lemma relink_other: "l \<noteq> Some x \<Longrightarrow> n \<noteq> Some x \<Longrightarrow> relink H l n x = H x"
  by (auto simp: relink_def Let_def split: option.splits)

lemma relink_core:
  assumes "\<And>x. l = Some x \<Longrightarrow> H x \<noteq> None" and "\<And>x. n = Some x \<Longrightarrow> H x \<noteq> None"
  shows "map_option (\<lambda>b. (core b, inTable b, b_hash b)) (relink H l n x) =
         map_option (\<lambda>b. (core b, inTable b, b_hash b)) (H x)"
  using assms by (auto simp: relink_def Let_def split: option.splits)

lemma relink_chain:
  assumes "chain b_next b_prev H None p (xs @ x # ys) None" and "distinct (xs @ x # ys)"
  shows "chain b_next b_prev (relink H (last_ptr None xs) (first_ptr ys None)) None
           (if xs = [] then first_ptr ys None else p) (xs @ ys) None"
  by (rule bucket_links.chain_unlink [OF assms refl]) (simp add: relink_def Let_def)

lemma removeBucket_run:
  assumes b: "bheap ht a = Some b"
    and l: "b_prev b = last_ptr None xs" "\<And>x. last_ptr None xs = Some x \<Longrightarrow> bheap ht x \<noteq> None \<and> x \<noteq> a"
    and n: "b_next b = first_ptr ys None" "\<And>x. first_ptr ys None = Some x \<Longrightarrow> bheap ht x \<noteq> None \<and> x \<noteq> a"
    and h: "unat (b_hash b) < length (buckets ht)"
  shows "\<exists>s1 s2. removeBucket (Some a) ht = Inr (ht\<lparr>statMultiEntries := s1, statEmptyBuckets := s2,
           buckets := (if xs = [] then (buckets ht)[unat (b_hash b) := first_ptr ys None] else buckets ht),
           bheap := (relink (bheap ht) (last_ptr None xs) (first_ptr ys None))
             (a \<mapsto> b\<lparr>b_next := None, b_prev := None, b_hash := 0, inTable := False\<rparr>)\<rparr>)"
proof -
  let ?m = "if b_next b \<noteq> None \<or> b_prev b \<noteq> None then statMultiEntries ht - 1 else statMultiEntries ht"
  let ?e = "if b_next b = None \<and> b_prev b = None then statEmptyBuckets ht + 1 else statEmptyBuckets ht"
  let ?ht1 = "ht\<lparr>statMultiEntries := ?m, statEmptyBuckets := ?e\<rparr>"
  let ?H1 = "case last_ptr None xs of None \<Rightarrow> bheap ht
             | Some x \<Rightarrow> (bheap ht)(x \<mapsto> (the (bheap ht x))\<lparr>b_next := first_ptr ys None\<rparr>)"
  let ?ht2 = "?ht1\<lparr>buckets := (if xs = [] then (buckets ht)[unat (b_hash b) := first_ptr ys None] else buckets ht),
                   bheap := ?H1\<rparr>"
  have xs: "last_ptr None xs = None \<longleftrightarrow> xs = []" by (auto simp: last_ptr_def)
  have 1: "(if b_prev b \<noteq> None then bucket_upd (b_prev b) (\<lambda>c. c\<lparr>b_next := b_next b\<rparr>) ?ht1
            else slot_upd (b_hash b) (b_next b) ?ht1) = Inr ?ht2"
  proof (cases "last_ptr None xs")
    case None
    then show ?thesis using l(1) n(1) h xs by (simp add: slot_upd_ok)
  next
    case (Some x)
    then obtain c where "bheap ht x = Some c" using l(2) by blast
    then show ?thesis using l(1) n(1) Some xs by (simp add: bucket_upd_ok)
  qed
  let ?H2 = "relink (bheap ht) (last_ptr None xs) (first_ptr ys None)"
  have 2: "(if b_next b \<noteq> None then bucket_upd (b_next b) (\<lambda>c. c\<lparr>b_prev := b_prev b\<rparr>) ?ht2 else Inr ?ht2)
           = Inr (?ht2\<lparr>bheap := ?H2\<rparr>)"
  proof (cases "first_ptr ys None")
    case None
    then have "b_next b = None" using n(1) by simp
    moreover have "?H2 = ?H1" unfolding relink_def Let_def None by simp
    ultimately show ?thesis by simp
  next
    case (Some y)
    have "?H1 y \<noteq> None" using n(2) [OF Some] by (auto split: option.split)
    then obtain c where "?H1 y = Some c" by blast
    moreover have "b_next b = Some y" using n(1) Some by simp
    moreover have "?H2 = ?H1(y \<mapsto> (the (?H1 y))\<lparr>b_prev := b_prev b\<rparr>)"
      unfolding relink_def Let_def Some l(1) by simp
    ultimately show ?thesis by (simp add: bucket_upd_ok)
  qed
  have "last_ptr None xs \<noteq> Some a" "first_ptr ys None \<noteq> Some a" using l(2) n(2) by blast+
  then have "?H2 a = Some b" using b by (simp add: relink_other)
  then have 3: "bucket_upd (Some a) f (?ht2\<lparr>bheap := ?H2\<rparr>) = Inr (?ht2\<lparr>bheap := ?H2(a \<mapsto> f b)\<rparr>)" for f
    by (simp add: bucket_upd_ok)
  show ?thesis
    unfolding removeBucket_def bucket_at_ok [of ht a b, OF b] res_bind_Inr Let_def 1 2 3 by (intro exI) simp
qed

lemma removeBucket_ok:
  assumes inv: "chains_inv ht cs" and b: "bheap ht a = Some b" and t: "inTable b"
  shows "\<exists>ht'. removeBucket (Some a) ht = Inr ht' \<and>
    chains_inv ht' (cs(unat (b_hash b) := remove1 a (cs (unat (b_hash b))))) \<and> frame ht ht' \<and>
    bheap ht' a = Some (b\<lparr>b_next := None, b_prev := None, b_hash := 0, inTable := False\<rparr>) \<and>
    survives ht ht'"
proof -
  let ?h = "unat (b_hash b)"
  have h: "?h < length (buckets ht)" and a: "a \<in> set (cs ?h)"
    using inv b t by (auto simp: chains_inv_def)
  note ch = chains_inv_chain [OF inv h]
  obtain xs ys where cs: "cs ?h = xs @ a # ys" using a by (meson split_list)
  have d: "distinct (xs @ a # ys)" using ch(2) cs by simp
  have ch': "chain b_next b_prev (bheap ht) None (buckets ht ! ?h) (xs @ a # ys) None" using ch(1) cs by simp
  let ?l = "last_ptr None xs" and ?n = "first_ptr ys None"
  have links: "b_prev b = ?l" "b_next b = ?n"
    using chain_at [OF ch'] b by (metis option.inject)+
  have l: "x \<in> set xs" if "?l = Some x" for x
    using that by (auto simp: last_ptr_def split: if_splits)
  have n: "x \<in> set ys" if "?n = Some x" for x
    using that by (cases ys) auto
  have alloc: "bheap ht x \<noteq> None" if "x \<in> set xs \<union> set ys" for x
    using chain_alloc [OF ch', of x] that by auto
  let ?H = "relink (bheap ht) ?l ?n"
  let ?b' = "b\<lparr>b_next := None, b_prev := None, b_hash := 0, inTable := False\<rparr>"
  let ?B = "if xs = [] then (buckets ht)[?h := ?n] else buckets ht"
  obtain s1 s2 where run: "removeBucket (Some a) ht =
      Inr (ht\<lparr>statMultiEntries := s1, statEmptyBuckets := s2, buckets := ?B, bheap := ?H(a \<mapsto> ?b')\<rparr>)"
  proof -
    have 1: "bheap ht x \<noteq> None \<and> x \<noteq> a" if "?l = Some x" for x
      using alloc l [OF that] d by auto
    have 2: "bheap ht x \<noteq> None \<and> x \<noteq> a" if "?n = Some x" for x
      using alloc n [OF that] d by auto
    show ?thesis using removeBucket_run [OF b links(1) 1 links(2) 2 h] that by blast
  qed
  let ?ht' = "ht\<lparr>statMultiEntries := s1, statEmptyBuckets := s2, buckets := ?B, bheap := ?H(a \<mapsto> ?b')\<rparr>"
  have core: "map_option (\<lambda>b. (core b, inTable b, b_hash b)) (?H x) =
              map_option (\<lambda>b. (core b, inTable b, b_hash b)) (bheap ht x)" for x
    by (rule relink_core) (use alloc l n in blast)+
  have keep: "\<exists>d. bheap ht x = Some d \<and> core c = core d \<and> inTable c = inTable d \<and> b_hash c = b_hash d"
    if "?H x = Some c" for x c
    using core [of x] that by (cases "bheap ht x") auto
  have outside: "?H x = bheap ht x" if "x \<notin> set (xs @ a # ys)" for x
    by (rule relink_other) (use l n that in auto)
  have len: "length ?B = length (buckets ht)" by simp
  have "chains_inv ?ht' (cs(?h := remove1 a (cs ?h)))"
    unfolding chains_inv_def
  proof (intro conjI allI impI ballI)
    fix k assume "k < length (buckets ?ht')"
    then have k: "k < length (buckets ht)" by (simp split: if_splits)
    show "chain b_next b_prev (bheap ?ht') None (buckets ?ht' ! k) ((cs(?h := remove1 a (cs ?h))) k) None"
    proof (cases "k = ?h")
      case True
      have "remove1 a (cs ?h) = xs @ ys" using d by (simp add: cs remove1_append)
      moreover have "buckets ?ht' ! k = (if xs = [] then ?n else buckets ht ! ?h)" using True h by simp
      ultimately show ?thesis using relink_chain [OF ch' d] d True by simp
    next
      case False
      have "set (cs k) \<inter> set (cs ?h) = {}" using chains_disjoint [OF inv k h False] .
      then have "\<forall>x \<in> set (cs k). x \<notin> set (xs @ a # ys)" unfolding cs by blast
      then have "chain b_next b_prev (?H(a \<mapsto> ?b')) None (buckets ht ! k) (cs k) None"
        using chains_inv_chain(1) [OF inv k] outside
        by (subst chain_cong [where H' = "bheap ht"]) auto
      moreover have "buckets ?ht' ! k = buckets ht ! k" using False by simp
      ultimately show ?thesis using False by simp
    qed
    show "distinct ((cs(?h := remove1 a (cs ?h))) k)"
      using chains_inv_chain(2) [OF inv k] by (cases "k = ?h") (simp_all add: distinct_remove1)
  next
    fix k x c assume "k < length (buckets ?ht')" and x: "x \<in> set ((cs(?h := remove1 a (cs ?h))) k)"
      and c: "bheap ?ht' x = Some c"
    then have k: "k < length (buckets ht)" by (simp split: if_splits)
    have xk: "x \<in> set (cs k)" and "x \<noteq> a"
    proof -
      show xk: "x \<in> set (cs k)" using x set_remove1_subset by (cases "k = ?h") fastforce+
      show "x \<noteq> a"
      proof
        assume "x = a"
        then have "k = ?h" using chains_inv_chain(3) [OF inv k xk] b by auto
        then show False using x \<open>x = a\<close> ch(2) by simp
      qed
    qed
    then show "inTable c" and "unat (b_hash c) = k"
      using keep [of x c] c chains_inv_chain(3) [OF inv k xk] by auto
  next
    fix x c assume c: "bheap ?ht' x = Some c" and "inTable c"
    then have xa: "x \<noteq> a" by auto
    then obtain d where d: "bheap ht x = Some d" "inTable d" "b_hash c = b_hash d"
      using keep [of x c] c \<open>inTable c\<close> by auto
    then have "unat (b_hash d) < length (buckets ht) \<and> x \<in> set (cs (unat (b_hash d)))"
      using inv by (simp add: chains_inv_def)
    then show "unat (b_hash c) < length (buckets ?ht')"
      and "x \<in> set ((cs(?h := remove1 a (cs ?h))) (unat (b_hash c)))"
      using d(3) xa by auto
  qed
  moreover have "frame ht ?ht'"
  proof -
    have "map_option core ((?H(a \<mapsto> ?b')) x) = map_option core (bheap ht x)" for x
      using core [of x] b by (cases "?H x"; cases "bheap ht x") auto
    then show ?thesis by (simp add: frame_def config_def)
  qed
  moreover have "survives ht ?ht'"
    unfolding survives_def
  proof (intro allI impI)
    fix x c assume c: "bheap ?ht' x = Some c"
    show "\<exists>d. bheap ht x = Some d \<and> core c = core d \<and> (inTable c \<longrightarrow> inTable d \<and> b_hash c = b_hash d)"
      using b c keep [of x c] by (cases "x = a") auto
  qed
  ultimately show ?thesis
    using run by (intro exI [of _ ?ht']) simp
qed

section \<open>The export list\<close>

lemma same_nodes_bucket:
  "same_nodes (exportList ht) l \<Longrightarrow> node_bucket (ht\<lparr>exportList := l\<rparr>) = node_bucket ht"
proof
  fix n
  assume "same_nodes (exportList ht) l"
  then have "map_option le_bucket (bl_nodes l n) = map_option le_bucket (bl_nodes (exportList ht) n)"
    by (simp add: same_nodes_def)
  then show "node_bucket (ht\<lparr>exportList := l\<rparr>) n = node_bucket ht n"
    by (cases "bl_nodes l n"; cases "bl_nodes (exportList ht) n") (auto simp: node_bucket_def)
qed

lemma same_nodes_dom: "same_nodes l l' \<Longrightarrow> dom (bl_nodes l') = dom (bl_nodes l)"
  unfolding same_nodes_def dom_def by (metis map_option_is_None)

lemma nodes_inv_reorder:
  assumes "nodes_inv ht xs" and "same_nodes (exportList ht) l" and "bl_inv l ys" and "set ys = set xs"
  shows "nodes_inv (ht\<lparr>exportList := l\<rparr>) ys"
  using assms same_nodes_dom [OF assms(2)] by (simp add: nodes_inv_def same_nodes_bucket)

lemma fresh_inv_reorder:
  "fresh_inv ht \<Longrightarrow> same_nodes (exportList ht) l \<Longrightarrow> fresh_inv (ht\<lparr>exportList := l\<rparr>)"
  by (simp add: fresh_inv_def same_nodes_dom)

lemma requeue_ok:
  assumes inv: "nodes_inv ht (xs @ n # ys)"
  shows "\<exists>l. res_bind (list_remove (Some n) ht) (list_push (Some n)) = Inr (ht\<lparr>exportList := l\<rparr>) \<and>
    bl_inv l (xs @ ys @ [n]) \<and> same_nodes (exportList ht) l"
proof -
  have bl: "bl_inv (exportList ht) (xs @ n # ys)" using inv by (simp add: nodes_inv_def)
  obtain l1 where l1: "bl_remove n (exportList ht) = Inr l1" "bl_inv l1 (xs @ ys)"
      "same_nodes (exportList ht) l1"
    using bl_remove_refines [OF bl] by blast
  have "n \<notin> set (xs @ ys)" using bl by (auto simp: bl_inv_def)
  moreover have "n \<in> dom (bl_nodes l1)"
    using inv same_nodes_dom [OF l1(3)] by (simp add: nodes_inv_def)
  then obtain c where "bl_nodes l1 n = Some c" by blast
  ultimately obtain l where "bl_push n l1 = Inr l" "bl_inv l ((xs @ ys) @ [n])" "same_nodes l1 l"
    using bl_push_refines [OF l1(2)] by blast
  then show ?thesis
    using l1 by (intro exI [of _ l]) (auto simp: list_remove_def list_push_def intro: same_nodes_trans)
qed

section \<open>Expiry\<close>

lemma chains_inv_free:
  assumes inv: "chains_inv ht cs" and b: "bheap ht a = Some b" "\<not> inTable b"
  shows "chains_inv (ht\<lparr>bheap := (bheap ht)(a := None)\<rparr>) cs"
proof -
  have a: "a \<notin> set (cs h)" if "h < length (buckets ht)" for h
    using chains_inv_chain(3) [OF inv that] b by fastforce
  then show ?thesis using inv by (simp add: chains_inv_def)
qed

text \<open>What the expiry of the first bucket of the list does.\<close>

definition sent_record :: "hashtable \<Rightarrow> bucket \<Rightarrow> ipfix_record" where
  "sent_record ht b = DataRecord (ht_sourceID ht) (dataTemplate ht) (unat (fieldLength ht)) (b_data b) 0"

lemma sent_record_config: "config ht' = config ht \<Longrightarrow> core b' = core b \<Longrightarrow> sent_record ht' b' = sent_record ht b"
  by (simp add: sent_record_def config_def core_def)

lemma bl_inv_free: "bl_inv l xs \<Longrightarrow> n \<notin> set xs \<Longrightarrow> bl_inv (l\<lparr>bl_nodes := (bl_nodes l)(n := None)\<rparr>) xs"
  by (simp add: bl_inv_def)

lemma nodes_inv_pop:
  assumes inv: "nodes_inv ht (n # xs)" and nb: "node_bucket ht n = Some a"
    and l: "bl_inv l xs" "same_nodes (exportList ht) l"
    and ht': "bheap ht' = (bheap ht)(a := None)" "exportList ht' = l\<lparr>bl_nodes := (bl_nodes l)(n := None)\<rparr>"
  shows "nodes_inv ht' xs"
proof -
  have n: "n \<notin> set xs" using inv by (simp add: nodes_inv_def bl_inv_def)
  obtain b where b: "bheap ht a = Some b" "listNode b = Some n"
    using inv nb by (auto simp: nodes_inv_def)
  have nb': "node_bucket ht' x = node_bucket ht x" if "x \<noteq> n" for x
    using fun_cong [OF same_nodes_bucket [OF l(2)], of x] that by (simp add: node_bucket_def ht'(2))
  have "dom (bl_nodes (exportList ht')) = set xs"
    using inv n same_nodes_dom [OF l(2)] by (auto simp: nodes_inv_def ht'(2))
  moreover have "\<exists>y c. node_bucket ht' x = Some y \<and> bheap ht' y = Some c \<and> listNode c = Some x"
    if x: "x \<in> set xs" for x
  proof -
    obtain y c where yc: "node_bucket ht x = Some y" "bheap ht y = Some c" "listNode c = Some x"
      using inv x by (auto simp: nodes_inv_def)
    then have "y \<noteq> a" using b n x by auto
    then show ?thesis using yc nb' [of x] n x ht'(1) by auto
  qed
  moreover have "\<exists>x \<in> set xs. listNode c = Some x \<and> node_bucket ht' x = Some y"
    if c: "bheap ht' y = Some c" for y c
  proof -
    have ya: "y \<noteq> a" "bheap ht y = Some c" using c ht'(1) by (auto split: if_splits)
    moreover have "\<forall>a b. bheap ht a = Some b \<longrightarrow> (\<exists>x \<in> set (n # xs). listNode b = Some x \<and> node_bucket ht x = Some a)"
      using inv by (simp add: nodes_inv_def)
    ultimately obtain x where x: "x \<in> set (n # xs)" "listNode c = Some x" "node_bucket ht x = Some y"
      by blast
    then have "x \<noteq> n" using nb ya by auto
    then show ?thesis using x nb' by auto
  qed
  moreover have "bl_inv (exportList ht') xs" using bl_inv_free [OF l(1) n] by (simp add: ht'(2))
  ultimately show ?thesis unfolding nodes_inv_def by blast
qed

lemma held_pop:
  assumes inv: "nodes_inv ht (n # xs)" and nb: "node_bucket ht n = Some a"
    and l: "same_nodes (exportList ht) l"
    and ht': "bheap ht' = (bheap ht)(a := None)" "exportList ht' = l\<lparr>bl_nodes := (bl_nodes l)(n := None)\<rparr>"
  shows "held ht' xs = held ht xs"
proof -
  have n: "n \<notin> set xs" using inv by (simp add: nodes_inv_def bl_inv_def)
  have "node_bucket ht' x = node_bucket ht x \<and> the (node_bucket ht x) \<noteq> a" if x: "x \<in> set xs" for x
  proof -
    have "x \<noteq> n" using n x by auto
    then have "node_bucket ht' x = node_bucket ht x"
      using fun_cong [OF same_nodes_bucket [OF l], of x] by (simp add: node_bucket_def ht'(2))
    moreover obtain y c where "node_bucket ht x = Some y" "bheap ht y = Some c" "listNode c = Some x"
      using inv x by (auto simp: nodes_inv_def)
    moreover obtain b where "bheap ht a = Some b" "listNode b = Some n"
      using inv nb by (auto simp: nodes_inv_def)
    ultimately show ?thesis using \<open>x \<noteq> n\<close> by auto
  qed
  then show ?thesis by (simp add: held_def ht'(1))
qed

lemma expire_bucket_ok:
  assumes inv: "heap_inv ht cs (n # xs)" and nb: "node_bucket ht n = Some a" and b: "bheap ht a = Some b"
  shows "\<exists>ht' cs'. expire_bucket n (Some a) ht = Inr ht' \<and> heap_inv ht' cs' xs \<and>
    config ht' = config ht \<and> length (buckets ht') = length (buckets ht) \<and>
    aggInProgress ht' = aggInProgress ht \<and>
    ht_sent ht' = ht_sent ht @ [sent_record ht b] \<and> map core (held ht' xs) = map core (held ht xs) \<and>
    survives ht ht'"
proof -
  have ch: "chains_inv ht cs" and no: "nodes_inv ht (n # xs)" and fr: "fresh_inv ht" and bs: "blocks_inv ht"
    using inv by (simp_all add: heap_inv_def)
  have lock: "aggInProgress ht1 = aggInProgress ht" if "removeBucket (Some a) ht = Inr ht1" for ht1
    using that by (auto simp: removeBucket_def bucket_upd_def slot_upd_def Let_def
        split: if_splits option.splits elim!: res_bind_InrE)
  obtain ht1 cs1 b1 where r: "(if inTable b then removeBucket (Some a) ht else Inr ht) = Inr ht1"
    and ch1: "chains_inv ht1 cs1" and f1: "frame ht ht1" and b1: "bheap ht1 a = Some b1" "\<not> inTable b1" "core b1 = core b"
    and s1: "survives ht ht1" and lock1: "aggInProgress ht1 = aggInProgress ht"
  proof (cases "inTable b")
    case True
    then show ?thesis using removeBucket_ok [OF ch b] that lock by auto
  next
    case False
    then show ?thesis using ch b that [of ht cs b] by simp
  qed
  have no1: "nodes_inv ht1 (n # xs)" by (rule nodes_inv_frame [OF f1 no])
  have c1: "config ht1 = config ht" "ht_sent ht1 = ht_sent ht" "exportList ht1 = exportList ht"
    "length (buckets ht1) = length (buckets ht)" "nextAddr ht1 = nextAddr ht"
    using f1 by (simp_all add: frame_def)
  have "bl_inv (exportList ht1) ([] @ n # xs)" using no1 by (simp add: nodes_inv_def)
  then obtain l where l: "bl_remove n (exportList ht1) = Inr l" "bl_inv l xs" "same_nodes (exportList ht1) l"
    using bl_remove_refines by fastforce
  define ht' where "ht' = ht1\<lparr>statExportedBuckets := statExportedBuckets ht1 + 1,
      ht_sent := ht_sent ht1 @ [sent_record ht1 b1], statRecordsSent := statRecordsSent ht1 + 1,
      exportList := l\<lparr>bl_nodes := (bl_nodes l)(n := None)\<rparr>, bheap := (bheap ht1)(a := None),
      statTotalEntries := statTotalEntries ht1 - 1\<rparr>"
  have run: "expire_bucket n (Some a) ht = Inr ht'"
    using b r b1 l(1) by (simp add: expire_bucket_def bucket_at_ok exportBucket_def bucket_at_def list_remove_def
        destroyBucket_def node_free_def sent_record_def ht'_def)
  have nb1: "node_bucket ht1 n = Some a" using nb c1(3) by (simp add: node_bucket_def)
  have heap': "bheap ht' = (bheap ht1)(a := None)" "exportList ht' = l\<lparr>bl_nodes := (bl_nodes l)(n := None)\<rparr>"
    by (simp_all add: ht'_def)
  have "chains_inv ht' cs1"
    using chains_inv_free [OF ch1 b1(1,2)] by (simp add: chains_inv_def ht'_def)
  moreover have "nodes_inv ht' xs" by (rule nodes_inv_pop [OF no1 nb1 l(2,3) heap'])
  moreover have "fresh_inv ht'"
    using fresh_inv_frame [OF f1 fr] same_nodes_dom [OF l(3)] by (auto simp: fresh_inv_def ht'_def)
  moreover have "blocks_inv ht'"
    using blocks_inv_frame [OF f1 bs] by (simp add: blocks_inv_def ht'_def block_size_def)
  moreover have "map core (held ht' xs) = map core (held ht xs)"
    using held_pop [OF no1 nb1 l(3) heap'] held_frame [OF f1 no] by (simp add: held_def)
  moreover have "survives ht1 ht'" by (auto simp: survives_def ht'_def)
  moreover have "ht_sent ht' = ht_sent ht @ [sent_record ht b]"
    using c1 sent_record_config [OF c1(1) b1(3)] by (simp add: ht'_def)
  moreover have "config ht' = config ht" using c1(1) by (simp add: ht'_def config_def)
  ultimately show ?thesis
    using run survives_trans [OF s1] c1(4) lock1
    by (intro exI [of _ ht'] exI [of _ cs1]) (simp add: heap_inv_def ht'_def)
qed

lemma core_lists:
  assumes "map core bs = map core cs"
  shows "length (takeWhile (is_expired now every) bs) = length (takeWhile (is_expired now every) cs)"
    and "config ht' = config ht \<Longrightarrow> map (sent_record ht') bs = map (sent_record ht) cs"
    and "map b_data bs = map b_data cs"
proof -
  have l: "list_all2 (\<lambda>b c. core b = core c) bs cs"
    using assms by (simp add: list_all2_conv_all_nth list_eq_iff_nth_eq)
  then show "length (takeWhile (is_expired now every) bs) = length (takeWhile (is_expired now every) cs)"
    by (induction rule: list_all2_induct) (auto simp: is_expired_def dest!: core_eqD)
  show "map b_data bs = map b_data cs"
    using l by (induction rule: list_all2_induct) (auto dest!: core_eqD)
  assume c: "config ht' = config ht"
  show "map (sent_record ht') bs = map (sent_record ht) cs"
    using l by (induction rule: list_all2_induct) (auto intro: sent_record_config [OF c])
qed

lemma head_node:
  assumes inv: "heap_inv ht cs (n # xs)"
  obtains c a b where "bl_head (exportList ht) = Some n" and "node_at ht n = Inr c" and "le_bucket c = Some a"
    and "node_bucket ht n = Some a" and "bheap ht a = Some b" and "hd (held ht (n # xs)) = b"
proof -
  have no: "nodes_inv ht (n # xs)" using inv by (simp add: heap_inv_def)
  then have hd: "bl_head (exportList ht) = Some n" by (simp add: nodes_inv_def bl_inv_def)
  obtain a b where ab: "node_bucket ht n = Some a" "bheap ht a = Some b"
    using no by (auto simp: nodes_inv_def)
  then obtain c where "bl_nodes (exportList ht) n = Some c" "le_bucket c = Some a"
    by (auto simp: node_bucket_def split: option.splits)
  then show ?thesis using that hd ab by (simp add: node_at_def held_def)
qed

definition expired_count :: "int \<Rightarrow> bool \<Rightarrow> hashtable \<Rightarrow> nat list \<Rightarrow> nat" where
  "expired_count now every ht xs = length (takeWhile (is_expired now every) (held ht xs))"

lemma expire_loop_ok:
  assumes "heap_inv ht cs xs"
  shows "\<exists>ht' cs'. expire_loop now every ht = Some (Inr ht') \<and>
    heap_inv ht' cs' (drop (expired_count now every ht xs) xs) \<and>
    config ht' = config ht \<and> length (buckets ht') = length (buckets ht) \<and>
    aggInProgress ht' = aggInProgress ht \<and>
    ht_sent ht' = ht_sent ht @ map (sent_record ht) (take (expired_count now every ht xs) (held ht xs)) \<and>
    map core (held ht' (drop (expired_count now every ht xs) xs)) =
      map core (drop (expired_count now every ht xs) (held ht xs)) \<and>
    survives ht ht'"
  using assms
proof (induction xs arbitrary: ht cs)
  case Nil
  then have "bl_head (exportList ht) = None" by (simp add: heap_inv_def nodes_inv_def bl_inv_def)
  then have "expire_loop now every ht = Some (Inr ht)" by (simp add: expire_loop.simps)
  then show ?case using Nil by (intro exI [of _ ht] exI [of _ cs]) (simp add: expired_count_def held_def)
next
  case (Cons n xs)
  obtain c a b where h: "bl_head (exportList ht) = Some n" "node_at ht n = Inr c" "le_bucket c = Some a"
      "node_bucket ht n = Some a" "bheap ht a = Some b" "hd (held ht (n # xs)) = b"
    by (rule head_node [OF Cons.prems])
  have hs: "held ht (n # xs) = b # held ht xs" using h by (simp add: held_def)
  show ?case
  proof (cases "is_expired now every b")
    case False
    then have "expire_loop now every ht = Some (Inr ht)"
      using h by (simp add: expire_loop.simps bucket_at_ok)
    moreover have "expired_count now every ht (n # xs) = 0" using False by (simp add: expired_count_def hs)
    ultimately show ?thesis using Cons.prems by (intro exI [of _ ht] exI [of _ cs]) simp
  next
    case True
    obtain ht1 cs1 where e: "expire_bucket n (Some a) ht = Inr ht1" "heap_inv ht1 cs1 xs"
        "config ht1 = config ht" "length (buckets ht1) = length (buckets ht)"
        "aggInProgress ht1 = aggInProgress ht" "ht_sent ht1 = ht_sent ht @ [sent_record ht b]"
        "map core (held ht1 xs) = map core (held ht xs)" "survives ht ht1"
      using expire_bucket_ok [OF Cons.prems h(4,5)] by blast
    let ?k = "expired_count now every ht1 xs"
    have k: "expired_count now every ht (n # xs) = Suc ?k"
      using True core_lists(1) [OF e(7)] by (simp add: expired_count_def hs)
    have "expire_loop now every ht = expire_loop now every ht1"
      using h e(1) True by (subst expire_loop.simps) (simp add: bucket_at_ok)
    moreover have "map (sent_record ht1) (take ?k (held ht1 xs)) = map (sent_record ht) (take ?k (held ht xs))"
      using core_lists(2) [OF _ e(3)] e(7) by (metis take_map)
    moreover have "map core (drop ?k (held ht1 xs)) = map core (drop ?k (held ht xs))"
      using e(7) by (metis drop_map)
    moreover obtain ht2 cs2 where "expire_loop now every ht1 = Some (Inr ht2)" "heap_inv ht2 cs2 (drop ?k xs)"
        "config ht2 = config ht1" "length (buckets ht2) = length (buckets ht1)"
        "aggInProgress ht2 = aggInProgress ht1"
        "ht_sent ht2 = ht_sent ht1 @ map (sent_record ht1) (take ?k (held ht1 xs))"
        "map core (held ht2 (drop ?k xs)) = map core (drop ?k (held ht1 xs))" "survives ht1 ht2"
      using Cons.IH [OF e(2)] by blast
    ultimately show ?thesis
      using e survives_trans [OF e(8)] by (intro exI [of _ ht2] exI [of _ cs2]) (simp add: k hs)
  qed
qed

lemma heap_inv_lock: "heap_inv (ht\<lparr>aggInProgress := t\<rparr>) = heap_inv ht"
  by (intro ext) (simp add: heap_inv_def chains_inv_def nodes_inv_def fresh_inv_def blocks_inv_def
      node_bucket_def block_size_def)

lemma held_lock: "held (ht\<lparr>aggInProgress := t\<rparr>) = held ht"
  by (intro ext) (simp add: held_def node_bucket_def)

lemma expireFlows_ok:
  assumes inv: "heap_inv ht cs xs" and lock: "\<not> aggInProgress ht"
  shows "\<exists>ht' cs'. expireFlows now every ht = Some (Inr ht') \<and>
    heap_inv ht' cs' (drop (expired_count now every ht xs) xs) \<and>
    config ht' = config ht \<and> length (buckets ht') = length (buckets ht) \<and> \<not> aggInProgress ht' \<and>
    ht_sent ht' = ht_sent ht @ map (sent_record ht) (take (expired_count now every ht xs) (held ht xs)) \<and>
    map core (held ht' (drop (expired_count now every ht xs) xs)) =
      map core (drop (expired_count now every ht xs) (held ht xs)) \<and>
    survives ht ht'"
proof -
  let ?ht1 = "ht\<lparr>aggInProgress := True\<rparr>"
  let ?k = "expired_count now every ht xs"
  have k: "expired_count now every ?ht1 xs = ?k" by (simp add: expired_count_def held_lock)
  show ?thesis
  proof (cases "bl_isEmpty (exportList ht)")
    case True
    then have "xs = []" using inv by (simp add: heap_inv_def nodes_inv_def bl_inv_def)
    then show ?thesis
      using True inv lock by (intro exI [of _ ht] exI [of _ cs])
        (simp add: expireFlows_def agg_lock_def agg_release_def expired_count_def held_def)
  next
    case False
    obtain ht2 cs2 where e: "expire_loop now every ?ht1 = Some (Inr ht2)" "heap_inv ht2 cs2 (drop ?k xs)"
        "config ht2 = config ?ht1" "length (buckets ht2) = length (buckets ?ht1)"
        "ht_sent ht2 = ht_sent ?ht1 @ map (sent_record ?ht1) (take ?k (held ?ht1 xs))"
        "map core (held ht2 (drop ?k xs)) = map core (drop ?k (held ?ht1 xs))" "survives ?ht1 ht2"
      using expire_loop_ok [of ?ht1 cs xs now every] inv unfolding k heap_inv_lock by blast
    have c: "config ?ht1 = config ht" by (simp add: config_def)
    have "sent_record ?ht1 = sent_record ht" by (simp add: sent_record_def fun_eq_iff)
    then show ?thesis
      using False lock e c
      by (intro exI [of _ "ht2\<lparr>aggInProgress := False\<rparr>"] exI [of _ cs2])
        (simp add: expireFlows_def agg_lock_def agg_release_def heap_inv_lock held_lock config_def survives_def)
  qed
qed

end
