(* ===== verification/Hashtable_Insert.thy ===== *)
theory Hashtable_Insert
  imports Hashtable_Heap
begin

text \<open>
  Changes of the flow hashtable that keep its pointer structure: editing a bucket in place
  and putting a new one in front of its spill chain and at the end of the export list.
\<close>

section \<open>Changing a bucket in place\<close>

lemma nodes_inv_bucket:
  assumes "nodes_inv ht xs" and "n \<in> set xs"
  obtains a b where "node_bucket ht n = Some a" and "bheap ht a = Some b" and "listNode b = Some n"
proof -
  have "\<exists>a b. node_bucket ht n = Some a \<and> bheap ht a = Some b \<and> listNode b = Some n"
    using assms by (simp add: nodes_inv_def)
  then show ?thesis using that by blast
qed

definition same_links :: "bucket \<Rightarrow> bucket \<Rightarrow> bool" where
  "same_links b c \<longleftrightarrow> b_next c = b_next b \<and> b_prev c = b_prev b \<and> inTable c = inTable b \<and>
     b_hash c = b_hash b \<and> listNode c = listNode b"

lemma chains_inv_edit:
  assumes "chains_inv ht cs" and "bheap ht a = Some b" and "same_links b c"
  shows "chains_inv (ht\<lparr>bheap := (bheap ht)(a \<mapsto> c)\<rparr>) cs"
proof -
  have "chain b_next b_prev ((bheap ht)(a \<mapsto> c)) q p zs e = chain b_next b_prev (bheap ht) q p zs e" for q p zs e
    using assms(2,3) by (intro chain_cong) (auto simp: same_links_def)
  then show ?thesis using assms by (auto simp: chains_inv_def same_links_def)
qed

lemma node_bucket_heap [simp]: "node_bucket (ht\<lparr>bheap := H\<rparr>) = node_bucket ht"
  by (simp add: node_bucket_def fun_eq_iff)

lemma nodes_inv_edit:
  assumes inv: "nodes_inv ht xs" and b: "bheap ht a = Some b" and c: "same_links b c"
  shows "nodes_inv (ht\<lparr>bheap := (bheap ht)(a \<mapsto> c)\<rparr>) xs"
proof -
  have "\<exists>y e. node_bucket ht n = Some y \<and> ((bheap ht)(a \<mapsto> c)) y = Some e \<and> listNode e = Some n"
    if n: "n \<in> set xs" for n
  proof -
    obtain y e where "node_bucket ht n = Some y" "bheap ht y = Some e" "listNode e = Some n"
      by (rule nodes_inv_bucket [OF inv n])
    then show ?thesis using b c by (cases "y = a") (auto simp: same_links_def)
  qed
  moreover have "\<exists>n \<in> set xs. listNode e = Some n \<and> node_bucket ht n = Some y"
    if e: "((bheap ht)(a \<mapsto> c)) y = Some e" for y e
  proof -
    obtain e' where "bheap ht y = Some e'" "listNode e = listNode e'"
      using e b c by (cases "y = a") (auto simp: same_links_def)
    then show ?thesis using inv by (simp add: nodes_inv_def)
  qed
  moreover have "bl_inv (exportList ht) xs" "dom (bl_nodes (exportList ht)) = set xs"
    using inv by (simp_all add: nodes_inv_def)
  ultimately show ?thesis unfolding nodes_inv_def by simp
qed

lemma heap_inv_edit:
  assumes "heap_inv ht cs xs" and "bheap ht a = Some b" and "same_links b c"
    and "length (b_data c) = block_size ht"
  shows "heap_inv (ht\<lparr>bheap := (bheap ht)(a \<mapsto> c)\<rparr>) cs xs"
  using assms chains_inv_edit [of ht cs a b c] nodes_inv_edit [of ht xs a b c]
  by (auto simp: heap_inv_def fresh_inv_def blocks_inv_def block_size_def)

text \<open>The place of a bucket in the export list.\<close>

lemma node_of_bucket:
  assumes inv: "nodes_inv ht xs" and b: "bheap ht a = Some b"
  obtains us n vs where "xs = us @ n # vs" and "listNode b = Some n" and "node_bucket ht n = Some a"
    and "\<forall>x \<in> set (us @ vs). node_bucket ht x \<noteq> Some a"
proof -
  have "\<exists>n \<in> set xs. listNode b = Some n \<and> node_bucket ht n = Some a"
    using inv b by (simp add: nodes_inv_def)
  then obtain n where n: "n \<in> set xs" "listNode b = Some n" "node_bucket ht n = Some a" by blast
  then obtain us vs where xs: "xs = us @ n # vs" by (meson split_list)
  have "node_bucket ht x \<noteq> Some a" if x: "x \<in> set (us @ vs)" for x
  proof
    assume "node_bucket ht x = Some a"
    moreover have "x \<in> set xs" using x xs by auto
    then obtain y c where "node_bucket ht x = Some y" "bheap ht y = Some c" "listNode c = Some x"
      by (rule nodes_inv_bucket [OF inv])
    ultimately have "x = n" using b n by auto
    moreover have "distinct xs" using inv by (simp add: nodes_inv_def bl_inv_def)
    ultimately show False using x xs by auto
  qed
  then show ?thesis using that xs n by blast
qed

lemma held_append [simp]: "held ht (us @ vs) = held ht us @ held ht vs"
  by (simp add: held_def)

lemma held_other:
  "\<forall>x \<in> set us. node_bucket ht x \<noteq> Some a \<and> node_bucket ht x \<noteq> None \<Longrightarrow>
   held (ht\<lparr>bheap := (bheap ht)(a := c)\<rparr>) us = held ht us"
  by (auto simp: held_def)

lemma held_edit:
  assumes inv: "nodes_inv ht xs" and b: "bheap ht a = Some b"
  obtains us n vs where "xs = us @ n # vs" and "listNode b = Some n" and "node_bucket ht n = Some a"
    and "held ht xs = held ht us @ b # held ht vs"
    and "\<And>c. held (ht\<lparr>bheap := (bheap ht)(a \<mapsto> c)\<rparr>) us = held ht us"
    and "\<And>c. held (ht\<lparr>bheap := (bheap ht)(a \<mapsto> c)\<rparr>) vs = held ht vs"
    and "\<And>c. held (ht\<lparr>bheap := (bheap ht)(a \<mapsto> c)\<rparr>) [n] = [c]"
proof -
  obtain us n vs where u: "xs = us @ n # vs" "listNode b = Some n" "node_bucket ht n = Some a"
      "\<forall>x \<in> set (us @ vs). node_bucket ht x \<noteq> Some a"
    by (rule node_of_bucket [OF inv b])
  moreover have "node_bucket ht x \<noteq> None" if "x \<in> set xs" for x
    using inv that by (auto simp: nodes_inv_def)
  ultimately have o: "\<forall>x \<in> set us. node_bucket ht x \<noteq> Some a \<and> node_bucket ht x \<noteq> None"
    "\<forall>x \<in> set vs. node_bucket ht x \<noteq> Some a \<and> node_bucket ht x \<noteq> None"
    by auto
  show ?thesis
    using that [OF u(1,2,3)] held_other [OF o(1)] held_other [OF o(2)] u b by (simp add: held_def)
qed

section \<open>A new bucket\<close>

lemma fresh_inv_None:
  assumes "fresh_inv ht" and "nextAddr ht \<le> x"
  shows "bheap ht x = None" and "bl_nodes (exportList ht) x = None"
proof -
  have "x \<notin> dom (bheap ht) \<union> dom (bl_nodes (exportList ht))"
    using assms by (metis fresh_inv_def not_le)
  then show "bheap ht x = None" and "bl_nodes (exportList ht) x = None" by (simp_all add: domIff)
qed

text \<open>The heap with the new bucket in front of its chain.\<close>

definition chain_front :: "(nat \<Rightarrow> bucket option) \<Rightarrow> nat option \<Rightarrow> nat \<Rightarrow> bucket \<Rightarrow> nat \<Rightarrow> bucket option" where
  "chain_front H p a c =
     (case p of None \<Rightarrow> H(a \<mapsto> c) | Some f \<Rightarrow> H(a \<mapsto> c, f \<mapsto> (the (H f))\<lparr>b_prev := Some a\<rparr>))"

definition new_bucket :: "hashtable \<Rightarrow> u32 \<Rightarrow> bytes \<Rightarrow> int \<Rightarrow> bucket" where
  "new_bucket ht h d now =
     \<lparr>inactiveExpireTime = now + int (unat (inactiveTimeout ht)),
      activeExpireTime = now + int (unat (activeTimeout ht)), b_data = d, forceExpiry = False,
      inTable = True, b_prev = None, b_next = buckets ht ! unat h, b_observationDomainID = 0,
      listNode = Some (nextAddr ht + 1), b_hash = h\<rparr>"

lemma insert_new_run:
  assumes inv: "heap_inv ht cs xs" and h: "unat h < length (buckets ht)"
  shows "\<exists>l. insert_new h d now ht = Inr (ht\<lparr>statTotalEntries := statTotalEntries ht + 1,
      buckets := (buckets ht)[unat h := Some (nextAddr ht)],
      bheap := chain_front (bheap ht) (buckets ht ! unat h) (nextAddr ht) (new_bucket ht h d now),
      exportList := l, nextAddr := nextAddr ht + 2\<rparr>) \<and>
    bl_inv l (xs @ [nextAddr ht + 1]) \<and>
    (\<forall>n. map_option le_bucket (bl_nodes l n) =
       (if n = nextAddr ht + 1 then Some (Some (nextAddr ht)) else map_option le_bucket (bl_nodes (exportList ht) n)))"
proof -
  let ?a = "nextAddr ht" and ?p = "buckets ht ! unat h"
  let ?L = "(exportList ht)\<lparr>bl_nodes := (bl_nodes (exportList ht))(?a + 1 \<mapsto> BucketListElement_reset\<lparr>le_bucket := Some ?a\<rparr>)\<rparr>"
  have ch: "chains_inv ht cs" and no: "nodes_inv ht xs" and fr: "fresh_inv ht"
    using inv by (simp_all add: heap_inv_def)
  have fresh: "bheap ht ?a = None" "bl_nodes (exportList ht) (?a + 1) = None"
    by (simp_all add: fresh_inv_None [OF fr])
  have "?a + 1 \<notin> set xs" using no fresh(2) by (auto simp: nodes_inv_def)
  moreover from this have "bl_inv ?L xs" using no by (simp add: nodes_inv_def bl_inv_def)
  ultimately obtain l where l: "bl_push (?a + 1) ?L = Inr l" "bl_inv l (xs @ [?a + 1])" "same_nodes ?L l"
    using bl_push_refines by fastforce
  have f: "\<exists>b. bheap ht x = Some b \<and> x \<noteq> ?a" if "?p = Some x" for x
  proof -
    have "x \<in> set (cs (unat h))"
      using chain_first [OF chains_inv_chain(1) [OF ch h]] that by (cases "cs (unat h)") auto
    then show ?thesis using chains_inv_chain(3) [OF ch h] fresh(1) by fastforce
  qed
  have "insert_new h d now ht = Inr (ht\<lparr>statTotalEntries := statTotalEntries ht + 1,
      buckets := (buckets ht)[unat h := Some ?a],
      bheap := chain_front (bheap ht) ?p ?a (new_bucket ht h d now), exportList := l, nextAddr := ?a + 2\<rparr>)"
  proof (cases ?p)
    case None
    then show ?thesis
      using h l(1) by (simp add: insert_new_def Let_def slot_at_ok createBucket_def slot_upd_ok bucket_upd_def
          node_new_def list_push_def chain_front_def new_bucket_def)
  next
    case (Some x)
    then obtain b where "bheap ht x = Some b" "x \<noteq> ?a" using f by blast
    then show ?thesis
      using Some h l(1) by (simp add: insert_new_def Let_def slot_at_ok createBucket_def slot_upd_ok bucket_upd_def
          node_new_def list_push_def chain_front_def new_bucket_def fun_upd_twist)
  qed
  then show ?thesis
    using l(2,3) by (intro exI [of _ l]) (simp add: same_nodes_def)
qed

lemma chain_front_other: "x \<noteq> a \<Longrightarrow> p \<noteq> Some x \<Longrightarrow> chain_front H p a c x = H x"
  by (auto simp: chain_front_def split: option.split)

lemma chain_front_new: "p \<noteq> Some a \<Longrightarrow> chain_front H p a c a = Some c"
  by (auto simp: chain_front_def split: option.split)

lemma chain_front_keeps:
  assumes "\<And>f. p = Some f \<Longrightarrow> H f \<noteq> None" and "x \<noteq> a"
  shows "map_option (\<lambda>b. (core b, inTable b, b_hash b)) (chain_front H p a c x) =
         map_option (\<lambda>b. (core b, inTable b, b_hash b)) (H x)"
  using assms by (auto simp: chain_front_def split: option.split)

lemma map_option_eqD:
  assumes "map_option g x = map_option g y" and "x = Some b"
  obtains c where "y = Some c" and "g c = g b"
  using assms by (cases y) auto

lemma chains_inv_table:
  "chains_inv ht cs \<Longrightarrow> bheap ht a = Some b \<Longrightarrow> inTable b \<Longrightarrow>
   unat (b_hash b) < length (buckets ht) \<and> a \<in> set (cs (unat (b_hash b)))"
  by (simp add: chains_inv_def)

lemma chains_inv_front:
  assumes inv: "chains_inv ht cs" and h: "h < length (buckets ht)" and a: "bheap ht a = None"
    and c: "b_prev c = None" "b_next c = buckets ht ! h" "inTable c" "unat (b_hash c) = h"
    and ht': "buckets ht' = (buckets ht)[h := Some a]" "bheap ht' = chain_front (bheap ht) (buckets ht ! h) a c"
  shows "chains_inv ht' (cs(h := a # cs h))"
proof -
  let ?p = "buckets ht ! h"
  note ch = chains_inv_chain [OF inv h]
  have p: "x \<in> set (cs h)" if "?p = Some x" for x
    using chain_first [OF ch(1)] that by (cases "cs h") auto
  have alloc: "bheap ht x \<noteq> None" if "x \<in> set (cs h)" for x using ch(3) [OF that] by auto
  have na: "a \<notin> set (cs k)" if "k < length (buckets ht)" for k
    using chains_inv_chain(3) [OF inv that, of a] a by auto
  have keeps: "map_option (\<lambda>b. (core b, inTable b, b_hash b)) (bheap ht' x) =
      map_option (\<lambda>b. (core b, inTable b, b_hash b)) (bheap ht x)" if "x \<noteq> a" for x
    unfolding ht' by (rule chain_front_keeps) (use p alloc that in auto)
  have new: "bheap ht' a = Some c" unfolding ht' by (rule chain_front_new) (use p na h in auto)
  show ?thesis
    unfolding chains_inv_def
  proof (intro conjI allI impI ballI)
    fix k assume "k < length (buckets ht')"
    then have k: "k < length (buckets ht)" by (simp add: ht')
    show "chain b_next b_prev (bheap ht') None (buckets ht' ! k) ((cs(h := a # cs h)) k) None"
    proof (cases "k = h")
      case True
      have "chain b_next b_prev (bheap ht') None (Some a) (a # cs h) None"
        unfolding ht'(2) by (rule bucket_links.chain_cons [OF ch(1,2) na [OF h] c(1,2)]) (simp add: chain_front_def)
      then show ?thesis using True h by (simp add: ht'(1))
    next
      case False
      have "bheap ht' x = bheap ht x" if "x \<in> set (cs k)" for x
        unfolding ht'(2) using chains_disjoint [OF inv k h False] that na [OF k] p
        by (intro chain_front_other) auto
      then have "chain b_next b_prev (bheap ht') None (buckets ht ! k) (cs k) None"
        using chains_inv_chain(1) [OF inv k] by (subst chain_cong [where H' = "bheap ht"]) auto
      then show ?thesis using False by (simp add: ht'(1))
    qed
    show "distinct ((cs(h := a # cs h)) k)"
      using chains_inv_chain(2) [OF inv k] ch(2) na [OF h] by (cases "k = h") auto
  next
    fix k x e assume "k < length (buckets ht')" and x: "x \<in> set ((cs(h := a # cs h)) k)" and e: "bheap ht' x = Some e"
    then have k: "k < length (buckets ht)" by (simp add: ht')
    show "inTable e" and "unat (b_hash e) = k"
    proof -
      have "inTable e \<and> unat (b_hash e) = k"
      proof (cases "x = a")
        case True
        then have "k = h" using x na [OF k] by (auto split: if_splits)
        then show ?thesis using True e new c by simp
      next
        case False
        then have "x \<in> set (cs k)" using x by (auto split: if_splits)
        then obtain b where "bheap ht x = Some b" "inTable b" "unat (b_hash b) = k"
          using chains_inv_chain(3) [OF inv k] by blast
        then show ?thesis using keeps [OF False] e by auto
      qed
      then show "inTable e" and "unat (b_hash e) = k" by simp_all
    qed
  next
    fix x e assume e: "bheap ht' x = Some e" and t: "inTable e"
    have "unat (b_hash e) < length (buckets ht) \<and> x \<in> set ((cs(h := a # cs h)) (unat (b_hash e)))"
    proof (cases "x = a")
      case True
      then show ?thesis using e new c h by simp
    next
      case False
      obtain b where b: "bheap ht x = Some b" "core b = core e \<and> inTable b = inTable e \<and> b_hash b = b_hash e"
        using map_option_eqD [OF keeps [OF False] e] by blast
      then show ?thesis using chains_inv_table [OF inv b(1)] t by auto
    qed
    then show "unat (b_hash e) < length (buckets ht')" and "x \<in> set ((cs(h := a # cs h)) (unat (b_hash e)))"
      by (simp_all add: ht')
  qed
qed

lemma nodes_inv_push:
  assumes inv: "nodes_inv ht xs" and a: "bheap ht a = None" and n: "n \<notin> set xs"
    and l: "bl_inv (exportList ht') (xs @ [n])"
    and nodes: "\<And>x. map_option le_bucket (bl_nodes (exportList ht') x) =
      (if x = n then Some (Some a) else map_option le_bucket (bl_nodes (exportList ht) x))"
    and new: "bheap ht' a = Some c" "listNode c = Some n"
    and keeps: "\<And>x. x \<noteq> a \<Longrightarrow> map_option core (bheap ht' x) = map_option core (bheap ht x)"
  shows "nodes_inv ht' (xs @ [n])" and "map core (held ht' xs) = map core (held ht xs)" and "held ht' [n] = [c]"
proof -
  have nb: "node_bucket ht' x = (if x = n then Some a else node_bucket ht x)" for x
    using nodes [of x] by (cases "bl_nodes (exportList ht') x"; cases "bl_nodes (exportList ht) x")
      (auto simp: node_bucket_def split: if_splits)
  have dom: "dom (bl_nodes (exportList ht')) = set (xs @ [n])"
  proof -
    have "bl_nodes (exportList ht') x \<noteq> None \<longleftrightarrow> x = n \<or> bl_nodes (exportList ht) x \<noteq> None" for x
      using nodes [of x] by (metis map_option_is_None option.distinct(1))
    then show ?thesis using inv by (auto simp: nodes_inv_def dom_def)
  qed
  have each: "\<exists>y e. node_bucket ht x = Some y \<and> y \<noteq> a \<and> bheap ht' y = Some e \<and> listNode e = Some x \<and>
      core e = core (the (bheap ht y))" if x: "x \<in> set xs" for x
  proof -
    obtain y b where y: "node_bucket ht x = Some y" "bheap ht y = Some b" "listNode b = Some x"
      by (rule nodes_inv_bucket [OF inv x])
    then have ya: "y \<noteq> a" using a by auto
    obtain e where "bheap ht' y = Some e" "core e = core b"
      using map_option_eqD [OF keeps [OF ya, symmetric] y(2)] by blast
    then show ?thesis using y ya core_eqD [of e b] by auto
  qed
  show "nodes_inv ht' (xs @ [n])"
    unfolding nodes_inv_def
  proof (intro conjI ballI allI impI)
    fix x assume x: "x \<in> set (xs @ [n])"
    show "\<exists>y e. node_bucket ht' x = Some y \<and> bheap ht' y = Some e \<and> listNode e = Some x"
    proof (cases "x = n")
      case True
      then show ?thesis using new nb by simp
    next
      case False
      then show ?thesis using each [of x] x nb by auto
    qed
  next
    fix y e assume e: "bheap ht' y = Some e"
    show "\<exists>x \<in> set (xs @ [n]). listNode e = Some x \<and> node_bucket ht' x = Some y"
    proof (cases "y = a")
      case True
      then show ?thesis using e new nb by simp
    next
      case False
      obtain b where b: "bheap ht y = Some b" "core b = core e"
        using map_option_eqD [OF keeps [OF False] e] by blast
      have "\<exists>x \<in> set xs. listNode b = Some x \<and> node_bucket ht x = Some y"
        using inv b(1) by (simp add: nodes_inv_def)
      then show ?thesis using core_eqD [OF b(2)] nb n by auto
    qed
  qed (use l dom in auto)
  show "map core (held ht' xs) = map core (held ht xs)"
  proof -
    have "core (the (bheap ht' (the (node_bucket ht' x)))) = core (the (bheap ht (the (node_bucket ht x))))"
      if x: "x \<in> set xs" for x
      using each [OF x] nb [of x] n x by auto
    then show ?thesis by (simp add: held_def)
  qed
  show "held ht' [n] = [c]" using new nb by (simp add: held_def)
qed

lemma insert_new_ok:
  assumes inv: "heap_inv ht cs xs" and h: "unat h < length (buckets ht)" and d: "length d = block_size ht"
  shows "\<exists>ht' a n c. insert_new h d now ht = Inr ht' \<and>
    heap_inv ht' (cs(unat h := a # cs (unat h))) (xs @ [n]) \<and>
    config ht' = config ht \<and> length (buckets ht') = length (buckets ht) \<and> ht_sent ht' = ht_sent ht \<and>
    aggInProgress ht' = aggInProgress ht \<and>
    map core (held ht' xs) = map core (held ht xs) \<and> held ht' [n] = [c] \<and>
    bheap ht' a = Some c \<and> inTable c \<and> b_hash c = h \<and> b_data c = d \<and>
    (\<forall>x e. x \<noteq> a \<longrightarrow> bheap ht' x = Some e \<longrightarrow>
       (\<exists>b. bheap ht x = Some b \<and> core e = core b \<and> inTable e = inTable b \<and> b_hash e = b_hash b))"
proof -
  let ?a = "nextAddr ht" and ?c = "new_bucket ht h d now"
  have ch: "chains_inv ht cs" and no: "nodes_inv ht xs" and fr: "fresh_inv ht" and bs: "blocks_inv ht"
    using inv by (simp_all add: heap_inv_def)
  obtain l where run: "insert_new h d now ht = Inr (ht\<lparr>statTotalEntries := statTotalEntries ht + 1,
      buckets := (buckets ht)[unat h := Some ?a],
      bheap := chain_front (bheap ht) (buckets ht ! unat h) ?a ?c, exportList := l, nextAddr := ?a + 2\<rparr>)"
    and l: "bl_inv l (xs @ [?a + 1])"
    and nodes: "\<And>n. map_option le_bucket (bl_nodes l n) =
       (if n = ?a + 1 then Some (Some ?a) else map_option le_bucket (bl_nodes (exportList ht) n))"
    using insert_new_run [OF inv h, of d now] by blast
  define ht' where "ht' = ht\<lparr>statTotalEntries := statTotalEntries ht + 1,
      buckets := (buckets ht)[unat h := Some ?a],
      bheap := chain_front (bheap ht) (buckets ht ! unat h) ?a ?c, exportList := l, nextAddr := ?a + 2\<rparr>"
  have fresh: "bheap ht ?a = None" "bl_nodes (exportList ht) (?a + 1) = None"
    by (simp_all add: fresh_inv_None [OF fr])
  have p: "\<exists>b. bheap ht f = Some b" if "buckets ht ! unat h = Some f" for f
  proof -
    have "f \<in> set (cs (unat h))"
      using chain_first [OF chains_inv_chain(1) [OF ch h]] that by (cases "cs (unat h)") auto
    then show ?thesis using chains_inv_chain(3) [OF ch h] by blast
  qed
  have new: "bheap ht' ?a = Some ?c"
    unfolding ht'_def using p fresh by (auto intro!: chain_front_new)
  have keeps: "map_option (\<lambda>b. (core b, inTable b, b_hash b)) (bheap ht' x) =
      map_option (\<lambda>b. (core b, inTable b, b_hash b)) (bheap ht x)" if "x \<noteq> ?a" for x
    unfolding ht'_def using p that by (auto intro!: chain_front_keeps)
  have prior: "\<exists>b. bheap ht x = Some b \<and> core e = core b \<and> inTable e = inTable b \<and> b_hash e = b_hash b"
    if "x \<noteq> ?a" "bheap ht' x = Some e" for x e
    using map_option_eqD [OF keeps [OF that(1)] that(2)] by (metis prod.inject)
  have "chains_inv ht' (cs(unat h := ?a # cs (unat h)))"
    by (rule chains_inv_front [OF ch h fresh(1)]) (simp_all add: new_bucket_def ht'_def)
  moreover have "?a + 1 \<notin> set xs" using no fresh(2) by (auto simp: nodes_inv_def)
  moreover have "map_option core (bheap ht' x) = map_option core (bheap ht x)" if "x \<noteq> ?a" for x
    using arg_cong [OF keeps [OF that], of "map_option fst"] by (simp add: option.map_comp o_def)
  ultimately have push: "nodes_inv ht' (xs @ [?a + 1])" "map core (held ht' xs) = map core (held ht xs)" "held ht' [?a + 1] = [?c]"
    using nodes_inv_push [OF no fresh(1), of "?a + 1" ht' ?c] l nodes new by (simp_all add: ht'_def new_bucket_def)
  have "fresh_inv ht'"
  proof -
    have "x < ?a + 2" if "x \<in> dom (bheap ht')" for x
    proof (cases "x = ?a")
      case False
      then have "x \<in> dom (bheap ht)" using prior [OF False] that by blast
      then have "x < ?a" using fr unfolding fresh_inv_def by blast
      then show ?thesis by simp
    qed simp
    moreover have "x < ?a + 2" if "x \<in> dom (bl_nodes l)" for x
    proof -
      have "x \<in> dom (bl_nodes (exportList ht)) \<or> x = ?a + 1" using nodes [of x] that by (metis domIff map_option_is_None)
      then have "x < ?a \<or> x = ?a + 1" using fr unfolding fresh_inv_def by blast
      then show ?thesis by auto
    qed
    ultimately show ?thesis unfolding fresh_inv_def by (auto simp: ht'_def)
  qed
  moreover have "blocks_inv ht'"
    unfolding blocks_inv_def
  proof (intro allI impI)
    fix x e assume e: "bheap ht' x = Some e"
    have "block_size ht' = block_size ht" by (simp add: block_size_def ht'_def)
    moreover have "length (b_data e) = block_size ht"
    proof (cases "x = ?a")
      case True
      then show ?thesis using e new d by (auto simp: new_bucket_def)
    next
      case False
      then show ?thesis using prior [OF False e] bs core_eqD by (metis blocks_inv_def)
    qed
    ultimately show "length (b_data e) = block_size ht'" by simp
  qed
  ultimately have "heap_inv ht' (cs(unat h := ?a # cs (unat h))) (xs @ [?a + 1])"
    using push \<open>chains_inv ht' _\<close> by (simp add: heap_inv_def)
  moreover have "insert_new h d now ht = Inr ht'" using run by (simp add: ht'_def)
  ultimately show ?thesis
    using push new prior
    by (intro exI [of _ ht'] exI [of _ ?a] exI [of _ "?a + 1"] exI [of _ ?c])
      (simp add: ht'_def config_def new_bucket_def)
qed

end
