(* ===== verification/Flow_Blocks.thy ===== *)
theory Flow_Blocks
  imports Flow_Hashtable
begin

text \<open>
  The octets of one aggregated flow: the fields of the template lie one behind the other, and
  combining two flows, comparing their keys and hashing them are operations on the fields one by one.
\<close>

section \<open>Layout\<close>

definition flen :: "field_info \<Rightarrow> nat" where
  "flen fi = unat (ie_length (ftype fi))"

definition piece :: "field_info \<Rightarrow> bytes \<Rightarrow> bytes" where
  "piece fi d = take (flen fi) (drop (unat (offset fi)) d)"

fun laid_out :: "field_info list \<Rightarrow> nat \<Rightarrow> nat \<Rightarrow> bool" where
  "laid_out [] i e \<longleftrightarrow> i = e"
| "laid_out (fi # fis) i e \<longleftrightarrow> unat (offset fi) = i \<and> laid_out fis (i + flen fi) e"

lemma laid_out_le: "laid_out fis i e \<Longrightarrow> i \<le> e"
  by (induction fis arbitrary: i) force+

lemma laid_out_bound: "laid_out fis i e \<Longrightarrow> fi \<in> set fis \<Longrightarrow> i \<le> unat (offset fi) \<and> unat (offset fi) + flen fi \<le> e"
proof (induction fis arbitrary: i)
  case (Cons f fis)
  then show ?case using laid_out_le [of fis "i + flen f" e] by fastforce
qed simp

lemma laid_out_disjoint:
  assumes "laid_out fis i e" and "j < k" and "k < length fis"
  shows "unat (offset (fis ! j)) + flen (fis ! j) \<le> unat (offset (fis ! k))"
  using assms
proof (induction fis arbitrary: i j k)
  case (Cons f fis)
  then obtain k' where k: "k = Suc k'" "k' < length fis" by (cases k) auto
  show ?case
  proof (cases j)
    case 0
    have "fis ! k' \<in> set fis" using k by simp
    then show ?thesis using 0 k Cons.prems laid_out_bound [of fis "i + flen f" e "fis ! k'"] by simp
  next
    case (Suc j')
    then show ?thesis using Cons.IH [of "i + flen f" j' k'] Cons.prems k by simp
  qed
qed simp

lemma piece_length: "unat (offset fi) + flen fi \<le> length d \<Longrightarrow> length (piece fi d) = flen fi"
  by (simp add: piece_def)

section \<open>Combining one field\<close>

text \<open>The octets written have the length of those read.\<close>

lemma length_or_flags: "length (or_flags 1 b d) = 1" "length (or_flags 2 b d) = 2"
  by (simp_all add: or_flags_def le16_bytes_def)

lemma field_op_length:
  assumes "field_op t = Some (n, f)" and "length b = n" and "length d = n"
  shows "length (f b d) = n"
  using assms by (auto simp: field_op_def or_flags_def le16_bytes_def split: if_splits)

definition combined :: "ie_info \<Rightarrow> bytes \<Rightarrow> bytes \<Rightarrow> bytes" where
  "combined t b d = (case field_op t of None \<Rightarrow> b | Some (n, f) \<Rightarrow> f b d)"

text \<open>The template reads and writes no field beyond its length.\<close>

definition op_fits :: "ie_info \<Rightarrow> bool" where
  "op_fits t \<longleftrightarrow> (case field_op t of None \<Rightarrow> True | Some (n, f) \<Rightarrow> n = unat (ie_length t))"

definition untouched :: "nat \<Rightarrow> nat \<Rightarrow> nat \<Rightarrow> bytes \<Rightarrow> bytes \<Rightarrow> bool" where
  "untouched F i n d d' \<longleftrightarrow>
     length d' = length d \<and>
     (\<forall>j m. j + m \<le> F \<longrightarrow> j + m \<le> i \<or> i + n \<le> j \<longrightarrow> take m (drop j d') = take m (drop j d))"

lemma untouched_refl [simp]: "untouched F i n d d"
  by (simp add: untouched_def)

lemma untouched_trans: "untouched F i n d d1 \<Longrightarrow> untouched F i n d1 d2 \<Longrightarrow> untouched F i n d d2"
  by (simp add: untouched_def)

lemma untouched_piece:
  "untouched F i n d d' \<Longrightarrow> unat (offset fi) + flen fi \<le> F \<Longrightarrow>
   unat (offset fi) + flen fi \<le> i \<or> i + n \<le> unat (offset fi) \<Longrightarrow> piece fi d' = piece fi d"
  unfolding untouched_def piece_def by blast

lemma untouched_put:
  assumes "i + length bs \<le> length d" and "(k \<le> i \<and> i + length bs \<le> k + n) \<or> F \<le> i"
  shows "untouched F k n d (put_bytes d i bs)"
  unfolding untouched_def
proof (intro conjI allI impI)
  show "length (put_bytes d i bs) = length d" using assms(1) by simp
  fix j m assume "j + m \<le> F" and "j + m \<le> k \<or> k + n \<le> j"
  then show "take m (drop j (put_bytes d i bs)) = take m (drop j d)"
    using assms by (intro piece_put_other) auto
qed

lemma aggregateField_ok:
  assumes size: "length base = s" "length delta = s" "F \<le> s"
    and bo: "bo + unat (ie_length t) \<le> F" and dof: "dof + unat (ie_length t) \<le> F"
    and priv: "is_payload t \<Longrightarrow> F \<le> bp \<and> bp + 8 \<le> s \<and> dp + 8 \<le> s"
    and fit: "op_fits t"
  shows "\<exists>base'. aggregateField t bo bp dof dp base delta = Inr base' \<and>
    untouched F bo (unat (ie_length t)) base base' \<and>
    (\<not> is_payload t \<longrightarrow> take (unat (ie_length t)) (drop bo base') =
       combined t (take (unat (ie_length t)) (drop bo base)) (take (unat (ie_length t)) (drop dof delta)))"
proof (cases "is_payload t")
  case True
  let ?n = "unat (ie_length t)"
  note p = priv [OF True]
  let ?pay = "take ?n (drop dof delta)" and ?dl = "take 4 (drop (dp + 4) delta)"
  have len: "length ?pay = ?n" "length ?dl = 4" using size dof p by auto
  have 1: "untouched F bo ?n base (put_bytes base bo ?pay)"
    using size bo len by (intro untouched_put) auto
  then have "length (put_bytes base bo ?pay) = s" using size by (simp add: untouched_def)
  moreover from this have 2: "untouched F bo ?n (put_bytes base bo ?pay) (put_bytes (put_bytes base bo ?pay) (bp + 4) ?dl)"
    using p len by (intro untouched_put) auto
  ultimately show ?thesis
    using True size bo dof p len untouched_trans [OF 1 2]
    by (auto simp: aggregateField_def peek_ok poke_ok)
next
  case False
  let ?n = "unat (ie_length t)"
  show ?thesis
  proof (cases "field_op t")
    case None
    then show ?thesis using False by (simp add: aggregateField_def combined_def)
  next
    case (Some nf)
    then obtain f where f: "field_op t = Some (?n, f)" using fit by (cases nf) (auto simp: op_fits_def)
    let ?v = "f (take ?n (drop bo base)) (take ?n (drop dof delta))"
    have len: "length ?v = ?n" using size bo dof by (intro field_op_length [OF f]) auto
    then have "untouched F bo ?n base (put_bytes base bo ?v)"
      using size bo by (intro untouched_put) auto
    moreover have "take ?n (drop bo (put_bytes base bo ?v)) = ?v"
      using size bo len by (intro piece_put_same) auto
    ultimately show ?thesis
      using False f size bo dof len by (simp add: aggregateField_def combined_def peek_ok poke_ok)
  qed
qed

section \<open>Combining flows\<close>

text \<open>
  A template whose fields lie one behind the other in the first \<open>fieldLength\<close> octets, with
  the private data behind them.
\<close>

definition wf_layout :: "hashtable \<Rightarrow> bool" where
  "wf_layout ht \<longleftrightarrow>
     (let fis = fieldInfo (dataTemplate ht); F = unat (fieldLength ht); s = F + unat (privDataLength ht) in
      laid_out fis 0 F \<and> unat (fieldCount (dataTemplate ht)) = length fis \<and>
      length (privDataOffset ht) = length fis \<and> length (fieldModifier ht) = length fis \<and>
      (\<forall>i < length fis. op_fits (ftype (fis ! i)) \<and>
         (is_front_payload (ftype (fis ! i)) \<longrightarrow> F \<le> privDataOffset ht ! i \<and> privDataOffset ht ! i + 8 \<le> s)))"

lemma payload_front: "is_payload t \<Longrightarrow> is_front_payload t"
  by (auto simp: is_payload_def is_front_payload_def IPFIX_PEN_vermont_def IPFIX_PEN_reverse_def)

lemma aggregate_fields_ok:
  assumes wf: "wf_layout ht"
    and fis: "fis = fieldInfo (dataTemplate ht)"
    and s: "s = unat (fieldLength ht) + unat (privDataLength ht)"
    and len: "length base = s" "length flow = s" and i: "i \<le> length fis"
  shows "\<exists>base'. aggregate_fields ht False i (drop i fis) base flow res = Inr (base', res) \<and> length base' = s \<and>
    (\<forall>k < length fis. k < i \<or> \<not> isToBeAggregated (ftype (fis ! k)) \<longrightarrow> piece (fis ! k) base' = piece (fis ! k) base) \<and>
    (\<forall>k < length fis. i \<le> k \<longrightarrow> isToBeAggregated (ftype (fis ! k)) \<longrightarrow> \<not> is_payload (ftype (fis ! k)) \<longrightarrow>
       piece (fis ! k) base' = combined (ftype (fis ! k)) (piece (fis ! k) base) (piece (fis ! k) flow))"
  using len(1) i
proof (induction "length fis - i" arbitrary: i base)
  case 0
  then show ?case by simp
next
  case (Suc x)
  then have i: "i < length fis" and x: "x = length fis - Suc i" and i': "Suc i \<le> length fis" by simp_all
  let ?fi = "fis ! i" and ?F = "unat (fieldLength ht)"
  have dr: "drop i fis = ?fi # drop (Suc i) fis" by (rule Cons_nth_drop_Suc [OF i, symmetric])
  have lo: "laid_out fis 0 ?F" using wf fis by (simp add: wf_layout_def Let_def)
  have bound: "unat (offset ?fi) + flen ?fi \<le> ?F" using laid_out_bound [OF lo, of ?fi] i by simp
  show ?case
  proof (cases "isToBeAggregated (ftype ?fi)")
    case False
    obtain b' where b': "aggregate_fields ht False (Suc i) (drop (Suc i) fis) base flow res = Inr (b', res)" "length b' = s"
        "\<forall>k < length fis. k < Suc i \<or> \<not> isToBeAggregated (ftype (fis ! k)) \<longrightarrow> piece (fis ! k) b' = piece (fis ! k) base"
        "\<forall>k < length fis. Suc i \<le> k \<longrightarrow> isToBeAggregated (ftype (fis ! k)) \<longrightarrow> \<not> is_payload (ftype (fis ! k)) \<longrightarrow>
           piece (fis ! k) b' = combined (ftype (fis ! k)) (piece (fis ! k) base) (piece (fis ! k) flow)"
      using Suc.hyps(1) [OF x Suc.prems(1) i'] by blast
    moreover have "k \<noteq> i" if "isToBeAggregated (ftype (fis ! k))" for k using that False by auto
    ultimately show ?thesis
      using False by (intro exI [of _ b']) (auto simp: dr Suc_le_eq order_le_less)
  next
    case True
    have "\<exists>base1. aggregateField (ftype ?fi) (unat (offset ?fi)) (privDataOffset ht ! i) (unat (offset ?fi)) (privDataOffset ht ! i) base flow = Inr base1 \<and>
      untouched ?F (unat (offset ?fi)) (flen ?fi) base base1 \<and>
      (\<not> is_payload (ftype ?fi) \<longrightarrow> piece ?fi base1 = combined (ftype ?fi) (piece ?fi base) (piece ?fi flow))"
      unfolding piece_def flen_def
      using wf fis i Suc.prems len bound
      by (intro aggregateField_ok [where s = s]) (auto simp: wf_layout_def Let_def s flen_def dest!: payload_front)
    then obtain base1 where a: "aggregateField (ftype ?fi) (unat (offset ?fi)) (privDataOffset ht ! i) (unat (offset ?fi)) (privDataOffset ht ! i) base flow = Inr base1"
      and u: "untouched ?F (unat (offset ?fi)) (flen ?fi) base base1"
      and c: "\<not> is_payload (ftype ?fi) \<longrightarrow> piece ?fi base1 = combined (ftype ?fi) (piece ?fi base) (piece ?fi flow)"
      by blast
    have other: "piece (fis ! k) base1 = piece (fis ! k) base" if k: "k < length fis" "k \<noteq> i" for k
    proof -
      have "unat (offset (fis ! k)) + flen (fis ! k) \<le> ?F" using laid_out_bound [OF lo, of "fis ! k"] k by simp
      moreover have "unat (offset (fis ! k)) + flen (fis ! k) \<le> unat (offset ?fi) \<or>
          unat (offset ?fi) + flen ?fi \<le> unat (offset (fis ! k))"
        using laid_out_disjoint [OF lo, of k i] laid_out_disjoint [OF lo, of i k] k i by linarith
      ultimately show ?thesis by (rule untouched_piece [OF u])
    qed
    have "length base1 = s" using u Suc.prems by (simp add: untouched_def)
    then obtain b' where b': "aggregate_fields ht False (Suc i) (drop (Suc i) fis) base1 flow res = Inr (b', res)" "length b' = s"
        "\<forall>k < length fis. k < Suc i \<or> \<not> isToBeAggregated (ftype (fis ! k)) \<longrightarrow> piece (fis ! k) b' = piece (fis ! k) base1"
        "\<forall>k < length fis. Suc i \<le> k \<longrightarrow> isToBeAggregated (ftype (fis ! k)) \<longrightarrow> \<not> is_payload (ftype (fis ! k)) \<longrightarrow>
           piece (fis ! k) b' = combined (ftype (fis ! k)) (piece (fis ! k) base1) (piece (fis ! k) flow)"
      using Suc.hyps(1) [OF x _ i'] by blast
    have "aggregate_fields ht False i (drop i fis) base flow res = Inr (b', res)"
      using True a b'(1) by (simp add: dr)
    moreover have "piece (fis ! k) b' = piece (fis ! k) base"
      if "k < length fis" "k < i \<or> \<not> isToBeAggregated (ftype (fis ! k))" for k
      using that b'(3) other True by (metis less_SucI less_irrefl)
    moreover have "piece (fis ! k) b' = combined (ftype (fis ! k)) (piece (fis ! k) base) (piece (fis ! k) flow)"
      if k: "k < length fis" "i \<le> k" "isToBeAggregated (ftype (fis ! k))" "\<not> is_payload (ftype (fis ! k))" for k
    proof (cases "k = i")
      case True
      then show ?thesis using b'(3) c k by simp
    next
      case False
      then show ?thesis using b'(4) other k by simp
    qed
    ultimately show ?thesis using b'(2) by blast
  qed
qed

section \<open>Keys\<close>

definition flow_key :: "hashtable \<Rightarrow> bytes \<Rightarrow> bytes list" where
  "flow_key ht d =
     map (\<lambda>fi. piece fi d) (filter (\<lambda>fi. \<not> isToBeAggregated (ftype fi)) (fieldInfo (dataTemplate ht)))"

lemma octets_equal_ok:
  "i + k \<le> length d1 \<Longrightarrow> j + k \<le> length d2 \<Longrightarrow>
   octets_equal k d1 i d2 j = Inr (take k (drop i d1) = take k (drop j d2))"
proof (induction k arbitrary: i j)
  case (Suc k)
  then have "take (Suc k) (drop i d1) = d1 ! i # take k (drop (Suc i) d1)"
    "take (Suc k) (drop j d2) = d2 ! j # take k (drop (Suc j) d2)"
    by (simp_all add: Cons_nth_drop_Suc [symmetric])
  with Suc show ?case by (simp add: rd8_ok)
qed simp

lemma field_induct:
  assumes "i \<le> length fis" and "P (length fis)"
    and "\<And>i. i < length fis \<Longrightarrow> P (Suc i) \<Longrightarrow> P i"
  shows "P i"
  using assms(1)
proof (induction "length fis - i" arbitrary: i)
  case 0
  then show ?case using assms(2) by simp
next
  case (Suc x)
  then show ?case using assms(3) [of i] by simp
qed

lemma wf_bound:
  assumes "wf_layout ht" and "i < length (fieldInfo (dataTemplate ht))"
  shows "unat (offset (fieldInfo (dataTemplate ht) ! i)) + flen (fieldInfo (dataTemplate ht) ! i) \<le> unat (fieldLength ht)"
  using assms laid_out_bound [of "fieldInfo (dataTemplate ht)" 0 "unat (fieldLength ht)"]
  by (simp add: wf_layout_def Let_def)

lemma equal_fields_ok:
  assumes wf: "wf_layout ht" and fis: "fis = fieldInfo (dataTemplate ht)"
    and len: "unat (fieldLength ht) \<le> length d1" "unat (fieldLength ht) \<le> length d2"
    and i: "i \<le> length fis"
  shows "equal_fields ht False i (drop i fis) d1 d2 =
    Inr (\<forall>fi \<in> set (drop i fis). \<not> isToBeAggregated (ftype fi) \<longrightarrow> piece fi d1 = piece fi d2)"
  using i
proof (rule field_induct)
  fix i assume i: "i < length fis"
    and IH: "equal_fields ht False (Suc i) (drop (Suc i) fis) d1 d2 =
      Inr (\<forall>fi \<in> set (drop (Suc i) fis). \<not> isToBeAggregated (ftype fi) \<longrightarrow> piece fi d1 = piece fi d2)"
  have dr: "drop i fis = fis ! i # drop (Suc i) fis" by (rule Cons_nth_drop_Suc [OF i, symmetric])
  have ks: "key_source ht False i = Inr (fis ! i)" using i fis by (simp add: key_source_def)
  have "unat (offset (fis ! i)) + flen (fis ! i) \<le> unat (fieldLength ht)"
    using wf_bound [OF wf] i fis by simp
  then have "equalRaw (ftype (fis ! i)) d1 (unat (offset (fis ! i))) (ftype (fis ! i)) d2 (unat (offset (fis ! i)))
      = Inr (piece (fis ! i) d1 = piece (fis ! i) d2)"
    using len by (simp add: equalRaw_def octets_equal_ok piece_def flen_def)
  then show "equal_fields ht False i (drop i fis) d1 d2 =
      Inr (\<forall>fi \<in> set (drop i fis). \<not> isToBeAggregated (ftype fi) \<longrightarrow> piece fi d1 = piece fi d2)"
    unfolding dr using IH ks by auto
qed simp

lemma equalFlow_ok:
  assumes "wf_layout ht" and "unat (fieldLength ht) \<le> length d1" and "unat (fieldLength ht) \<le> length d2"
  shows "equalFlow ht d1 d2 False = Inr (flow_key ht d1 = flow_key ht d2)"
  using equal_fields_ok [OF assms(1) refl assms(2,3), of 0] by (auto simp: equalFlow_def flow_key_def)

text \<open>The hash of a key.\<close>

definition key_hash :: "u32 \<Rightarrow> bytes list \<Rightarrow> u32" where
  "key_hash h ps = foldl (\<lambda>h p. NOT (crc32_bits h p)) h ps"

lemma crc32_piece:
  "unat (offset fi) + flen fi \<le> length d \<Longrightarrow>
   crc32 h (ucast (ie_length (ftype fi))) (drop (unat (offset fi)) d) = Inr (NOT (crc32_bits h (piece fi d)))"
proof -
  assume "unat (offset fi) + flen fi \<le> length d"
  moreover have "unat (ucast (ie_length (ftype fi)) :: u32) = flen fi"
    using u16_lt [of "ie_length (ftype fi)"] by (simp add: flen_def unsigned_ucast_eq take_bit_nat_eq_self)
  ultimately show ?thesis by (simp add: crc32_def crc32_loop_bits piece_def)
qed

lemma hash_fields_ok:
  assumes wf: "wf_layout ht" and fis: "fis = fieldInfo (dataTemplate ht)"
    and len: "unat (fieldLength ht) \<le> length d" and i: "i \<le> length fis"
  shows "\<forall>h. hash_fields ht False i (drop i fis) d h =
    Inr (key_hash h (map (\<lambda>fi. piece fi d) (filter (\<lambda>fi. \<not> isToBeAggregated (ftype fi)) (drop i fis))))"
  using i
proof (rule field_induct)
  fix i assume i: "i < length fis"
    and IH: "\<forall>h. hash_fields ht False (Suc i) (drop (Suc i) fis) d h =
      Inr (key_hash h (map (\<lambda>fi. piece fi d) (filter (\<lambda>fi. \<not> isToBeAggregated (ftype fi)) (drop (Suc i) fis))))"
  have dr: "drop i fis = fis ! i # drop (Suc i) fis" by (rule Cons_nth_drop_Suc [OF i, symmetric])
  have ks: "key_source ht False i = Inr (fis ! i)" using i fis by (simp add: key_source_def)
  have "unat (offset (fis ! i)) + flen (fis ! i) \<le> length d"
    using wf_bound [OF wf] i fis len by fastforce
  then show "\<forall>h. hash_fields ht False i (drop i fis) d h =
      Inr (key_hash h (map (\<lambda>fi. piece fi d) (filter (\<lambda>fi. \<not> isToBeAggregated (ftype fi)) (drop i fis))))"
    unfolding dr using IH ks crc32_piece [of "fis ! i" d] by (auto simp: key_hash_def)
qed (simp add: key_hash_def)

definition slot_of :: "hashtable \<Rightarrow> bytes \<Rightarrow> u32" where
  "slot_of ht d = key_hash 0 (flow_key ht d) AND (htableSize ht - 1)"

lemma getHash_ok:
  assumes "wf_layout ht" and "unat (fieldLength ht) \<le> length d"
  shows "getHash ht d False = Inr (slot_of ht d)"
  using hash_fields_ok [OF assms(1) refl assms(2), of 0]
  by (simp add: getHash_def slot_of_def flow_key_def)

lemma slot_bound:
  assumes "htableSize ht = push_bit k 1" and "k < 31"
  shows "unat (slot_of ht d) < unat (htableSize ht)"
proof -
  have p: "(push_bit k 1 :: u32) - 1 = Bit_Operations.mask k" by (simp add: mask_eq_exp_minus_1 push_bit_of_1)
  have "(2::nat) ^ k < 2 ^ 32" using assms(2) by (intro power_strict_increasing) auto
  then have "unat (push_bit k 1 :: u32) = 2 ^ k"
    using unat_of_nat_u32 [of "2 ^ k"] by (simp add: push_bit_of_1)
  moreover have "unat (take_bit k x :: u32) < 2 ^ k" for x
    by (simp add: unsigned_take_bit_eq)
  ultimately show ?thesis
    unfolding slot_of_def assms(1) p by (simp add: take_bit_eq_mask [symmetric])
qed

end
