(* ===== verification/Flow_Aggregation.thy ===== *)
theory Flow_Aggregation
  imports Hashtable_Insert Flow_Blocks
begin

text \<open>
  The flow hashtable as a whole: a record is either combined with the flow of the same key or
  becomes a flow of its own, no flow is lost or counted twice, and every call returns without a fault.
\<close>

section \<open>The invariant of the flow hashtable\<close>

text \<open>
  In the table, every flow is in the slot of its key and no two flows have the same key. Flows
  that have left the table wait in the export list.
\<close>

definition keyed :: "hashtable \<Rightarrow> bool" where
  "keyed ht \<longleftrightarrow>
     (\<forall>a b. bheap ht a = Some b \<longrightarrow> inTable b \<longrightarrow> b_hash b = slot_of ht (b_data b)) \<and>
     (\<forall>a b a' b'. bheap ht a = Some b \<longrightarrow> inTable b \<longrightarrow> bheap ht a' = Some b' \<longrightarrow> inTable b' \<longrightarrow>
        flow_key ht (b_data b) = flow_key ht (b_data b') \<longrightarrow> a = a')"

definition flow_inv :: "hashtable \<Rightarrow> (nat \<Rightarrow> nat list) \<Rightarrow> nat list \<Rightarrow> bool" where
  "flow_inv ht cs xs \<longleftrightarrow> heap_inv ht cs xs \<and> wf_layout ht \<and> \<not> biflowAggregation ht \<and>
     (\<exists>k < 31. htableSize ht = push_bit k 1) \<and> length (buckets ht) = unat (htableSize ht) \<and> keyed ht"

lemma config_same:
  assumes "config ht' = config ht"
  shows "wf_layout ht' = wf_layout ht" and "flow_key ht' = flow_key ht" and "slot_of ht' = slot_of ht"
    and "block_size ht' = block_size ht" and "dataTemplate ht' = dataTemplate ht" and "htableSize ht' = htableSize ht"
    and "biflowAggregation ht' = biflowAggregation ht"
  using assms by (simp_all add: config_def wf_layout_def flow_key_def slot_of_def block_size_def fun_eq_iff)

lemma slot_key: "flow_key ht d = flow_key ht d' \<Longrightarrow> slot_of ht d = slot_of ht d'"
  by (simp add: slot_of_def)

lemma keyed_survives:
  assumes "keyed ht" and "survives ht ht'" and "config ht' = config ht"
  shows "keyed ht'"
proof -
  have earlier: "\<exists>b. bheap ht a = Some b \<and> inTable b \<and> b_hash c = b_hash b \<and> b_data c = b_data b"
    if "bheap ht' a = Some c" "inTable c" for a c
    using assms(2) that core_eqD unfolding survives_def by blast
  show ?thesis
    unfolding keyed_def config_same [OF assms(3)]
  proof (intro conjI allI impI)
    fix a b assume "bheap ht' a = Some b" "inTable b"
    then obtain c where "bheap ht a = Some c" "inTable c" "b_hash b = b_hash c" "b_data b = b_data c" using earlier by blast
    then show "b_hash b = slot_of ht (b_data b)" using assms(1) by (simp add: keyed_def)
  next
    fix a b a' b'
    assume b: "bheap ht' a = Some b" "inTable b" "bheap ht' a' = Some b'" "inTable b'"
      and k: "flow_key ht (b_data b) = flow_key ht (b_data b')"
    then obtain c c' where "bheap ht a = Some c" "inTable c" "b_data b = b_data c"
        "bheap ht a' = Some c'" "inTable c'" "b_data b' = b_data c'" using earlier by metis
    then show "a = a'" using assms(1) k unfolding keyed_def by metis
  qed
qed

lemma keyed_edit:
  assumes inv: "keyed ht" and b: "bheap ht a = Some b" and c: "same_links b c"
    and k: "flow_key ht (b_data c) = flow_key ht (b_data b)"
  shows "keyed (ht\<lparr>bheap := (bheap ht)(a \<mapsto> c)\<rparr>)"
proof -
  let ?ht' = "ht\<lparr>bheap := (bheap ht)(a \<mapsto> c)\<rparr>"
  have cf: "config ?ht' = config ht" by (simp add: config_def)
  have earlier: "\<exists>e'. bheap ht x = Some e' \<and> inTable e' = inTable e \<and> b_hash e' = b_hash e \<and>
      flow_key ht (b_data e') = flow_key ht (b_data e)" if "bheap ?ht' x = Some e" for x e
    using that b c k by (cases "x = a") (auto simp: same_links_def)
  show ?thesis
    unfolding keyed_def config_same [OF cf]
  proof (intro conjI allI impI)
    fix x e assume "bheap ?ht' x = Some e" "inTable e"
    then obtain e' where "bheap ht x = Some e'" "inTable e'" "b_hash e' = b_hash e"
        "flow_key ht (b_data e') = flow_key ht (b_data e)"
      using earlier by blast
    then show "b_hash e = slot_of ht (b_data e)" using inv slot_key unfolding keyed_def by metis
  next
    fix x e x' e'
    assume e: "bheap ?ht' x = Some e" "inTable e" "bheap ?ht' x' = Some e'" "inTable e'"
      and k: "flow_key ht (b_data e) = flow_key ht (b_data e')"
    obtain f where "bheap ht x = Some f" "inTable f" "flow_key ht (b_data f) = flow_key ht (b_data e)"
      using earlier [OF e(1)] e(2) by blast
    moreover obtain f' where "bheap ht x' = Some f'" "inTable f'" "flow_key ht (b_data f') = flow_key ht (b_data e')"
      using earlier [OF e(3)] e(4) by blast
    ultimately show "x = x'" using inv k unfolding keyed_def by metis
  qed
qed

section \<open>Looking up a key\<close>

lemma chain_search_ok:
  assumes wf: "wf_layout ht" and bs: "blocks_inv ht" and d: "length d = block_size ht"
    and ch: "chain b_next b_prev (bheap ht) q p ys None"
  shows "\<exists>r pr. chain_search ht d False p prev = Some (Inr (r, pr)) \<and>
    (case r of
       None \<Rightarrow> \<forall>a \<in> set ys. flow_key ht (b_data (the (bheap ht a))) \<noteq> flow_key ht d
     | Some a \<Rightarrow> a \<in> set ys \<and> flow_key ht (b_data (the (bheap ht a))) = flow_key ht d)"
  using ch
proof (induction ys arbitrary: q p prev)
  case Nil
  then show ?case by (simp add: chain_search.simps)
next
  case (Cons a ys)
  then obtain b where p: "p = Some a" and b: "bheap ht a = Some b"
    and rest: "chain b_next b_prev (bheap ht) (Some a) (b_next b) ys None"
    by (auto split: option.splits)
  have "length (b_data b) = block_size ht" using bs b by (simp add: blocks_inv_def)
  then have eq: "equalFlow ht (b_data b) d False = Inr (flow_key ht (b_data b) = flow_key ht d)"
    using d by (intro equalFlow_ok [OF wf]) (simp_all add: block_size_def)
  show ?case
  proof (cases "flow_key ht (b_data b) = flow_key ht d")
    case True
    then show ?thesis using p b eq by (subst chain_search.simps) (simp add: bucket_at_ok)
  next
    case False
    then have "chain_search ht d False p prev = chain_search ht d False (b_next b) p"
      using p b eq by (subst chain_search.simps) (simp add: bucket_at_ok)
    then show ?thesis using Cons.IH [OF rest, of p] False b by (auto split: option.splits)
  qed
qed

lemma lookup_ok:
  assumes inv: "flow_inv ht cs xs" and d: "length d = block_size ht"
  shows "\<exists>r pr. lookupBucket (slot_of ht d) d False ht = Some (Inr (r, pr)) \<and>
    (case r of
       None \<Rightarrow> \<forall>a b. bheap ht a = Some b \<longrightarrow> inTable b \<longrightarrow> flow_key ht (b_data b) \<noteq> flow_key ht d
     | Some a \<Rightarrow> \<exists>b. bheap ht a = Some b \<and> inTable b \<and> flow_key ht (b_data b) = flow_key ht d)"
proof -
  let ?h = "unat (slot_of ht d)"
  have ch: "chains_inv ht cs" and bs: "blocks_inv ht" and wf: "wf_layout ht" and k: "keyed ht"
    using inv by (simp_all add: flow_inv_def heap_inv_def)
  have h: "?h < length (buckets ht)" using inv slot_bound by (auto simp: flow_inv_def)
  obtain r pr where r: "chain_search ht d False (buckets ht ! ?h) None = Some (Inr (r, pr))"
      "case r of
         None \<Rightarrow> \<forall>a \<in> set (cs ?h). flow_key ht (b_data (the (bheap ht a))) \<noteq> flow_key ht d
       | Some a \<Rightarrow> a \<in> set (cs ?h) \<and> flow_key ht (b_data (the (bheap ht a))) = flow_key ht d"
    using chain_search_ok [OF wf bs d chains_inv_chain(1) [OF ch h]] by blast
  have "flow_key ht (b_data b) \<noteq> flow_key ht d" if "r = None" "bheap ht a = Some b" "inTable b" for a b
  proof
    assume eq: "flow_key ht (b_data b) = flow_key ht d"
    have "b_hash b = slot_of ht (b_data b)" using k that by (simp add: keyed_def)
    then have "a \<in> set (cs ?h)" using chains_inv_table [OF ch that(2,3)] slot_key [OF eq] by simp
    then show False using r(2) that eq by auto
  qed
  moreover have "\<exists>b. bheap ht a = Some b \<and> inTable b \<and> flow_key ht (b_data b) = flow_key ht d" if "r = Some a" for a
    using r(2) that chains_inv_chain(3) [OF ch h, of a] by auto
  ultimately show ?thesis
    using r(1) h by (intro exI [of _ r] exI [of _ pr]) (auto simp: lookupBucket_def slot_at_ok split: option.split)
qed

section \<open>A flow that is found\<close>

text \<open>The contents of the flows held, and the combination of a flow with a record of its key.\<close>

definition contents :: "hashtable \<Rightarrow> nat list \<Rightarrow> bytes multiset" where
  "contents ht xs = mset (map b_data (held ht xs))"

definition combines :: "hashtable \<Rightarrow> bytes \<Rightarrow> bytes \<Rightarrow> bytes \<Rightarrow> bool" where
  "combines ht b d d' \<longleftrightarrow>
     length d' = block_size ht \<and>
     (\<forall>fi \<in> set (fieldInfo (dataTemplate ht)).
        (\<not> isToBeAggregated (ftype fi) \<longrightarrow> piece fi d' = piece fi b) \<and>
        (isToBeAggregated (ftype fi) \<longrightarrow> \<not> is_payload (ftype fi) \<longrightarrow>
           piece fi d' = combined (ftype fi) (piece fi b) (piece fi d)))"

lemma contents_core: "map core (held ht' xs') = map core (held ht xs) \<Longrightarrow> contents ht' xs' = contents ht xs"
  using core_lists(3) [of "held ht' xs'" "held ht xs"] by (simp add: contents_def)

lemma combines_key: "combines ht b d d' \<Longrightarrow> flow_key ht d' = flow_key ht b"
  by (simp add: combines_def flow_key_def)

lemma aggregate_combines:
  assumes wf: "wf_layout ht" and len: "length b = block_size ht" "length d = block_size ht"
  shows "\<exists>d'. aggregate_fields ht False 0 (fieldInfo (dataTemplate ht)) b d False = Inr (d', False) \<and> combines ht b d d'"
proof -
  obtain d' where d': "aggregate_fields ht False 0 (drop 0 (fieldInfo (dataTemplate ht))) b d False = Inr (d', False)"
      "length d' = block_size ht"
      "\<forall>k < length (fieldInfo (dataTemplate ht)). k < 0 \<or> \<not> isToBeAggregated (ftype (fieldInfo (dataTemplate ht) ! k)) \<longrightarrow>
         piece (fieldInfo (dataTemplate ht) ! k) d' = piece (fieldInfo (dataTemplate ht) ! k) b"
      "\<forall>k < length (fieldInfo (dataTemplate ht)). 0 \<le> k \<longrightarrow> isToBeAggregated (ftype (fieldInfo (dataTemplate ht) ! k)) \<longrightarrow>
         \<not> is_payload (ftype (fieldInfo (dataTemplate ht) ! k)) \<longrightarrow>
         piece (fieldInfo (dataTemplate ht) ! k) d' =
           combined (ftype (fieldInfo (dataTemplate ht) ! k)) (piece (fieldInfo (dataTemplate ht) ! k) b)
             (piece (fieldInfo (dataTemplate ht) ! k) d)"
    using aggregate_fields_ok [OF wf refl block_size_def len, of 0 False] by blast
  then show ?thesis
    by (intro exI [of _ d']) (auto simp: combines_def in_set_conv_nth)
qed

lemma removeBucket_lock: "removeBucket p ht = Inr ht' \<Longrightarrow> aggInProgress ht' = aggInProgress ht"
  by (auto simp: removeBucket_def bucket_upd_def slot_upd_def Let_def
      split: if_splits option.splits elim!: res_bind_InrE)

lemma flow_inv_lock: "flow_inv (ht\<lparr>aggInProgress := t\<rparr>) cs xs = flow_inv ht cs xs"
  by (simp add: flow_inv_def heap_inv_lock wf_layout_def keyed_def slot_of_def flow_key_def)

lemma remove_flow:
  assumes inv: "flow_inv ht cs xs" and b: "bheap ht a = Some b" and t: "inTable b"
  shows "\<exists>ht' cs'. removeBucket (Some a) ht = Inr ht' \<and> flow_inv ht' cs' xs \<and> frame ht ht' \<and>
    contents ht' xs = contents ht xs \<and> aggInProgress ht' = aggInProgress ht \<and>
    (\<forall>x e. bheap ht' x = Some e \<longrightarrow> inTable e \<longrightarrow> flow_key ht' (b_data e) \<noteq> flow_key ht (b_data b))"
proof -
  have hi: "heap_inv ht cs xs" and k: "keyed ht" using inv by (simp_all add: flow_inv_def)
  then have ch: "chains_inv ht cs" and no: "nodes_inv ht xs" and fr: "fresh_inv ht" and bs: "blocks_inv ht"
    by (simp_all add: heap_inv_def)
  obtain ht' cs' where r: "removeBucket (Some a) ht = Inr ht'" "chains_inv ht' cs'" "frame ht ht'"
      "bheap ht' a = Some (b\<lparr>b_next := None, b_prev := None, b_hash := 0, inTable := False\<rparr>)" "survives ht ht'"
    using removeBucket_ok [OF ch b t] by blast
  have c: "config ht' = config ht" "length (buckets ht') = length (buckets ht)" using r(3) by (simp_all add: frame_def)
  have "heap_inv ht' cs' xs"
    using r(2) nodes_inv_frame [OF r(3) no] fresh_inv_frame [OF r(3) fr] blocks_inv_frame [OF r(3) bs]
    by (simp add: heap_inv_def)
  then have "flow_inv ht' cs' xs"
    using inv keyed_survives [OF k r(5) c(1)] c by (simp add: flow_inv_def config_same [OF c(1)])
  moreover have "flow_key ht' (b_data e) \<noteq> flow_key ht (b_data b)" if e: "bheap ht' x = Some e" "inTable e" for x e
  proof
    assume eq: "flow_key ht' (b_data e) = flow_key ht (b_data b)"
    obtain e' where e': "bheap ht x = Some e'" "core e = core e'" "inTable e'"
      using r(5) e unfolding survives_def by blast
    then have "flow_key ht (b_data e') = flow_key ht (b_data b)"
      using eq core_eqD [OF e'(2)] config_same(2) [OF c(1)] by simp
    then have "x = a" using k e' b t unfolding keyed_def by blast
    then show False using e r(4) by auto
  qed
  ultimately show ?thesis
    using r(1,3) contents_core [OF held_frame [OF r(3) no]] removeBucket_lock [OF r(1)]
    by (intro exI [of _ ht'] exI [of _ cs']) blast
qed

lemma flow_edit:
  assumes inv: "flow_inv ht cs xs" and b: "bheap ht a = Some b" and c: "same_links b c"
    and len: "length (b_data c) = block_size ht" and k: "flow_key ht (b_data c) = flow_key ht (b_data b)"
  shows "flow_inv (ht\<lparr>bheap := (bheap ht)(a \<mapsto> c)\<rparr>) cs xs"
    and "contents (ht\<lparr>bheap := (bheap ht)(a \<mapsto> c)\<rparr>) xs + {#b_data b#} = contents ht xs + {#b_data c#}"
proof -
  let ?ht' = "ht\<lparr>bheap := (bheap ht)(a \<mapsto> c)\<rparr>"
  have cf: "config ?ht' = config ht" by (simp add: config_def)
  have hi: "heap_inv ht cs xs" using inv by (simp add: flow_inv_def)
  show "flow_inv ?ht' cs xs"
    using inv heap_inv_edit [OF hi b c len] keyed_edit [OF _ b c k] by (simp add: flow_inv_def config_same [OF cf])
  have no: "nodes_inv ht xs" using hi by (simp add: heap_inv_def)
  obtain us n vs where h: "xs = us @ n # vs" "held ht xs = held ht us @ b # held ht vs"
      "\<And>c. held (ht\<lparr>bheap := (bheap ht)(a \<mapsto> c)\<rparr>) us = held ht us"
      "\<And>c. held (ht\<lparr>bheap := (bheap ht)(a \<mapsto> c)\<rparr>) vs = held ht vs"
      "\<And>c. held (ht\<lparr>bheap := (bheap ht)(a \<mapsto> c)\<rparr>) [n] = [c]"
    by (rule held_edit [OF no b]) blast
  have "held ?ht' xs = held ?ht' us @ held ?ht' [n] @ held ?ht' vs"
    unfolding h(1) by (simp add: held_def)
  then have "held ?ht' xs = held ht us @ c # held ht vs" using h(3,4,5) by simp
  then show "contents ?ht' xs + {#b_data b#} = contents ht xs + {#b_data c#}"
    using h(2) by (simp add: contents_def)
qed

lemma flow_requeue:
  assumes inv: "flow_inv ht cs xs" and b: "bheap ht a = Some b"
  shows "\<exists>ht' xs'. res_bind (list_remove (listNode b) ht) (list_push (listNode b)) = Inr ht' \<and>
    flow_inv ht' cs xs' \<and> contents ht' xs' = contents ht xs \<and> config ht' = config ht \<and>
    ht_sent ht' = ht_sent ht \<and> aggInProgress ht' = aggInProgress ht \<and> bheap ht' = bheap ht"
proof -
  have hi: "heap_inv ht cs xs" using inv by (simp add: flow_inv_def)
  then have no: "nodes_inv ht xs" and fr: "fresh_inv ht" by (simp_all add: heap_inv_def)
  obtain us n vs where n: "xs = us @ n # vs" "listNode b = Some n"
    by (rule node_of_bucket [OF no b]) blast
  have "nodes_inv ht (us @ n # vs)" using no n(1) by simp
  then obtain l where l: "res_bind (list_remove (Some n) ht) (list_push (Some n)) = Inr (ht\<lparr>exportList := l\<rparr>)"
      "bl_inv l (us @ vs @ [n])" "same_nodes (exportList ht) l"
    using requeue_ok by blast
  let ?ht' = "ht\<lparr>exportList := l\<rparr>"
  have cf: "config ?ht' = config ht" by (simp add: config_def)
  have "nodes_inv ?ht' (us @ vs @ [n])"
    by (rule nodes_inv_reorder [OF no l(3,2)]) (use n in auto)
  then have "heap_inv ?ht' cs (us @ vs @ [n])"
    using hi fresh_inv_reorder [OF fr l(3)]
    by (simp add: heap_inv_def chains_inv_def blocks_inv_def block_size_def)
  moreover have "keyed ?ht' = keyed ht" by (simp add: keyed_def config_same [OF cf])
  ultimately have "flow_inv ?ht' cs (us @ vs @ [n])"
    using inv by (simp add: flow_inv_def config_same [OF cf])
  moreover have "held ?ht' ys = held ht ys" for ys
    by (simp add: held_def same_nodes_bucket [OF l(3)])
  then have "contents ?ht' (us @ vs @ [n]) = contents ht (us @ vs @ [n])" by (simp add: contents_def)
  then have "contents ?ht' (us @ vs @ [n]) = contents ht xs" by (simp add: contents_def n(1) held_def)
  ultimately show ?thesis
    using l(1) n(2) cf by (intro exI [of _ ?ht'] exI [of _ "us @ vs @ [n]"]) simp
qed

text \<open>
  A record for a flow in the table is either combined with it, or forces the flow out of the
  table.
\<close>

definition key_free :: "hashtable \<Rightarrow> bytes \<Rightarrow> bool" where
  "key_free ht d \<longleftrightarrow> (\<forall>a b. bheap ht a = Some b \<longrightarrow> inTable b \<longrightarrow> flow_key ht (b_data b) \<noteq> flow_key ht d)"

lemma refresh_ok:
  assumes inv: "flow_inv ht cs xs" and b: "bheap ht a = Some b" and t: "inTable b"
  shows "\<exists>ht' cs' xs'. refresh_bucket (Some a) now ht = Inr ht' \<and> flow_inv ht' cs' xs' \<and>
    contents ht' xs' = contents ht xs \<and> config ht' = config ht \<and> ht_sent ht' = ht_sent ht \<and>
    aggInProgress ht' = aggInProgress ht \<and>
    (now + int (unat (inactiveTimeout ht)) < activeExpireTime b \<longrightarrow> key_free ht' (b_data b))"
proof -
  let ?c = "b\<lparr>inactiveExpireTime := now + int (unat (inactiveTimeout ht))\<rparr>"
  let ?ht1 = "ht\<lparr>bheap := (bheap ht)(a \<mapsto> ?c)\<rparr>"
  have "length (b_data b) = block_size ht" using inv b by (simp add: flow_inv_def heap_inv_def blocks_inv_def)
  then have i1: "flow_inv ?ht1 cs xs" and m1: "contents ?ht1 xs + {#b_data b#} = contents ht xs + {#b_data b#}"
    using flow_edit [OF inv b, of ?c] by (simp_all add: same_links_def)
  have c1: "config ?ht1 = config ht" by (simp add: config_def)
  have b1: "bheap ?ht1 a = Some ?c" and t1: "inTable ?c" using t by simp_all
  have start: "refresh_bucket (Some a) now ht =
      (if activeExpireTime ?c > inactiveExpireTime ?c
       then res_bind (res_bind (list_remove (listNode ?c) ?ht1) (list_push (listNode ?c))) (removeBucket (Some a))
       else Inr ?ht1)"
    using b by (simp add: refresh_bucket_def bucket_upd_ok bucket_at_def res_bind_assoc)
  show ?thesis
  proof (cases "activeExpireTime ?c > inactiveExpireTime ?c")
    case False
    then show ?thesis
      using start i1 m1 c1 by (intro exI [of _ ?ht1] exI [of _ cs] exI [of _ xs]) simp
  next
    case True
    obtain ht2 xs2 where q: "res_bind (list_remove (listNode ?c) ?ht1) (list_push (listNode ?c)) = Inr ht2"
        "flow_inv ht2 cs xs2" "contents ht2 xs2 = contents ?ht1 xs" "config ht2 = config ?ht1"
        "ht_sent ht2 = ht_sent ?ht1" "aggInProgress ht2 = aggInProgress ?ht1" "bheap ht2 = bheap ?ht1"
      using flow_requeue [OF i1 b1] by blast
    have b2: "bheap ht2 a = Some ?c" using q(7) b1 by simp
    obtain ht3 cs3 where r: "removeBucket (Some a) ht2 = Inr ht3" "flow_inv ht3 cs3 xs2" "frame ht2 ht3"
        "contents ht3 xs2 = contents ht2 xs2" "aggInProgress ht3 = aggInProgress ht2"
        "\<forall>x e. bheap ht3 x = Some e \<longrightarrow> inTable e \<longrightarrow> flow_key ht3 (b_data e) \<noteq> flow_key ht2 (b_data ?c)"
      using remove_flow [OF q(2) b2 t1] by blast
    have c3: "config ht3 = config ht2" using r(3) by (simp add: frame_def)
    have "key_free ht3 (b_data b)" using r(6) by (simp add: key_free_def config_same(2) [OF c3])
    then show ?thesis
      using start True q m1 c1 r by (intro exI [of _ ht3] exI [of _ cs3] exI [of _ xs2]) (simp add: frame_def)
  qed
qed

lemma force_expiry_ok:
  assumes inv: "flow_inv ht cs xs" and b: "bheap ht a = Some b" and t: "inTable b"
    and k: "flow_key ht (b_data b) = flow_key ht d"
  shows "\<exists>ht' cs'. force_expiry (Some a) ht = Inr ht' \<and> flow_inv ht' cs' xs \<and>
    contents ht' xs = contents ht xs \<and> config ht' = config ht \<and> ht_sent ht' = ht_sent ht \<and>
    aggInProgress ht' = aggInProgress ht \<and> key_free ht' d"
proof -
  let ?c = "b\<lparr>forceExpiry := True\<rparr>"
  let ?ht1 = "ht\<lparr>bheap := (bheap ht)(a \<mapsto> ?c)\<rparr>"
  have "length (b_data b) = block_size ht" using inv b by (simp add: flow_inv_def heap_inv_def blocks_inv_def)
  then have i1: "flow_inv ?ht1 cs xs" and m1: "contents ?ht1 xs + {#b_data b#} = contents ht xs + {#b_data b#}"
    using flow_edit [OF inv b, of ?c] by (simp_all add: same_links_def)
  have c1: "config ?ht1 = config ht" by (simp add: config_def)
  have b1: "bheap ?ht1 a = Some ?c" and t1: "inTable ?c" using t by simp_all
  obtain ht3 cs3 where r: "removeBucket (Some a) ?ht1 = Inr ht3" "flow_inv ht3 cs3 xs" "frame ?ht1 ht3"
      "contents ht3 xs = contents ?ht1 xs" "aggInProgress ht3 = aggInProgress ?ht1"
      "\<forall>x e. bheap ht3 x = Some e \<longrightarrow> inTable e \<longrightarrow> flow_key ht3 (b_data e) \<noteq> flow_key ?ht1 (b_data ?c)"
    using remove_flow [OF i1 b1 t1] by blast
  have c3: "config ht3 = config ht" using r(3) c1 by (simp add: frame_def)
  have "key_free ht3 d"
    using r(6) k by (simp add: key_free_def config_same(2) [OF c3] config_same(2) [OF c1])
  then show ?thesis
    using r m1 c3 b by (intro exI [of _ ht3] exI [of _ cs3]) (simp add: force_expiry_def bucket_upd_ok frame_def)
qed

lemma forward_found_ok:
  assumes inv: "flow_inv ht cs xs" and b: "bheap ht a = Some b" and t: "inTable b"
    and k: "flow_key ht (b_data b) = flow_key ht d" and d: "length d = block_size ht"
  shows "\<exists>found ht' cs' xs'. forward_found (Some a) d now ht = Inr (found, ht') \<and> flow_inv ht' cs' xs' \<and>
    config ht' = config ht \<and> ht_sent ht' = ht_sent ht \<and> (found = (\<not> is_overdue now b)) \<and>
    (if found then \<exists>d'. combines ht (b_data b) d d' \<and> contents ht' xs' + {#b_data b#} = contents ht xs + {#d'#}
     else contents ht' xs' = contents ht xs \<and> key_free ht' d) \<and>
    (found \<longrightarrow> now + int (unat (inactiveTimeout ht)) < activeExpireTime b \<longrightarrow> key_free ht' d)"
proof (cases "is_overdue now b")
  case True
  obtain ht' cs' where "force_expiry (Some a) ht = Inr ht'" "flow_inv ht' cs' xs"
      "contents ht' xs = contents ht xs" "config ht' = config ht" "ht_sent ht' = ht_sent ht" "key_free ht' d"
    using force_expiry_ok [OF inv b t k] by blast
  then show ?thesis
    using True b by (intro exI [of _ False] exI [of _ ht'] exI [of _ cs'] exI [of _ xs])
      (simp add: forward_found_def bucket_at_ok)
next
  case False
  have wf: "wf_layout ht" and len: "length (b_data b) = block_size ht"
    using inv b by (simp_all add: flow_inv_def heap_inv_def blocks_inv_def)
  obtain d' where a': "aggregate_fields ht False 0 (fieldInfo (dataTemplate ht)) (b_data b) d False = Inr (d', False)"
    and cb: "combines ht (b_data b) d d'"
    using aggregate_combines [OF wf len d] by blast
  let ?c = "b\<lparr>b_data := d'\<rparr>"
  let ?ht1 = "ht\<lparr>bheap := (bheap ht)(a \<mapsto> ?c)\<rparr>"
  have e: "flow_inv ?ht1 cs xs" "contents ?ht1 xs + {#b_data b#} = contents ht xs + {#d'#}"
    using flow_edit [OF inv b, of ?c] cb combines_key [OF cb] by (simp_all add: same_links_def combines_def)
  have l: "aggregateFlow (Some a) d False ht = Inr (False, agg_release ?ht1)"
    using b a' by (simp add: aggregateFlow_def bucket_at_ok bucket_upd_ok)
  let ?ht2 = "agg_release ?ht1"
  have i2: "flow_inv ?ht2 cs xs" using e(1) by (simp add: agg_release_def flow_inv_lock)
  have b2: "bheap ?ht2 a = Some ?c" "inTable ?c" using t by (simp_all add: agg_release_def)
  obtain ht3 cs3 xs3 where r: "refresh_bucket (Some a) now ?ht2 = Inr ht3" "flow_inv ht3 cs3 xs3"
      "contents ht3 xs3 = contents ?ht2 xs" "config ht3 = config ?ht2" "ht_sent ht3 = ht_sent ?ht2"
      "now + int (unat (inactiveTimeout ?ht2)) < activeExpireTime ?c \<longrightarrow> key_free ht3 (b_data ?c)"
    using refresh_ok [OF i2 b2, of now] by blast
  have c3: "config ht3 = config ht" using r(4) by (simp add: agg_release_def config_def)
  have "flow_key ht3 d' = flow_key ht3 d" using combines_key [OF cb] k by (simp add: config_same(2) [OF c3])
  then have "now + int (unat (inactiveTimeout ht)) < activeExpireTime b \<longrightarrow> key_free ht3 d"
    using r(6) by (simp add: agg_release_def key_free_def)
  moreover note r(1-5)
  moreover have "contents ?ht2 xs = contents ?ht1 xs"
    by (simp add: contents_def agg_release_def held_def node_bucket_def)
  moreover have "config ?ht2 = config ht" "ht_sent ?ht2 = ht_sent ht" by (simp_all add: agg_release_def config_def)
  ultimately show ?thesis
    using False b l e(2) cb
    by (intro exI [of _ True] exI [of _ ht3] exI [of _ cs3] exI [of _ xs3])
      (auto simp: forward_found_def bucket_at_ok)
qed

section \<open>Receiving a record\<close>

lemma insert_flow:
  assumes inv: "flow_inv ht cs xs" and free: "key_free ht d" and d: "length d = block_size ht"
  shows "\<exists>ht' cs' xs'. insert_new (slot_of ht d) d now ht = Inr ht' \<and> flow_inv ht' cs' xs' \<and>
    contents ht' xs' = contents ht xs + {#d#} \<and> config ht' = config ht \<and> ht_sent ht' = ht_sent ht"
proof -
  have hi: "heap_inv ht cs xs" and k: "keyed ht" using inv by (simp_all add: flow_inv_def)
  have h: "unat (slot_of ht d) < length (buckets ht)" using inv slot_bound by (auto simp: flow_inv_def)
  obtain ht' a n c where i: "insert_new (slot_of ht d) d now ht = Inr ht'"
      "heap_inv ht' (cs(unat (slot_of ht d) := a # cs (unat (slot_of ht d)))) (xs @ [n])"
      "config ht' = config ht" "length (buckets ht') = length (buckets ht)" "ht_sent ht' = ht_sent ht"
      "map core (held ht' xs) = map core (held ht xs)" "held ht' [n] = [c]"
      "bheap ht' a = Some c" "b_hash c = slot_of ht d" "b_data c = d"
      "\<forall>x e. x \<noteq> a \<longrightarrow> bheap ht' x = Some e \<longrightarrow>
         (\<exists>b. bheap ht x = Some b \<and> core e = core b \<and> inTable e = inTable b \<and> b_hash e = b_hash b)"
    using insert_new_ok [OF hi h d, of now] by blast
  have old: "\<exists>b. bheap ht x = Some b \<and> inTable b \<and> b_hash e = b_hash b \<and> b_data e = b_data b"
    if "x \<noteq> a" "bheap ht' x = Some e" "inTable e" for x e
    using i(11) that core_eqD by metis
  have "keyed ht'"
    unfolding keyed_def config_same [OF i(3)]
  proof (intro conjI allI impI)
    fix x e assume e: "bheap ht' x = Some e" "inTable e"
    show "b_hash e = slot_of ht (b_data e)"
    proof (cases "x = a")
      case True
      then show ?thesis using e i by simp
    next
      case False
      then show ?thesis using old [OF False e] k by (auto simp: keyed_def)
    qed
  next
    fix x e x' e'
    assume e: "bheap ht' x = Some e" "inTable e" "bheap ht' x' = Some e'" "inTable e'"
      and eq: "flow_key ht (b_data e) = flow_key ht (b_data e')"
    have new: "flow_key ht (b_data f) \<noteq> flow_key ht d" if "y \<noteq> a" "bheap ht' y = Some f" "inTable f" for y f
      using old [OF that] free by (auto simp: key_free_def)
    have ad: "f = c" if "bheap ht' a = Some f" for f using that i by simp
    show "x = x'"
    proof (cases "x = a \<or> x' = a")
      case True
      then show ?thesis using e eq new [of x e] new [of x' e'] ad i(10) by metis
    next
      case False
      then obtain f f' where "bheap ht x = Some f" "inTable f" "b_data e = b_data f"
          "bheap ht x' = Some f'" "inTable f'" "b_data e' = b_data f'"
        using old [of x e] old [of x' e'] e by blast
      then show ?thesis using k eq unfolding keyed_def by metis
    qed
  qed
  then have "flow_inv ht' (cs(unat (slot_of ht d) := a # cs (unat (slot_of ht d)))) (xs @ [n])"
    using inv i by (simp add: flow_inv_def config_same [OF i(3)])
  moreover have "contents ht' (xs @ [n]) = contents ht xs + {#d#}"
    using core_lists(3) [OF i(6)] i(7,10) by (simp add: contents_def)
  ultimately show ?thesis using i(1,3,5) by blast
qed

lemma bucket_in_contents:
  assumes "flow_inv ht cs xs" and "bheap ht a = Some b"
  shows "b_data b \<in># contents ht xs"
proof -
  have "nodes_inv ht xs" using assms(1) by (simp add: flow_inv_def heap_inv_def)
  then obtain us n vs where "held ht xs = held ht us @ b # held ht vs"
    by (rule held_edit [OF _ assms(2)]) blast
  then show ?thesis by (simp add: contents_def)
qed

text \<open>What a record does to the contents of the table.\<close>

definition absorbs :: "hashtable \<Rightarrow> bytes \<Rightarrow> bytes multiset \<Rightarrow> bytes multiset \<Rightarrow> bool" where
  "absorbs ht d M M' \<longleftrightarrow>
     M' = M + {#d#} \<or>
     (\<exists>b d'. b \<in># M \<and> flow_key ht b = flow_key ht d \<and> combines ht b d d' \<and> M' + {#b#} = M + {#d'#})"

lemma flow_inv_stat: "flow_inv (ht\<lparr>statRecordsReceived := v\<rparr>) cs xs = flow_inv ht cs xs"
  by (simp add: flow_inv_def heap_inv_def chains_inv_def nodes_inv_def fresh_inv_def
      blocks_inv_def node_bucket_def block_size_def wf_layout_def keyed_def slot_of_def flow_key_def)

lemma bufferDataBlock_ok:
  assumes inv: "flow_inv ht0 cs xs" and d: "length d = block_size ht0"
  shows "\<exists>ht' cs' xs'. bufferDataBlock d now ht0 = Some (Inr ht') \<and> flow_inv ht' cs' xs' \<and>
    \<not> aggInProgress ht' \<and> config ht' = config ht0 \<and> ht_sent ht' = ht_sent ht0 \<and>
    absorbs ht0 d (contents ht0 xs) (contents ht' xs')"
proof -
  let ?ht = "ht0\<lparr>statRecordsReceived := statRecordsReceived ht0 + 1\<rparr>"
  let ?h = "slot_of ?ht d"
  have c0: "config ?ht = config ht0" by (simp add: config_def)
  have i: "flow_inv ?ht cs xs" using inv by (simp only: flow_inv_stat)
  have m0: "contents ?ht xs = contents ht0 xs" by (simp add: contents_def held_def node_bucket_def)
  have d': "length d = block_size ?ht" using d by (simp add: block_size_def)
  have wf: "wf_layout ?ht" and nb: "\<not> biflowAggregation ?ht" using i by (simp_all add: flow_inv_def)
  have gh: "getHash ?ht d False = Inr ?h" using d' by (intro getHash_ok [OF wf]) (simp add: block_size_def)
  obtain r pr where r: "lookupBucket ?h d False ?ht = Some (Inr (r, pr))"
      "case r of
         None \<Rightarrow> \<forall>a b. bheap ?ht a = Some b \<longrightarrow> inTable b \<longrightarrow> flow_key ?ht (b_data b) \<noteq> flow_key ?ht d
       | Some a \<Rightarrow> \<exists>b. bheap ?ht a = Some b \<and> inTable b \<and> flow_key ?ht (b_data b) = flow_key ?ht d"
    using lookup_ok [OF i d'] by blast
  have rel: "flow_inv (agg_release h) cs xs = flow_inv h cs xs" "contents (agg_release h) = contents h"
      "\<not> aggInProgress (agg_release h)" "config (agg_release h) = config h" "ht_sent (agg_release h) = ht_sent h"
    for h cs xs
    by (simp_all add: agg_release_def flow_inv_lock contents_def held_lock config_def fun_eq_iff)
  have fin: "\<exists>ht' cs' xs'. bufferDataBlock d now ht0 = Some (Inr ht') \<and> flow_inv ht' cs' xs' \<and>
      \<not> aggInProgress ht' \<and> config ht' = config ht0 \<and> ht_sent ht' = ht_sent ht0 \<and>
      absorbs ht0 d (contents ht0 xs) (contents ht' xs')"
    if "bufferDataBlock d now ht0 = Some (Inr (agg_release ht2))" "flow_inv ht2 cs2 xs2"
      "config ht2 = config ht0" "ht_sent ht2 = ht_sent ht0" "absorbs ht0 d (contents ht0 xs) (contents ht2 xs2)" for ht2 cs2 xs2
    using that rel by (intro exI [of _ "agg_release ht2"] exI [of _ cs2] exI [of _ xs2]) simp
  show ?thesis
  proof (cases r)
    case None
    then have "key_free ?ht d" using r(2) by (simp add: key_free_def)
    then obtain ht2 cs2 xs2 where i2: "insert_new ?h d now ?ht = Inr ht2" "flow_inv ht2 cs2 xs2"
        "contents ht2 xs2 = contents ?ht xs + {#d#}" "config ht2 = config ?ht" "ht_sent ht2 = ht_sent ?ht"
      using insert_flow [OF i _ d'] by blast
    have "bufferDataBlock d now ht0 = Some (Inr (agg_release ht2))"
      using gh r(1) None nb i2(1) by (simp add: bufferDataBlock_def Let_def ro_bind_def)
    then show ?thesis using i2 c0 m0 by (intro fin [of ht2 cs2 xs2]) (simp_all add: absorbs_def)
  next
    case (Some a)
    then obtain b where b: "bheap ?ht a = Some b" "inTable b" "flow_key ?ht (b_data b) = flow_key ?ht d"
      using r(2) by auto
    obtain found ht1 cs1 xs1 where f: "forward_found (Some a) d now ?ht = Inr (found, ht1)" "flow_inv ht1 cs1 xs1"
        "config ht1 = config ?ht" "ht_sent ht1 = ht_sent ?ht"
        "if found then \<exists>d'. combines ?ht (b_data b) d d' \<and> contents ht1 xs1 + {#b_data b#} = contents ?ht xs + {#d'#}
         else contents ht1 xs1 = contents ?ht xs \<and> key_free ht1 d"
      using forward_found_ok [OF i b d'] by blast
    show ?thesis
    proof (cases found)
      case True
      have run: "bufferDataBlock d now ht0 = Some (Inr (agg_release ht1))"
        using gh r(1) Some f(1) True by (simp add: bufferDataBlock_def Let_def ro_bind_def)
      obtain e where "combines ?ht (b_data b) d e" "contents ht1 xs1 + {#b_data b#} = contents ?ht xs + {#e#}"
        using f(5) True by auto
      moreover have "combines ?ht = combines ht0" "flow_key ?ht = flow_key ht0"
        by (simp_all add: combines_def flow_key_def block_size_def fun_eq_iff)
      ultimately have "absorbs ht0 d (contents ht0 xs) (contents ht1 xs1)"
        using bucket_in_contents [OF i b(1)] b(3) m0 unfolding absorbs_def by metis
      then show ?thesis using run f(2,3,4) c0 by (intro fin [of ht1 cs1 xs1]) simp_all
    next
      case False
      have c1: "config ht1 = config ?ht" by (rule f(3))
      have d1: "length d = block_size ht1" using d' config_same(4) [OF c1] by simp
      have "key_free ht1 d" and m1: "contents ht1 xs1 = contents ?ht xs" using f(5) False by auto
      then obtain ht2 cs2 xs2 where i2: "insert_new (slot_of ht1 d) d now ht1 = Inr ht2" "flow_inv ht2 cs2 xs2"
          "contents ht2 xs2 = contents ht1 xs1 + {#d#}" "config ht2 = config ht1" "ht_sent ht2 = ht_sent ht1"
        using insert_flow [OF f(2) _ d1] by blast
      have "bufferDataBlock d now ht0 = Some (Inr (agg_release ht2))"
        using gh r(1) Some f(1) False i2(1) by (simp add: bufferDataBlock_def Let_def ro_bind_def config_same(3) [OF c1])
      then show ?thesis
        using i2 c0 m0 m1 f(3,4) by (intro fin [of ht2 cs2 xs2]) (simp_all add: absorbs_def)
    qed
  qed
qed

text \<open>A record that is aggregated before the active timeout takes its flow out of the table.\<close>

lemma second_record:
  assumes inv: "flow_inv ht0 cs xs" and d: "length d = block_size ht0"
    and b: "bheap ht0 a = Some b" "inTable b" "flow_key ht0 (b_data b) = flow_key ht0 d"
    and due: "\<not> is_overdue now b" "now + int (unat (inactiveTimeout ht0)) < activeExpireTime b"
  shows "\<exists>ht'. bufferDataBlock d now ht0 = Some (Inr ht') \<and> key_free ht' d"
proof -
  let ?ht = "ht0\<lparr>statRecordsReceived := statRecordsReceived ht0 + 1\<rparr>"
  have i: "flow_inv ?ht cs xs" using inv by (simp only: flow_inv_stat)
  have d': "length d = block_size ?ht" using d by (simp add: block_size_def)
  have wf: "wf_layout ?ht" and kd: "keyed ?ht" using i by (simp_all add: flow_inv_def)
  have c0: "config ?ht = config ht0" by (simp add: config_def)
  have key: "bheap ?ht a = Some b" "flow_key ?ht (b_data b) = flow_key ?ht d"
    using b by (simp_all add: config_same(2) [OF c0])
  have gh: "getHash ?ht d False = Inr (slot_of ?ht d)" using d' by (intro getHash_ok [OF wf]) (simp add: block_size_def)
  obtain r pr where r: "lookupBucket (slot_of ?ht d) d False ?ht = Some (Inr (r, pr))"
      "case r of
         None \<Rightarrow> \<forall>a b. bheap ?ht a = Some b \<longrightarrow> inTable b \<longrightarrow> flow_key ?ht (b_data b) \<noteq> flow_key ?ht d
       | Some a \<Rightarrow> \<exists>b. bheap ?ht a = Some b \<and> inTable b \<and> flow_key ?ht (b_data b) = flow_key ?ht d"
    using lookup_ok [OF i d'] by blast
  have "r = Some a"
  proof (cases r)
    case None
    then show ?thesis using r(2) key b(2) by auto
  next
    case (Some a')
    then obtain b' where b': "bheap ?ht a' = Some b'" "inTable b'" "flow_key ?ht (b_data b') = flow_key ?ht d"
      using r(2) by auto
    have "flow_key ?ht (b_data b') = flow_key ?ht (b_data b)" using b'(3) key(2) by simp
    then have "a' = a" using kd b'(1,2) key(1) b(2) unfolding keyed_def by blast
    then show ?thesis using Some by simp
  qed
  obtain found ht1 where f: "forward_found (Some a) d now ?ht = Inr (found, ht1)" "found = (\<not> is_overdue now b)"
      "found \<longrightarrow> now + int (unat (inactiveTimeout ?ht)) < activeExpireTime b \<longrightarrow> key_free ht1 d"
    using forward_found_ok [OF i key(1) b(2) key(2) d', of now] by blast
  then have run: "bufferDataBlock d now ht0 = Some (Inr (agg_release ht1))"
    using gh r(1) \<open>r = Some a\<close> due by (simp add: bufferDataBlock_def Let_def ro_bind_def)
  have "key_free ht1 d" using f due by simp
  then have "key_free (agg_release ht1) d" by (simp add: key_free_def agg_release_def flow_key_def)
  then show ?thesis using run by blast
qed

end
