(* ===== verification/Flow_Records.thy ===== *)
theory Flow_Records
  imports Flow_Blocks
begin

text \<open>
  From a received record to the block of octets that is inserted into the hashtable, and from a
  rule to the layout of the blocks: what is copied where, and that nothing outside of the block and
  of the record is touched.
\<close>

section \<open>Copying a field\<close>

text \<open>Every field of the record lies in its data.\<close>

definition readable :: "template_info \<Rightarrow> bytes \<Rightarrow> bool" where
  "readable ti src \<longleftrightarrow>
     (\<forall>fi \<in> set (take (unat (fieldCount ti)) (fieldInfo ti)). unat (offset fi) + flen fi \<le> length src)"

lemma find_field_some:
  "find_field i e fs n = Some k \<Longrightarrow>
   n \<le> k \<and> k - n < length fs \<and> ie_id (ftype (fs ! (k - n))) = i \<and> enterprise (ftype (fs ! (k - n))) = e"
proof (induction fs arbitrary: n)
  case (Cons f fs)
  show ?case
  proof (cases "ie_id (ftype f) = i \<and> enterprise (ftype f) = e")
    case True
    then show ?thesis using Cons.prems by simp
  next
    case False
    then have "find_field i e fs (Suc n) = Some k" using Cons.prems by (simp split: if_splits)
    note IH = Cons.IH [OF this]
    then have "k - n = Suc (k - Suc n)" by linarith
    then show ?thesis using IH by simp
  qed
qed simp

lemma getFieldInfo_some:
  assumes "getFieldInfo ti i e = Some fi"
  shows "fi \<in> set (take (unat (fieldCount ti)) (fieldInfo ti))" and "ie_id (ftype fi) = i" and "enterprise (ftype fi) = e"
proof -
  let ?fs = "take (unat (fieldCount ti)) (fieldInfo ti)"
  obtain k where k: "find_field i e ?fs 0 = Some k" "fi = fieldInfo ti ! k"
    using assms by (auto simp: getFieldInfo_def)
  note s = find_field_some [OF k(1)]
  then have f: "fi = ?fs ! k" and "k < length ?fs" using k(2) by simp_all
  then show "fi \<in> set ?fs" by (metis nth_mem)
  show "ie_id (ftype fi) = i" and "enterprise (ftype fi) = e" unfolding f using s by auto
qed

lemma untouched_sub:
  assumes "untouched F k m d d'" and "i \<le> k" and "k + m \<le> i + n"
  shows "untouched F i n d d'"
  using assms by (auto simp: untouched_def)

lemma poke_untouched:
  assumes "i + length bs \<le> length d" and "(k \<le> i \<and> i + length bs \<le> k + n) \<or> F \<le> i"
  shows "\<exists>d'. poke d i bs = Inr d' \<and> untouched F k n d d'"
  using untouched_put [OF assms] assms(1) by (simp add: poke_ok)

lemma clear_host_bits_ok:
  assumes "i + 4 \<le> length d" and "imask \<le> 32"
  shows "\<exists>d'. clear_host_bits imask d i = Inr d' \<and> untouched F i 4 d d'"
proof -
  have "\<exists>d'. poke d i (htonl_bytes w) = Inr d' \<and> untouched F i 4 d d'" for w
    using assms(1) by (intro poke_untouched) auto
  moreover have "\<exists>d'. poke d (i + j) (replicate (4 - j) 0) = Inr d' \<and> untouched F i 4 d d'" if "j \<le> 4" for j
    using assms(1) that by (intro poke_untouched) auto
  from this [of 0] this [of 1] this [of 2] this [of 3]
  have "\<exists>d'. poke d (i + 3) [0] = Inr d' \<and> untouched F i 4 d d'"
    "\<exists>d'. poke d (i + 2) [0, 0] = Inr d' \<and> untouched F i 4 d d'"
    "\<exists>d'. poke d (i + 1) [0, 0, 0] = Inr d' \<and> untouched F i 4 d d'"
    "\<exists>d'. poke d i [0, 0, 0, 0] = Inr d' \<and> untouched F i 4 d d'"
    by (simp_all add: numeral_eq_Suc)
  ultimately show ?thesis
    using assms by (auto simp: clear_host_bits_def rd32_def)
qed

lemma apply_modifier_ok:
  assumes "i + unat (ie_length t) \<le> length d" and "m \<le> 158"
  shows "\<exists>d'. apply_modifier t i m d = Inr d' \<and> untouched F i (unat (ie_length t)) d d'"
proof (cases "m \<ge> MASK_START \<and> (ie_id t = IPFIX_TYPEID_sourceIPv4Address \<or> ie_id t = IPFIX_TYPEID_destinationIPv4Address) \<and>
    ie_length t = 5")
  case False
  then show ?thesis by (auto simp: apply_modifier_def)
next
  case True
  let ?im = "of_int (32 - (int m - int MASK_START)) :: byte"
  have l: "unat (ie_length t) = 5" using True by simp
  have "32 - (int m - int MASK_START) = int (158 - m)" using True assms(2) by auto
  then have e: "?im = of_nat (158 - m)" by (metis of_int_of_nat_eq)
  have "158 - m \<le> 32" using True by auto
  then have "unat ?im \<le> 32" unfolding e by (subst unat_of_nat_byte) auto
  then have im: "?im \<le> 32" by (simp add: word_le_nat_alt)
  obtain d1 where d1: "poke d (i + 4) [?im] = Inr d1" "untouched F i 5 d d1"
    using poke_untouched [of "i + 4" "[?im]" d i 5 F] assms(1) l by auto
  then have "i + 4 \<le> length d1" using assms(1) l by (simp add: untouched_def)
  then obtain d2 where "clear_host_bits ?im d1 i = Inr d2" "untouched F i 4 d1 d2"
    using clear_host_bits_ok [OF _ im] by blast
  moreover have "apply_modifier t i m d = res_bind (poke d (i + 4) [?im]) (\<lambda>d1. clear_host_bits ?im d1 i)"
    using True assms(2) unfolding apply_modifier_def Let_def by (auto simp del: of_int_diff of_int_of_nat_eq)
  ultimately have "apply_modifier t i m d = Inr d2" using d1(1) by (simp only: res_bind_Inr)
  moreover have "untouched F i 5 d d2"
    using untouched_trans [OF d1(2)] untouched_sub [of F i 4 d1 d2 i 5] \<open>untouched F i 4 d1 d2\<close> by simp
  ultimately show ?thesis using l by simp
qed

text \<open>The value a field receives.\<close>

lemma fitted_ok:
  assumes "so + unat (ie_length st) \<le> length src"
  shows "\<exists>v. fitted dt st src so = Inr v \<and>
    (case v of None \<Rightarrow> unat (ie_length dt) < unat (ie_length st)
     | Some (bs, n) \<Rightarrow> length bs = unat (ie_length dt) \<and>
         (unat (ie_length st) \<le> unat (ie_length dt) \<longrightarrow> ie_id dt \<notin> {8, 12} \<longrightarrow> \<not> is_front_payload dt \<longrightarrow>
            be_of bs = be_of (take (unat (ie_length st)) (drop so src))))"
proof -
  let ?sl = "unat (ie_length st)" and ?dl = "unat (ie_length dt)"
  have p: "peek src so ?sl = Inr (take ?sl (drop so src))" "length (take ?sl (drop so src)) = ?sl"
    using assms by (simp_all add: peek_ok)
  have "peek src so ?dl = Inr (take ?dl (drop so src))" "length (take ?dl (drop so src)) = ?dl" if "?dl < ?sl"
    using assms that by (simp_all add: peek_ok)
  then show ?thesis
    using p by (cases "?dl = ?sl"; cases "?dl > ?sl") (auto simp: fitted_def Let_def be_of_append)
qed

lemma copyData_ok:
  assumes dst: "unat (offset dfi) + flen dfi \<le> F" "F \<le> length dst"
    and dp: "is_front_payload (ftype dfi) \<longrightarrow> F \<le> dp \<and> dp + 8 \<le> length dst"
    and src: "unat (offset sfi) + flen sfi \<le> length src" and m: "m \<le> 158"
    and same: "ie_id (ftype dfi) = ie_id (ftype sfi)" "enterprise (ftype dfi) = enterprise (ftype sfi)"
  shows "\<exists>d'. copyData dfi dp dst sfi src m = Inr d' \<and> untouched F (unat (offset dfi)) (flen dfi) dst d' \<and>
    (flen sfi \<le> flen dfi \<longrightarrow> ie_id (ftype dfi) \<notin> {8, 12} \<longrightarrow> \<not> is_front_payload (ftype dfi) \<longrightarrow>
       be_of (piece dfi d') = be_of (piece sfi src))"
proof -
  let ?dt = "ftype dfi" and ?i = "unat (offset dfi)"
  obtain v where v: "fitted ?dt (ftype sfi) src (unat (offset sfi)) = Inr v"
    and vc: "case v of None \<Rightarrow> flen dfi < flen sfi
     | Some (bs, n) \<Rightarrow> length bs = flen dfi \<and>
         (flen sfi \<le> flen dfi \<longrightarrow> ie_id ?dt \<notin> {8, 12} \<longrightarrow> \<not> is_front_payload ?dt \<longrightarrow>
            be_of bs = be_of (piece sfi src))"
    using fitted_ok [of "unat (offset sfi)" "ftype sfi" src ?dt] src unfolding flen_def piece_def by blast
  show ?thesis
  proof (cases v)
    case None
    then show ?thesis using v vc same by (auto simp: copyData_def Let_def)
  next
    case (Some bn)
    then obtain bs n where bn: "v = Some (bs, n)" by (cases bn) auto
    then have len: "length bs = flen dfi" using vc by simp
    let ?d1 = "put_bytes dst ?i bs"
    have d1: "poke dst ?i bs = Inr ?d1" "untouched F ?i (flen dfi) dst ?d1" "piece dfi ?d1 = bs"
      using len dst by (auto simp: poke_ok piece_def intro!: untouched_put piece_put_same)
    have l1: "length ?d1 = length dst" using d1(2) by (simp add: untouched_def)
    obtain d2 where d2: "(if is_front_payload ?dt then poke ?d1 (dp + 4) (rev (be_bytes 4 n)) else Inr ?d1) = Inr d2"
        "untouched F ?i (flen dfi) ?d1 d2" "\<not> is_front_payload ?dt \<Longrightarrow> d2 = ?d1"
    proof (cases "is_front_payload ?dt")
      case True
      then show ?thesis
        using that poke_untouched [of "dp + 4" "rev (be_bytes 4 n)" ?d1 ?i "flen dfi" F] dp l1 by auto
    next
      case False
      then show ?thesis using that [of ?d1] by simp
    qed
    have l2: "length d2 = length dst" using d2(2) l1 by (simp add: untouched_def)
    obtain d3 where d3: "apply_modifier ?dt ?i m d2 = Inr d3" "untouched F ?i (flen dfi) d2 d3"
      using apply_modifier_ok [of ?i ?dt d2 m F] dst l2 m unfolding flen_def by auto
    have "d3 = d2" if "ie_id ?dt \<notin> {8, 12}"
      using d3(1) that by (auto simp: apply_modifier_def split: if_splits)
    then have "be_of (piece dfi d3) = be_of (piece sfi src)"
      if "flen sfi \<le> flen dfi" "ie_id ?dt \<notin> {8, 12}" "\<not> is_front_payload ?dt"
      using that vc bn d1(3) d2(3) by simp
    moreover have "copyData dfi dp dst sfi src m = Inr d3"
      using v bn d1(1) d2(1) d3(1) same by (simp add: copyData_def Let_def)
    ultimately show ?thesis
      using untouched_trans [OF untouched_trans [OF d1(2) d2(2)] d3(2)] by blast
  qed
qed

lemma copy_mask_ok:
  assumes ti: "readable ti src" and d: "unat (offset hfi) + flen hfi \<le> length d"
  shows "\<exists>d'. copy_mask ti src hfi k d = Inr d' \<and> untouched F (unat (offset hfi)) (flen hfi) d d'"
proof (cases "getFieldInfo ti k 0")
  case None
  then show ?thesis by (simp add: copy_mask_def)
next
  case (Some tfi)
  show ?thesis
  proof (cases "ie_length (ftype hfi) = 5 \<and> ie_length (ftype tfi) = 1")
    case False
    then show ?thesis using Some by (auto simp: copy_mask_def)
  next
    case True
    have "unat (offset tfi) + flen tfi \<le> length src"
      using ti getFieldInfo_some(1) [OF Some] by (simp add: readable_def)
    then have "rd8 src (unat (offset tfi)) = Inr (src ! unat (offset tfi))"
      using True by (simp add: rd8_def flen_def)
    moreover have "flen hfi = 5" using True by (simp add: flen_def)
    ultimately show ?thesis
      using True Some d poke_untouched [of "unat (offset hfi) + 4" "[src ! unat (offset tfi)]" d "unat (offset hfi)" 5 F]
      by (simp add: copy_mask_def)
  qed
qed

text \<open>The value a counter of the flow has in a record.\<close>

definition record_value :: "template_info \<Rightarrow> bytes \<Rightarrow> ie_info \<Rightarrow> nat" where
  "record_value ti src t =
     (case getFieldInfo ti (ie_id t) (enterprise t) of None \<Rightarrow> 0 | Some fi \<Rightarrow> be_of (piece fi src))"

definition narrow :: "template_info \<Rightarrow> ie_info \<Rightarrow> bool" where
  "narrow ti t \<longleftrightarrow>
     (case getFieldInfo ti (ie_id t) (enterprise t) of None \<Rightarrow> True | Some fi \<Rightarrow> flen fi \<le> unat (ie_length t))"

lemma fill_field_ok:
  assumes ti: "readable ti src" and d: "unat (offset hfi) + flen hfi \<le> F" "F \<le> length d"
    and dp: "is_front_payload (ftype hfi) \<longrightarrow> F \<le> dp \<and> dp + 8 \<le> length d" and m: "m \<le> 158"
  shows "\<exists>d'. fill_field ti src hfi dp m d = Inr d' \<and> untouched F (unat (offset hfi)) (flen hfi) d d' \<and>
    (narrow ti (ftype hfi) \<longrightarrow> ie_id (ftype hfi) \<notin> {8, 12} \<longrightarrow> \<not> is_front_payload (ftype hfi) \<longrightarrow>
       be_of (piece hfi d') = record_value ti src (ftype hfi))"
proof (cases "getFieldInfo ti (ie_id (ftype hfi)) (enterprise (ftype hfi))")
  case None
  let ?z = "replicate (flen hfi) 0"
  have "poke d (unat (offset hfi)) ?z = Inr (put_bytes d (unat (offset hfi)) ?z)"
    "untouched F (unat (offset hfi)) (flen hfi) d (put_bytes d (unat (offset hfi)) ?z)"
    "piece hfi (put_bytes d (unat (offset hfi)) ?z) = ?z"
    using d by (auto simp: poke_ok piece_def intro!: untouched_put piece_put_same)
  then show ?thesis using None by (auto simp: fill_field_def record_value_def flen_def)
next
  case (Some tfi)
  have src: "unat (offset tfi) + flen tfi \<le> length src"
    using ti getFieldInfo_some(1) [OF Some] by (simp add: readable_def)
  obtain d1 where d1: "copyData hfi dp d tfi src m = Inr d1" "untouched F (unat (offset hfi)) (flen hfi) d d1"
      "flen tfi \<le> flen hfi \<longrightarrow> ie_id (ftype hfi) \<notin> {8, 12} \<longrightarrow> \<not> is_front_payload (ftype hfi) \<longrightarrow>
       be_of (piece hfi d1) = be_of (piece tfi src)"
    using copyData_ok [OF d dp src m] getFieldInfo_some(2,3) [OF Some] by metis
  have "unat (offset hfi) + flen hfi \<le> length d1" using d d1(2) by (simp add: untouched_def)
  note cm = copy_mask_ok [OF ti this, of _ F]
  show ?thesis
  proof (cases "ie_id (ftype hfi) \<in> {8, 12}")
    case True
    then obtain d2 where "fill_field ti src hfi dp m d = Inr d2" "untouched F (unat (offset hfi)) (flen hfi) d1 d2"
      using Some d1(1) cm [of 9] cm [of 13] by (auto simp: fill_field_def)
    then show ?thesis using untouched_trans [OF d1(2)] True by blast
  next
    case False
    then have "fill_field ti src hfi dp m d = Inr d1" using Some d1(1) by (simp add: fill_field_def)
    then show ?thesis
      using d1(2,3) Some by (auto simp: record_value_def narrow_def flen_def)
  qed
qed

section \<open>A whole block\<close>

text \<open>Counters of packets and octets, in both directions.\<close>

definition is_counter :: "ie_info \<Rightarrow> bool" where
  "is_counter t \<longleftrightarrow> ie_length t = 8 \<and>
     (enterprise t = 0 \<and> ie_id t \<in> set [IPFIX_TYPEID_octetDeltaCount, IPFIX_TYPEID_packetDeltaCount,
        IPFIX_TYPEID_postOctetDeltaCount, IPFIX_TYPEID_postPacketDeltaCount, IPFIX_TYPEID_octetTotalCount,
        IPFIX_TYPEID_packetTotalCount, IPFIX_TYPEID_droppedOctetDeltaCount, IPFIX_TYPEID_droppedPacketDeltaCount] \<or>
      enterprise t = IPFIX_PEN_reverse \<and> ie_id t \<in> set [IPFIX_TYPEID_octetDeltaCount,
        IPFIX_TYPEID_packetDeltaCount, IPFIX_TYPEID_octetTotalCount, IPFIX_TYPEID_packetTotalCount])"


lemma counter_plain: "is_counter t \<Longrightarrow> ie_id t \<notin> {8, 12} \<and> \<not> is_front_payload t \<and> \<not> is_payload t"
  by (cases t) (auto simp: is_counter_def is_front_payload_def is_payload_def IPFIX_PEN_vermont_def IPFIX_PEN_reverse_def)

lemma counter_op: "is_counter t \<Longrightarrow> isToBeAggregated t \<and> field_op t = Some (8, addUint64Nbo)"
proof -
  assume c: "is_counter t"
  then obtain i e where t: "t = \<lparr>ie_id = i, enterprise = e, ie_length = 8\<rparr>"
    by (cases t) (simp add: is_counter_def)
  consider "e = 0" "i = 1" | "e = 0" "i = 2" | "e = 0" "i = 23" | "e = 0" "i = 24" | "e = 0" "i = 85" | "e = 0" "i = 86"
    | "e = 0" "i = 132" | "e = 0" "i = 133" | "e = IPFIX_PEN_reverse" "i = 1" | "e = IPFIX_PEN_reverse" "i = 2"
    | "e = IPFIX_PEN_reverse" "i = 85" | "e = IPFIX_PEN_reverse" "i = 86"
    using c unfolding is_counter_def t by auto
  then show ?thesis
    by cases (simp_all add: t isToBeAggregated_def field_op_def IPFIX_PEN_vermont_def IPFIX_PEN_reverse_def)
qed

lemma fill_block_ok:
  assumes ti: "readable ti src" and "laid_out fis i F" and "F \<le> length d"
    and "length dps = length fis" and "length ms = length fis" and "\<forall>m \<in> set ms. m \<le> 158"
    and "\<forall>k < length fis. is_front_payload (ftype (fis ! k)) \<longrightarrow> F \<le> dps ! k \<and> dps ! k + 8 \<le> length d"
  shows "\<exists>d'. fill_block ti src fis dps ms d = Inr d' \<and> length d' = length d \<and>
    (\<forall>j m. j + m \<le> i \<longrightarrow> take m (drop j d') = take m (drop j d)) \<and>
    (\<forall>fi \<in> set fis. is_counter (ftype fi) \<longrightarrow> narrow ti (ftype fi) \<longrightarrow>
       be_of (piece fi d') = record_value ti src (ftype fi))"
  using assms(2-)
proof (induction fis arbitrary: i d dps ms)
  case Nil
  then show ?case by simp
next
  case (Cons fi fis)
  obtain dp dps' m ms' where l: "dps = dp # dps'" "ms = m # ms'" "length dps' = length fis" "length ms' = length fis"
    using Cons.prems(3,4) by (cases dps; cases ms) auto
  have off: "unat (offset fi) = i" and lo: "laid_out fis (i + flen fi) F" using Cons.prems(1) by simp_all
  have bd: "unat (offset fi) + flen fi \<le> F" using off laid_out_le [OF lo] by simp
  have pd: "is_front_payload (ftype fi) \<longrightarrow> F \<le> dp \<and> dp + 8 \<le> length d"
    using Cons.prems(6) l(1) by (metis length_greater_0_conv list.discI nth_Cons_0)
  have "m \<le> 158" using Cons.prems(5) l(2) by simp
  from fill_field_ok [OF ti bd Cons.prems(2) pd this]
  obtain d1 where d1: "fill_field ti src fi dp m d = Inr d1" "untouched F i (flen fi) d d1"
      "narrow ti (ftype fi) \<longrightarrow> ie_id (ftype fi) \<notin> {8, 12} \<longrightarrow> \<not> is_front_payload (ftype fi) \<longrightarrow>
         be_of (piece fi d1) = record_value ti src (ftype fi)"
    unfolding off by blast
  have len: "length d1 = length d" using d1(2) by (simp add: untouched_def)
  have "\<forall>k < length fis. is_front_payload (ftype (fis ! k)) \<longrightarrow> F \<le> dps' ! k \<and> dps' ! k + 8 \<le> length d1"
    using Cons.prems(6) l(1) len by fastforce
  then obtain d' where d': "fill_block ti src fis dps' ms' d1 = Inr d'" "length d' = length d1"
      "\<forall>j m. j + m \<le> i + flen fi \<longrightarrow> take m (drop j d') = take m (drop j d1)"
      "\<forall>fi \<in> set fis. is_counter (ftype fi) \<longrightarrow> narrow ti (ftype fi) \<longrightarrow>
         be_of (piece fi d') = record_value ti src (ftype fi)"
    using Cons.IH [OF lo _ l(3,4)] Cons.prems(2,5) l(2) len by (metis list.set_intros(2))
  have "piece fi d' = piece fi d1" using d'(3) off by (simp add: piece_def)
  then have "be_of (piece f d') = record_value ti src (ftype f)"
    if "f \<in> set (fi # fis)" "is_counter (ftype f)" "narrow ti (ftype f)" for f
    using that d'(4) d1(3) counter_plain [of "ftype f"] by auto
  moreover have "take m (drop j d') = take m (drop j d)" if "j + m \<le> i" for j m
  proof -
    have "i \<le> F" using bd off by simp
    then have "take m (drop j d1) = take m (drop j d)" using d1(2) that by (simp add: untouched_def)
    moreover have "take m (drop j d') = take m (drop j d1)" using d'(3) that by simp
    ultimately show ?thesis by simp
  qed
  moreover have "fill_block ti src (fi # fis) dps ms d = Inr d'" using d1(1) d'(1) l by simp
  ultimately show ?case
    using d'(2) len by (intro exI [of _ d'] conjI allI ballI impI) simp_all
qed

section \<open>Layouts from rules\<close>

definition kept :: "rule \<Rightarrow> rule_field list" where
  "kept r = filter (\<lambda>rf. rf_modifier rf \<noteq> DISCARD) (rule_fields r)"

text \<open>
  Rules for which the layout is right: no variable-length field is kept, the combined fields
  have the length of their operation, and fields and private data fit into 16 bit.
\<close>

definition rule_ok :: "rule \<Rightarrow> bool" where
  "rule_ok r \<longleftrightarrow>
     length (rule_fields r) \<le> 255 \<and>
     (\<forall>rf \<in> set (kept r). ie_length (rf_type rf) \<noteq> 65535 \<and> op_fits (rf_type rf) \<and> rf_modifier rf \<le> 158) \<and>
     sum_list (map (\<lambda>rf. unat (ie_length (rf_type rf)) + getPrivateDataLength (rf_type rf)) (kept r)) < 65536"

lemma layout_fields_ok:
  assumes "\<forall>rf \<in> set (filter (\<lambda>rf. rf_modifier rf \<noteq> DISCARD) rs). ie_length (rf_type rf) \<noteq> 65535"
    and "unat fl + sum_list (map (\<lambda>rf. unat (ie_length (rf_type rf))) (filter (\<lambda>rf. rf_modifier rf \<noteq> DISCARD) rs)) < 65536"
    and "layout_fields rs fl = (fis, ms, fl2)"
  shows "laid_out fis (unat fl) (unat fl2) \<and> ms = map rf_modifier (filter (\<lambda>rf. rf_modifier rf \<noteq> DISCARD) rs) \<and>
    map ftype fis = map rf_type (filter (\<lambda>rf. rf_modifier rf \<noteq> DISCARD) rs) \<and>
    unat fl2 = unat fl + sum_list (map (\<lambda>rf. unat (ie_length (rf_type rf))) (filter (\<lambda>rf. rf_modifier rf \<noteq> DISCARD) rs))"
  using assms
proof (induction rs arbitrary: fl fis ms fl2)
  case Nil
  then show ?case by simp
next
  case (Cons rf rs)
  show ?case
  proof (cases "rf_modifier rf = DISCARD")
    case True
    then have f: "filter (\<lambda>rf. rf_modifier rf \<noteq> DISCARD) (rf # rs) = filter (\<lambda>rf. rf_modifier rf \<noteq> DISCARD) rs"
      by simp
    have "layout_fields rs fl = (fis, ms, fl2)" using Cons.prems(3) True by simp
    then show ?thesis unfolding f by (rule Cons.IH [OF Cons.prems(1,2) [unfolded f]])
  next
    case False
    let ?n = "unat (ie_length (rf_type rf))"
    have nv: "ie_length (rf_type rf) \<noteq> 65535" using Cons.prems(1) False by simp
    obtain fis' ms' where r: "layout_fields rs (fl + ie_length (rf_type rf)) = (fis', ms', fl2)"
        "fis = \<lparr>ftype = rf_type rf, offset = ucast fl, isVariableLength = False\<rparr> # fis'" "ms = rf_modifier rf # ms'"
      using Cons.prems(3) False nv
      by (cases "layout_fields rs (fl + ie_length (rf_type rf))") (simp add: Let_def)
    have "unat fl + ?n < 65536" using Cons.prems(2) False by simp
    then have s: "unat (fl + ie_length (rf_type rf)) = unat fl + ?n" by (simp add: unat_word_ariths)
    have "unat (fl + ie_length (rf_type rf)) + sum_list (map (\<lambda>rf. unat (ie_length (rf_type rf))) (filter (\<lambda>rf. rf_modifier rf \<noteq> DISCARD) rs)) < 65536"
      using Cons.prems(2) False by (simp add: s)
    moreover have "\<forall>rf \<in> set (filter (\<lambda>rf. rf_modifier rf \<noteq> DISCARD) rs). ie_length (rf_type rf) \<noteq> 65535"
      using Cons.prems(1) by simp
    ultimately have IH: "laid_out fis' (unat fl + ?n) (unat fl2)" "ms' = map rf_modifier (filter (\<lambda>rf. rf_modifier rf \<noteq> DISCARD) rs)"
      "map ftype fis' = map rf_type (filter (\<lambda>rf. rf_modifier rf \<noteq> DISCARD) rs)"
      "unat fl2 = unat fl + ?n + sum_list (map (\<lambda>rf. unat (ie_length (rf_type rf))) (filter (\<lambda>rf. rf_modifier rf \<noteq> DISCARD) rs))"
      using Cons.IH [OF _ _ r(1)] unfolding s by blast+
    have "unat (ucast fl :: u32) = unat fl"
      using u16_lt [of fl] by (simp add: unsigned_ucast_eq take_bit_nat_eq_self)
    then show ?thesis using IH False r(2,3) by (simp add: flen_def)
  qed
qed

lemma private_offsets_ok:
  assumes "unat fl + unat pl + sum_list (map (\<lambda>fi. getPrivateDataLength (ftype fi)) fis) < 65536"
    and "private_offsets fis fl pl fp rfp = (offs, pl2, fp2, rfp2)"
  shows "length offs = length fis \<and>
    unat pl2 = unat pl + sum_list (map (\<lambda>fi. getPrivateDataLength (ftype fi)) fis) \<and>
    (\<forall>i < length fis. 0 < getPrivateDataLength (ftype (fis ! i)) \<longrightarrow>
       unat fl + unat pl \<le> offs ! i \<and> offs ! i + getPrivateDataLength (ftype (fis ! i)) \<le> unat fl + unat pl2)"
  using assms
proof (induction fis arbitrary: pl fp rfp offs)
  case Nil
  then show ?case by simp
next
  case (Cons fi fis)
  let ?n = "getPrivateDataLength (ftype fi)"
  let ?pl1 = "if ?n > 0 then pl + of_nat ?n else pl"
  obtain fp1 rfp1 offs' where r: "private_offsets fis fl ?pl1 fp1 rfp1 = (offs', pl2, fp2, rfp2)"
      "offs = (if ?n > 0 then unat fl + unat pl else 0) # offs'"
    using Cons.prems(2) by (auto simp: Let_def split: prod.splits)
  have b: "unat fl + unat pl + ?n < 65536" using Cons.prems(1) by simp
  then have "unat (pl + of_nat ?n) = unat pl + ?n" by (simp add: unat_word_ariths unat_of_nat)
  then have s: "unat ?pl1 = unat pl + ?n" by simp
  have "unat fl + unat ?pl1 + sum_list (map (\<lambda>fi. getPrivateDataLength (ftype fi)) fis) < 65536"
    using Cons.prems(1) by (simp add: s)
  note IH = Cons.IH [OF this r(1), unfolded s]
  then have IH3: "\<forall>i < length fis. 0 < getPrivateDataLength (ftype (fis ! i)) \<longrightarrow>
      unat fl + (unat pl + ?n) \<le> offs' ! i \<and> offs' ! i + getPrivateDataLength (ftype (fis ! i)) \<le> unat fl + unat pl2"
    by blast
  have "unat fl + unat pl \<le> offs ! i \<and> offs ! i + getPrivateDataLength (ftype ((fi # fis) ! i)) \<le> unat fl + unat pl2"
    if "i < length (fi # fis)" "0 < getPrivateDataLength (ftype ((fi # fis) ! i))" for i
  proof (cases i)
    case 0
    then show ?thesis using that IH r(2) by simp
  next
    case (Suc j)
    then have "unat fl + (unat pl + ?n) \<le> offs' ! j \<and> offs' ! j + getPrivateDataLength (ftype (fis ! j)) \<le> unat fl + unat pl2"
      using that IH3 by simp
    then show ?thesis using Suc r(2) by simp
  qed
  then show ?case using IH r(2) by simp
qed

lemma shared_offsets_ok:
  "length offs = length fis \<Longrightarrow> shared_offsets fis offs fp rfp = Inr offs1 \<Longrightarrow>
   length offs1 = length fis \<and>
   (\<forall>i < length fis. ie_id (ftype (fis ! i)) = IPFIX_ETYPEID_frontPayload \<longrightarrow> offs1 ! i = offs ! i)"
proof (induction fis offs fp rfp arbitrary: offs1 rule: shared_offsets.induct)
  case (1 fi fis off offs fp rfp)
  then obtain rest where "shared_offsets fis offs fp rfp = Inr rest" "tl offs1 = rest" "length offs1 = Suc (length rest)"
      "ie_id (ftype fi) = IPFIX_ETYPEID_frontPayload \<longrightarrow> hd offs1 = off"
    by (auto simp: Let_def split: if_splits elim!: res_bind_InrE)
  moreover from this have "length rest = length fis \<and>
      (\<forall>i < length fis. ie_id (ftype (fis ! i)) = IPFIX_ETYPEID_frontPayload \<longrightarrow> rest ! i = offs ! i)"
    using 1 by (auto simp: Let_def split: if_splits)
  ultimately show ?case by (cases offs1) (auto simp: nth_Cons split: nat.split)
qed simp_all

lemma front_private: "is_front_payload t \<Longrightarrow> getPrivateDataLength t = 12"
  by (simp add: is_front_payload_def getPrivateDataLength_def)

lemma createDataTemplate_ok:
  assumes ok: "rule_ok r" and run: "createDataTemplate r ht = Inr ht'"
  shows "wf_layout ht' \<and> (\<forall>m \<in> set (fieldModifier ht'). m \<le> 158) \<and>
    map ftype (fieldInfo (dataTemplate ht')) = map rf_type (kept r) \<and>
    (\<exists>ti offs ms fl pl. ht' = ht\<lparr>dataTemplate := ti, privDataOffset := offs, fieldModifier := ms,
       fieldLength := fl, privDataLength := pl\<rparr>)"
proof -
  obtain fis ms fl where lf: "layout_fields (rule_fields r) 0 = (fis, ms, fl)" by (cases "layout_fields (rule_fields r) 0")
  obtain offs pl fp rfp where po: "private_offsets fis fl 0 0 0 = (offs, pl, fp, rfp)"
    by (cases "private_offsets fis fl 0 0 0")
  obtain offs1 where so: "shared_offsets fis offs fp rfp = Inr offs1"
    and ht': "ht' = ht\<lparr>dataTemplate := \<lparr>templateId = rule_id r, setId = IpfixTemplate,
        fieldCount = of_nat (length fis), fieldInfo = fis, scopeCount = 0, scopeInfo = []\<rparr>,
        privDataOffset := offs1, fieldModifier := ms, fieldLength := fl, privDataLength := pl\<rparr>"
    using run lf po by (auto simp: createDataTemplate_def elim!: res_bind_InrE)
  let ?len = "sum_list (map (\<lambda>rf. unat (ie_length (rf_type rf))) (kept r))"
  let ?prv = "sum_list (map (\<lambda>rf. getPrivateDataLength (rf_type rf)) (kept r))"
  have total: "?len + ?prv < 65536" using ok by (simp add: rule_ok_def sum_list_addf)
  have "\<forall>rf \<in> set (kept r). ie_length (rf_type rf) \<noteq> 65535" using ok by (simp add: rule_ok_def)
  then have L: "laid_out fis 0 (unat fl)" "ms = map rf_modifier (kept r)" "map ftype fis = map rf_type (kept r)" "unat fl = ?len"
    using layout_fields_ok [OF _ _ lf, folded kept_def, unfolded unat_0 add_0] total by fastforce+
  have "map (\<lambda>fi. getPrivateDataLength (ftype fi)) fis = map (\<lambda>rf. getPrivateDataLength (rf_type rf)) (kept r)"
    using arg_cong [OF L(3), of "map getPrivateDataLength"] by (simp add: o_def)
  then have "unat fl + unat (0 :: u16) + sum_list (map (\<lambda>fi. getPrivateDataLength (ftype fi)) fis) < 65536"
    using total L(4) by simp
  from private_offsets_ok [OF this po]
  have P: "length offs = length fis"
    "\<forall>i < length fis. 0 < getPrivateDataLength (ftype (fis ! i)) \<longrightarrow>
       unat fl \<le> offs ! i \<and> offs ! i + getPrivateDataLength (ftype (fis ! i)) \<le> unat fl + unat pl"
    unfolding unat_0 add_0_right by blast+
  note S = shared_offsets_ok [OF P(1) so]
  have n: "length fis = length (kept r)" using arg_cong [OF L(3), of length] by simp
  have "length (kept r) \<le> length (rule_fields r)" by (simp add: kept_def)
  also have "\<dots> \<le> 255" using ok by (simp add: rule_ok_def)
  finally have "length (kept r) \<le> 255" .
  then have count: "unat (of_nat (length fis) :: u16) = length fis" by (simp add: n unat_of_nat_u16)
  have types: "ftype (fis ! i) = rf_type (kept r ! i)" if "i < length fis" for i
    using arg_cong [OF L(3), of "\<lambda>l. l ! i"] that n by simp
  have fit: "op_fits (ftype (fis ! i))" if "i < length fis" for i
    using types [OF that] ok that n by (simp add: rule_ok_def)
  have front: "unat fl \<le> offs1 ! i \<and> offs1 ! i + 8 \<le> unat fl + unat pl" if "i < length fis" "is_front_payload (ftype (fis ! i))" for i
  proof -
    have "offs1 ! i = offs ! i" using S that by (simp add: is_front_payload_def)
    then show ?thesis using P(2) that front_private [OF that(2)] by fastforce
  qed
  have "wf_layout ht'"
    unfolding wf_layout_def Let_def ht' using L(1,2) S count n fit front by simp
  moreover have "\<forall>m \<in> set (fieldModifier ht'). m \<le> 158"
    using L(2) ok by (auto simp: ht' rule_ok_def)
  moreover have "map ftype (fieldInfo (dataTemplate ht')) = map rf_type (kept r)" using L(3) by (simp add: ht')
  ultimately show ?thesis using ht' by blast
qed

end
