(* ===== verification/Flow_Runs.thy ===== *)
theory Flow_Runs
  imports Flow_Aggregation Flow_Records
begin

text \<open>
  The life of a FlowHashtable: its construction from a rule, then any sequence of records and
  expiry runs (src/src/modules/ipfix/aggregator/FlowHashtable.cpp, BaseHashtable.cpp). No call
  faults or fails to return, and nothing that was counted is lost: for every counter of the
  template, what was received is what was sent plus what is held.
\<close>

section \<open>The flows a table holds\<close>

text \<open>The nodes of the export list, from its head.\<close>

fun walk :: "nat \<Rightarrow> bucket_list \<Rightarrow> nat option \<Rightarrow> nat list" where
  "walk 0 l p = []"
| "walk (Suc k) l p =
     (case p of
        None \<Rightarrow> []
      | Some n \<Rightarrow> (case bl_nodes l n of None \<Rightarrow> [] | Some c \<Rightarrow> n # walk k l (le_next c)))"

definition export_order :: "hashtable \<Rightarrow> nat list" where
  "export_order ht = walk (nextAddr ht) (exportList ht) (bl_head (exportList ht))"

definition flows :: "hashtable \<Rightarrow> bytes list" where
  "flows ht = map b_data (held ht (export_order ht))"

lemma walk_chain:
  "chain le_next le_prev (bl_nodes l) q p xs None \<Longrightarrow> length xs \<le> k \<Longrightarrow> walk k l p = xs"
proof (induction xs arbitrary: k p q)
  case Nil
  then show ?case by (cases k) simp_all
next
  case (Cons x xs)
  then obtain j where "k = Suc j" by (cases k) simp_all
  with Cons show ?case by (auto split: option.splits)
qed

lemma export_order_ok:
  assumes "heap_inv ht cs xs"
  shows "export_order ht = xs"
proof -
  have b: "bl_inv (exportList ht) xs" and s: "dom (bl_nodes (exportList ht)) = set xs"
    using assms by (simp_all add: heap_inv_def nodes_inv_def)
  have "fresh_inv ht" using assms by (simp add: heap_inv_def)
  then have "set xs \<subseteq> {..<nextAddr ht}" using s by (auto simp: fresh_inv_def)
  then have "length xs \<le> nextAddr ht"
    using b card_mono [of "{..<nextAddr ht}" "set xs"] by (simp add: bl_inv_def distinct_card)
  then show ?thesis using b walk_chain unfolding bl_inv_def export_order_def by blast
qed

lemma flow_order: "flow_inv ht cs xs \<Longrightarrow> export_order ht = xs"
  unfolding flow_inv_def using export_order_ok by blast

lemma mset_flows: "flow_inv ht cs xs \<Longrightarrow> mset (flows ht) = contents ht xs"
  by (simp add: flows_def contents_def flow_order)

text \<open>Tables between two calls.\<close>

definition flow_table :: "hashtable \<Rightarrow> bool" where
  "flow_table ht \<longleftrightarrow>
     (\<exists>cs. flow_inv ht cs (export_order ht)) \<and> \<not> aggInProgress ht \<and> (\<forall>m \<in> set (fieldModifier ht). m \<le> 158)"

lemma flow_tableI:
  "flow_inv ht cs xs \<Longrightarrow> \<not> aggInProgress ht \<Longrightarrow> \<forall>m \<in> set (fieldModifier ht). m \<le> 158 \<Longrightarrow> flow_table ht"
  unfolding flow_table_def using flow_order by blast

lemma flow_tableE:
  assumes "flow_table ht"
  obtains cs xs where "flow_inv ht cs xs" "mset (flows ht) = contents ht xs" "xs = export_order ht"
    "\<not> aggInProgress ht" "\<forall>m \<in> set (fieldModifier ht). m \<le> 158"
  using assms mset_flows unfolding flow_table_def by blast

section \<open>Construction\<close>

lemma BaseHashtable_ok:
  assumes rule: "rule_ok r" and bi: "\<not> rule_biflow r" and run: "BaseHashtable tbl sid r inactive active hashbits = Inr ht"
  shows "flow_table ht" and "flows ht = []" and "ht_sent ht = []"
    and "map ftype (fieldInfo (dataTemplate ht)) = map rf_type (kept r)"
proof -
  define ht0 where "ht0 = \<lparr>dataTemplate = \<lparr>templateId = 0, setId = UnknownSetId, fieldCount = 0, fieldInfo = [],
                  scopeCount = 0, scopeInfo = []\<rparr>,
                privDataOffset = [], fieldModifier = [], fieldLength = 0, privDataLength = 0,
                biflowAggregation = rule_biflow r, revKeyMapper = [], flowReverseMapper = [],
                htableSize = push_bit hashbits 1, inactiveTimeout = inactive, activeTimeout = active,
                buckets = replicate (unat (push_bit hashbits 1 :: u32)) None, bheap = Map.empty,
                exportList = HashtableBucketList, nextAddr = 0, aggInProgress = False,
                ht_sourceID = sid, statRecordsReceived = 0, statRecordsSent = 0,
                statTotalEntries = 0, statEmptyBuckets = push_bit hashbits 1, statExportedBuckets = 0,
                statLastExpBuckets = 0, statMultiEntries = 0, ht_sent = []\<rparr>"
  have hb: "hashbits < 31"
    using run by (simp add: BaseHashtable_def Let_def split: if_splits)
  obtain ht1 where c: "createDataTemplate r ht0 = Inr ht1" and e: "(if biflowAggregation ht1 then genBiflowStructs tbl ht1 else Inr ht1) = Inr ht"
    using run hb by (auto simp: BaseHashtable_def Let_def ht0_def elim!: res_bind_InrE)
  note T = createDataTemplate_ok [OF rule c]
  then obtain ti offs ms fl pl where h1: "ht1 = ht0\<lparr>dataTemplate := ti, privDataOffset := offs, fieldModifier := ms,
       fieldLength := fl, privDataLength := pl\<rparr>"
    by blast
  then have ht: "ht = ht1" using e bi by (simp add: ht0_def)
  have st: "bheap ht = Map.empty" "exportList ht = HashtableBucketList" "buckets ht = replicate (unat (htableSize ht)) None"
    "htableSize ht = push_bit hashbits 1" "\<not> aggInProgress ht" "\<not> biflowAggregation ht" "ht_sent ht = []"
    using bi by (simp_all add: ht h1 ht0_def)
  have "heap_inv ht (\<lambda>_. []) []"
    using HashtableBucketList_inv
    by (simp add: heap_inv_def chains_inv_def nodes_inv_def fresh_inv_def blocks_inv_def st HashtableBucketList_def)
  then have inv: "flow_inv ht (\<lambda>_. []) []"
    using T hb st unfolding flow_inv_def keyed_def ht by auto
  then show "flow_table ht" using T st unfolding ht by (intro flow_tableI) auto
  show "flows ht = []" using flow_order [OF inv] by (simp add: flows_def held_def)
  show "ht_sent ht = []" by (rule st)
  show "map ftype (fieldInfo (dataTemplate ht)) = map rf_type (kept r)" using T unfolding ht by blast
qed

section \<open>Records\<close>

lemma combines_config:
  assumes "config ht' = config ht"
  shows "combines ht' = combines ht"
  unfolding combines_def [abs_def] config_same [OF assms] ..

lemma absorbs_config:
  assumes "config ht' = config ht"
  shows "absorbs ht' = absorbs ht"
  unfolding absorbs_def [abs_def] config_same [OF assms] combines_config [OF assms] ..

lemma config_fields:
  assumes "config ht' = config ht"
  shows "fieldLength ht' = fieldLength ht" and "privDataLength ht' = privDataLength ht"
    and "privDataOffset ht' = privDataOffset ht" and "fieldModifier ht' = fieldModifier ht"
    and "ht_sourceID ht' = ht_sourceID ht"
  using assms by (simp_all add: config_def)

text \<open>The block that a record becomes.\<close>

definition record_block :: "hashtable \<Rightarrow> bytes \<Rightarrow> template_info \<Rightarrow> bytes \<Rightarrow> bytes" where
  "record_block ht mem ti src =
     (case fill_block ti src (fieldInfo (dataTemplate ht)) (privDataOffset ht) (fieldModifier ht) (new_block ht mem) of
        Inl _ \<Rightarrow> []
      | Inr d \<Rightarrow> d)"

lemma block_filled:
  assumes wf: "wf_layout ht" and m: "\<forall>m \<in> set (fieldModifier ht). m \<le> 158"
    and r: "readable ti src" and mem: "unat (fieldLength ht) \<le> length mem"
  shows "\<exists>d. fill_block ti src (fieldInfo (dataTemplate ht)) (privDataOffset ht) (fieldModifier ht) (new_block ht mem) = Inr d \<and>
    length d = block_size ht \<and>
    (\<forall>fi \<in> set (fieldInfo (dataTemplate ht)). is_counter (ftype fi) \<longrightarrow> narrow ti (ftype fi) \<longrightarrow>
       be_of (piece fi d) = record_value ti src (ftype fi))"
proof -
  have n: "length (new_block ht mem) = block_size ht" using mem by (simp add: new_block_def block_size_def)
  then show ?thesis
    using fill_block_ok [OF r, of "fieldInfo (dataTemplate ht)" 0 "unat (fieldLength ht)" "new_block ht mem"
        "privDataOffset ht" "fieldModifier ht"] wf m
    unfolding wf_layout_def Let_def by (simp add: block_size_def)
qed

lemma aggregateDataRecord_ok:
  assumes T: "flow_table ht" and r: "readable ti src" and mem: "unat (fieldLength ht) \<le> length mem"
  shows "\<exists>ht'. aggregateDataRecord mem ti src now ht = Some (Inr ht') \<and> flow_table ht' \<and>
    config ht' = config ht \<and> ht_sent ht' = ht_sent ht \<and>
    absorbs ht (record_block ht mem ti src) (mset (flows ht)) (mset (flows ht')) \<and>
    (\<forall>fi \<in> set (fieldInfo (dataTemplate ht)). is_counter (ftype fi) \<longrightarrow> narrow ti (ftype fi) \<longrightarrow>
       be_of (piece fi (record_block ht mem ti src)) = record_value ti src (ftype fi))"
proof -
  obtain cs xs where inv: "flow_inv ht cs xs" and f: "mset (flows ht) = contents ht xs" "xs = export_order ht"
      and lock: "\<not> aggInProgress ht" and m: "\<forall>m \<in> set (fieldModifier ht). m \<le> 158"
    by (rule flow_tableE [OF T]) blast
  let ?ht1 = "ht\<lparr>aggInProgress := True\<rparr>"
  have wf: "wf_layout ht" using inv by (simp add: flow_inv_def)
  obtain d where d: "fill_block ti src (fieldInfo (dataTemplate ht)) (privDataOffset ht) (fieldModifier ht) (new_block ht mem) = Inr d"
      "length d = block_size ht"
      "\<forall>fi \<in> set (fieldInfo (dataTemplate ht)). is_counter (ftype fi) \<longrightarrow> narrow ti (ftype fi) \<longrightarrow>
         be_of (piece fi d) = record_value ti src (ftype fi)"
    using block_filled [OF wf m r mem] by blast
  then have rb: "record_block ht mem ti src = d" by (simp add: record_block_def)
  have cf: "config ?ht1 = config ht" by (simp add: config_def)
  have "flow_inv ?ht1 cs xs" using inv by (simp only: flow_inv_lock)
  then obtain ht' cs' xs' where b: "bufferDataBlock d now ?ht1 = Some (Inr ht')" "flow_inv ht' cs' xs'" "\<not> aggInProgress ht'"
      "config ht' = config ?ht1" "ht_sent ht' = ht_sent ?ht1" "absorbs ?ht1 d (contents ?ht1 xs) (contents ht' xs')"
    using bufferDataBlock_ok [of ?ht1 cs xs d now] d(2) by (auto simp: block_size_def)
  have rel: "agg_release ht' = ht'" using b(3) by (simp add: agg_release_def)
  have "aggregateDataRecord mem ti src now ht = Some (Inr ht')"
    using lock d(1) b(1) rel by (simp add: aggregateDataRecord_def agg_lock_def ro_bind_def new_block_def)
  moreover have "config ht' = config ht" using b(4) cf by simp
  moreover have "flow_table ht'"
    by (rule flow_tableI [OF b(2,3)]) (use config_fields [OF \<open>config ht' = config ht\<close>] m in simp)
  moreover have "contents ?ht1 xs = contents ht xs" by (simp add: contents_def held_lock)
  ultimately show ?thesis
    using b(5,6) d(3) mset_flows [OF b(2)] f(1) absorbs_config [OF cf] unfolding rb by auto
qed

lemma expire_table:
  assumes T: "flow_table ht"
  shows "\<exists>ht' k. expireFlows now every ht = Some (Inr ht') \<and> flow_table ht' \<and> config ht' = config ht \<and>
    k = length (takeWhile (is_expired now every) (held ht (export_order ht))) \<and>
    ht_sent ht' = ht_sent ht @ map (\<lambda>d. DataRecord (ht_sourceID ht) (dataTemplate ht) (unat (fieldLength ht)) d 0) (take k (flows ht)) \<and>
    flows ht' = drop k (flows ht)"
proof -
  obtain cs xs where inv: "flow_inv ht cs xs" and x: "xs = export_order ht"
      and lock: "\<not> aggInProgress ht" and m: "\<forall>m \<in> set (fieldModifier ht). m \<le> 158"
    by (rule flow_tableE [OF T]) blast
  have h: "heap_inv ht cs xs" using inv by (simp add: flow_inv_def)
  let ?k = "expired_count now every ht xs"
  obtain ht' cs' where e: "expireFlows now every ht = Some (Inr ht')" "heap_inv ht' cs' (drop ?k xs)"
      "config ht' = config ht" "length (buckets ht') = length (buckets ht)" "\<not> aggInProgress ht'"
      "ht_sent ht' = ht_sent ht @ map (sent_record ht) (take ?k (held ht xs))"
      "map core (held ht' (drop ?k xs)) = map core (drop ?k (held ht xs))" "survives ht ht'"
    using expireFlows_ok [OF h lock] by blast
  have "keyed ht'" using keyed_survives [OF _ e(8,3)] inv by (simp add: flow_inv_def)
  then have inv': "flow_inv ht' cs' (drop ?k xs)"
    using inv e(2,4) unfolding flow_inv_def config_same [OF e(3)] by simp
  have "flow_table ht'"
    by (rule flow_tableI [OF inv' e(5)]) (use config_fields [OF e(3)] m in simp)
  moreover have "flows ht' = drop ?k (flows ht)"
    using arg_cong [OF e(7), of "map (\<lambda>(i, a, d, n). d)"]
    by (simp add: flows_def flow_order [OF inv'] flow_order [OF inv] core_def o_def drop_map)
  moreover have "map (sent_record ht) (take ?k (held ht xs)) =
      map (\<lambda>d. DataRecord (ht_sourceID ht) (dataTemplate ht) (unat (fieldLength ht)) d 0) (take ?k (flows ht))"
    by (simp add: flows_def flow_order [OF inv] sent_record_def take_map)
  ultimately show ?thesis using e(1,3,6) unfolding expired_count_def x by auto
qed

section \<open>Runs\<close>

datatype ht_call = Put bytes template_info bytes int | Expire int bool

fun ht_step :: "ht_call \<Rightarrow> hashtable \<Rightarrow> hashtable res option" where
  "ht_step (Put mem ti src now) ht = aggregateDataRecord mem ti src now ht"
| "ht_step (Expire now every) ht = expireFlows now every ht"

fun run_calls :: "('c \<Rightarrow> 's \<Rightarrow> 's res option) \<Rightarrow> 'c list \<Rightarrow> 's \<Rightarrow> 's res option" where
  "run_calls stp [] s = Some (Inr s)"
| "run_calls stp (c # cs) s = ro_bind (stp c s) (run_calls stp cs)"

text \<open>
  A store that keeps accounts: every accepted call returns and moves the total of each account
  by the amount of the call, modulo the width of the counters.
\<close>

locale ledger =
  fixes good :: "'s \<Rightarrow> bool" and conf :: "'s \<Rightarrow> 'k" and stp :: "'c \<Rightarrow> 's \<Rightarrow> 's res option"
    and accepts :: "'s \<Rightarrow> 'c \<Rightarrow> bool" and account :: "'s \<Rightarrow> 'f \<Rightarrow> bool"
    and total :: "'s \<Rightarrow> 'f \<Rightarrow> nat" and amount :: "'s \<Rightarrow> 'c \<Rightarrow> 'f \<Rightarrow> nat"
  assumes stp_ok: "good s \<Longrightarrow> accepts s c \<Longrightarrow>
    \<exists>s'. stp c s = Some (Inr s') \<and> good s' \<and> conf s' = conf s \<and>
      (\<forall>f. account s f \<longrightarrow> total s' f mod 2 ^ 64 = (total s f + amount s c f) mod 2 ^ 64)"
    and conf_rules: "conf s' = conf s \<Longrightarrow> accepts s' = accepts s \<and> account s' = account s \<and> amount s' = amount s"
begin

lemma run_ok:
  "good s \<Longrightarrow> \<forall>c \<in> set cs. accepts s c \<Longrightarrow>
   \<exists>s'. run_calls stp cs s = Some (Inr s') \<and> good s' \<and> conf s' = conf s \<and>
     (\<forall>f. account s f \<longrightarrow>
        total s' f mod 2 ^ 64 = (total s f + sum_list (map (\<lambda>c. amount s c f) cs)) mod 2 ^ 64)"
proof (induction cs arbitrary: s)
  case (Cons c cs)
  then obtain s1 where s1: "stp c s = Some (Inr s1)" "good s1" "conf s1 = conf s"
      "\<forall>f. account s f \<longrightarrow> total s1 f mod 2 ^ 64 = (total s f + amount s c f) mod 2 ^ 64"
    using stp_ok [of s c] by auto
  note same = conf_rules [OF s1(3)]
  then obtain s2 where s2: "run_calls stp cs s1 = Some (Inr s2)" "good s2" "conf s2 = conf s"
      "\<forall>f. account s f \<longrightarrow> total s2 f mod 2 ^ 64 = (total s1 f + sum_list (map (\<lambda>c. amount s c f) cs)) mod 2 ^ 64"
    using Cons.IH [of s1] Cons.prems s1(2,3) by auto
  have "total s2 f mod 2 ^ 64 = (total s f + sum_list (map (\<lambda>c. amount s c f) (c # cs))) mod 2 ^ 64" if "account s f" for f
  proof -
    have "total s2 f mod 2 ^ 64 = (total s1 f mod 2 ^ 64 + sum_list (map (\<lambda>c. amount s c f) cs)) mod 2 ^ 64"
      using s2(4) that by (simp add: mod_add_left_eq)
    also have "\<dots> = ((total s f + amount s c f) mod 2 ^ 64 + sum_list (map (\<lambda>c. amount s c f) cs)) mod 2 ^ 64"
      using s1(4) that by presburger
    finally show ?thesis by (simp add: mod_add_left_eq add.assoc)
  qed
  then show ?case using s1(1) s2 by (simp add: ro_bind_def)
qed simp

end

section \<open>The accounts of a table\<close>

fun record_data :: "ipfix_record \<Rightarrow> bytes list" where
  "record_data (DataRecord _ _ _ d _) = [d]"
| "record_data _ = []"

definition sent_blocks :: "hashtable \<Rightarrow> bytes list" where
  "sent_blocks ht = concat (map record_data (ht_sent ht))"

text \<open>Accounts are counters of the template, for the flows whose key satisfies a predicate.\<close>

definition block_value :: "hashtable \<Rightarrow> (bytes list \<Rightarrow> bool) \<Rightarrow> field_info \<Rightarrow> bytes \<Rightarrow> nat" where
  "block_value ht P fi d = (if P (flow_key ht d) then be_of (piece fi d) else 0)"

fun ht_total :: "hashtable \<Rightarrow> (bytes list \<Rightarrow> bool) \<times> field_info \<Rightarrow> nat" where
  "ht_total ht (P, fi) = sum_list (map (block_value ht P fi) (sent_blocks ht @ flows ht))"

fun ht_account :: "hashtable \<Rightarrow> (bytes list \<Rightarrow> bool) \<times> field_info \<Rightarrow> bool" where
  "ht_account ht (P, fi) \<longleftrightarrow> fi \<in> set (fieldInfo (dataTemplate ht)) \<and> is_counter (ftype fi)"

fun ht_accepts :: "hashtable \<Rightarrow> ht_call \<Rightarrow> bool" where
  "ht_accepts ht (Put mem ti src now) \<longleftrightarrow>
     readable ti src \<and> unat (fieldLength ht) \<le> length mem \<and>
     (\<forall>fi \<in> set (fieldInfo (dataTemplate ht)). is_counter (ftype fi) \<longrightarrow> narrow ti (ftype fi))"
| "ht_accepts ht (Expire now every) \<longleftrightarrow> True"

fun ht_amount :: "hashtable \<Rightarrow> ht_call \<Rightarrow> (bytes list \<Rightarrow> bool) \<times> field_info \<Rightarrow> nat" where
  "ht_amount ht (Put mem ti src now) (P, fi) =
     (if P (flow_key ht (record_block ht mem ti src)) then record_value ti src (ftype fi) else 0)"
| "ht_amount ht (Expire now every) _ = 0"

lemma accounts_config:
  assumes "config ht' = config ht"
  shows "ht_accepts ht' = ht_accepts ht" and "ht_account ht' = ht_account ht" and "ht_amount ht' = ht_amount ht"
    and "block_value ht' = block_value ht"
proof -
  have c: "flow_key ht' = flow_key ht" "dataTemplate ht' = dataTemplate ht" "fieldLength ht' = fieldLength ht"
    "record_block ht' = record_block ht"
    using config_same [OF assms] config_fields [OF assms] by (simp_all add: record_block_def new_block_def fun_eq_iff)
  show "ht_accepts ht' = ht_accepts ht"
    by (rule ext, rename_tac call, case_tac call) (simp_all add: c)
  show "ht_account ht' = ht_account ht" by (simp add: fun_eq_iff c)
  show "ht_amount ht' = ht_amount ht"
    by (rule ext, rename_tac call, case_tac call) (simp_all add: c fun_eq_iff)
  show "block_value ht' = block_value ht" by (simp add: block_value_def c fun_eq_iff)
qed

lemma combines_value:
  assumes "combines ht b d d'" and "fi \<in> set (fieldInfo (dataTemplate ht))" and "is_counter (ftype fi)"
  shows "be_of (piece fi d') = (be_of (piece fi b) + be_of (piece fi d)) mod 2 ^ 64"
proof -
  have "piece fi d' = combined (ftype fi) (piece fi b) (piece fi d)"
    using assms counter_op counter_plain unfolding combines_def by blast
  then show ?thesis using counter_op [OF assms(3)] by (simp add: combined_def be_of_nbo)
qed

lemma mod_cancel_nat:
  assumes "(a + c) mod n = (b + c) mod (n :: nat)"
  shows "a mod n = b mod n"
proof -
  have "(int a + int c) mod int n = (int b + int c) mod int n"
    using arg_cong [OF assms, of int] by (simp add: zmod_int)
  then have "(int a + int c - int c) mod int n = (int b + int c - int c) mod int n" by (metis mod_diff_left_eq)
  then show ?thesis by (simp flip: zmod_int)
qed

lemma absorbs_value:
  assumes a: "absorbs ht d M M'" and fi: "ht_account ht (P, fi)"
  shows "sum_mset (image_mset (block_value ht P fi) M') mod 2 ^ 64 =
    (sum_mset (image_mset (block_value ht P fi) M) + block_value ht P fi d) mod 2 ^ 64"
proof -
  let ?v = "block_value ht P fi" and ?s = "\<lambda>M. sum_mset (image_mset (block_value ht P fi) M)"
  from a consider "M' = M + {#d#}" | b d' where "flow_key ht b = flow_key ht d" "combines ht b d d'" "M' + {#b#} = M + {#d'#}"
    unfolding absorbs_def by blast
  then show ?thesis
  proof cases
    case 2
    have "flow_key ht d' = flow_key ht b" by (rule combines_key [OF 2(2)])
    moreover have "be_of (piece fi d') = (be_of (piece fi b) + be_of (piece fi d)) mod 2 ^ 64"
      using combines_value [OF 2(2)] fi by simp
    ultimately have v: "?v d' = (?v b + ?v d) mod 2 ^ 64" using 2(1) by (simp add: block_value_def)
    have "?s M' + ?v b = ?s M + ?v d'" using arg_cong [OF 2(3), of ?s] by simp
    then have "(?s M' + ?v b) mod 2 ^ 64 = (?s M + (?v b + ?v d)) mod 2 ^ 64"
      unfolding v by (simp only: mod_add_right_eq)
    then have "(?s M' + ?v b) mod 2 ^ 64 = (?s M + ?v d + ?v b) mod 2 ^ 64"
      by (simp only: add.assoc add.commute [of "?v b"])
    then show ?thesis by (rule mod_cancel_nat)
  qed (simp add: add.commute)
qed

lemma total_flows:
  "ht_total ht (P, fi) = sum_list (map (block_value ht P fi) (sent_blocks ht)) + sum_mset (image_mset (block_value ht P fi) (mset (flows ht)))"
  by (simp add: sum_mset_sum_list flip: mset_map)

lemma put_ledger:
  assumes T: "flow_table ht" and a: "ht_accepts ht (Put mem ti src now)"
  shows "\<exists>ht'. ht_step (Put mem ti src now) ht = Some (Inr ht') \<and> flow_table ht' \<and> config ht' = config ht \<and>
    (\<forall>f. ht_account ht f \<longrightarrow> ht_total ht' f mod 2 ^ 64 = (ht_total ht f + ht_amount ht (Put mem ti src now) f) mod 2 ^ 64)"
proof -
  let ?d = "record_block ht mem ti src"
  have r: "readable ti src" "unat (fieldLength ht) \<le> length mem" using a by simp_all
  obtain ht' where h: "aggregateDataRecord mem ti src now ht = Some (Inr ht')" "flow_table ht'" "config ht' = config ht"
      "ht_sent ht' = ht_sent ht" "absorbs ht ?d (mset (flows ht)) (mset (flows ht'))"
      "\<forall>fi \<in> set (fieldInfo (dataTemplate ht)). is_counter (ftype fi) \<longrightarrow> narrow ti (ftype fi) \<longrightarrow>
         be_of (piece fi ?d) = record_value ti src (ftype fi)"
    using aggregateDataRecord_ok [OF T r] by blast
  have "ht_total ht' (P, fi) mod 2 ^ 64 = (ht_total ht (P, fi) + ht_amount ht (Put mem ti src now) (P, fi)) mod 2 ^ 64"
    if f: "ht_account ht (P, fi)" for P fi
  proof -
    let ?v = "block_value ht P fi" let ?s = "sum_list (map ?v (sent_blocks ht))"
    have d: "?v ?d = ht_amount ht (Put mem ti src now) (P, fi)" using h(6) a f by (simp add: block_value_def)
    have "ht_total ht' (P, fi) mod 2 ^ 64 = (?s + sum_mset (image_mset ?v (mset (flows ht'))) mod 2 ^ 64) mod 2 ^ 64"
      unfolding total_flows accounts_config(4) [OF h(3)] sent_blocks_def h(4) by (simp only: mod_add_right_eq)
    also have "\<dots> = (?s + (sum_mset (image_mset ?v (mset (flows ht))) + ?v ?d)) mod 2 ^ 64"
      unfolding absorbs_value [OF h(5) f] by (simp only: mod_add_right_eq)
    finally show ?thesis unfolding total_flows d by (simp only: add.assoc)
  qed
  then show ?thesis using h(1,2,3) by auto
qed

lemma expire_ledger:
  assumes T: "flow_table ht"
  shows "\<exists>ht'. ht_step (Expire now every) ht = Some (Inr ht') \<and> flow_table ht' \<and> config ht' = config ht \<and>
    (\<forall>f. ht_total ht' f = ht_total ht f)"
proof -
  obtain ht' k where h: "expireFlows now every ht = Some (Inr ht')" "flow_table ht'" "config ht' = config ht"
      "ht_sent ht' = ht_sent ht @ map (\<lambda>d. DataRecord (ht_sourceID ht) (dataTemplate ht) (unat (fieldLength ht)) d 0) (take k (flows ht))"
      "flows ht' = drop k (flows ht)"
    using expire_table [OF T] by blast
  have one: "concat (map (\<lambda>d. [d]) l) = l" for l :: "bytes list" by (induction l) simp_all
  have "sent_blocks ht' @ flows ht' = sent_blocks ht @ flows ht"
    unfolding sent_blocks_def h(4,5) by (simp add: o_def one)
  then have "ht_total ht' f = ht_total ht f" for f
    by (cases f) (simp add: accounts_config(4) [OF h(3)] del: map_append)
  then show ?thesis using h(1-3) by auto
qed

interpretation table: ledger flow_table config ht_step ht_accepts ht_account ht_total ht_amount
proof unfold_locales
  fix ht c assume T: "flow_table ht" and a: "ht_accepts ht c"
  show "\<exists>ht'. ht_step c ht = Some (Inr ht') \<and> flow_table ht' \<and> config ht' = config ht \<and>
      (\<forall>f. ht_account ht f \<longrightarrow> ht_total ht' f mod 2 ^ 64 = (ht_total ht f + ht_amount ht c f) mod 2 ^ 64)"
  proof (cases c)
    case (Put mem ti src now)
    then show ?thesis using put_ledger [OF T] a by blast
  next
    case (Expire now every)
    then show ?thesis using expire_ledger [OF T, of now every] by auto
  qed
qed (blast intro: accounts_config)

end
