(* ===== verification/Flow_Theorems.thy ===== *)
theory Flow_Theorems
  imports Flow_Runs
begin

text \<open>
  What the aggregation of flow records guarantees over any sequence of calls on a table that was
  built from a rule, and where it departs from what aggregation means: a flow that has taken in
  a second record leaves the table.
\<close>

section \<open>Conservation\<close>

text \<open>
  C4: from its construction on, a table answers every sequence of readable records and expiry
  runs without a fault and without hanging, and no octet or packet is lost or invented: for
  every counter of the template, and for every selection of flows by their key, the sum over the
  flows sent and held is the sum of the counter over the records received, modulo 2^64.
\<close>

theorem flow_conservation:
  assumes "rule_ok r" and "\<not> rule_biflow r" and "BaseHashtable tbl sid r inactive active hashbits = Inr ht0"
    and "\<forall>c \<in> set cs. ht_accepts ht0 c"
  shows "\<exists>ht. run_calls ht_step cs ht0 = Some (Inr ht) \<and>
    (\<forall>P fi. fi \<in> set (fieldInfo (dataTemplate ht0)) \<longrightarrow> is_counter (ftype fi) \<longrightarrow>
       sum_list (map (block_value ht0 P fi) (sent_blocks ht @ flows ht)) mod 2 ^ 64 =
       sum_list (map (\<lambda>c. ht_amount ht0 c (P, fi)) cs) mod 2 ^ 64)"
proof -
  note init = BaseHashtable_ok [OF assms(1-3)]
  obtain ht where ht: "run_calls ht_step cs ht0 = Some (Inr ht)" "config ht = config ht0"
      "\<forall>f. ht_account ht0 f \<longrightarrow>
         ht_total ht f mod 2 ^ 64 = (ht_total ht0 f + sum_list (map (\<lambda>c. ht_amount ht0 c f) cs)) mod 2 ^ 64"
    using table.run_ok [OF init(1) assms(4)] by blast
  have "ht_total ht0 (P, fi) = 0" for P fi using init by (simp add: sent_blocks_def)
  then have "ht_total ht (P, fi) mod 2 ^ 64 = sum_list (map (\<lambda>c. ht_amount ht0 c (P, fi)) cs) mod 2 ^ 64"
    if "fi \<in> set (fieldInfo (dataTemplate ht0))" "is_counter (ftype fi)" for P fi
    using ht(3) that by (metis add_0 ht_account.simps)
  then show ?thesis using ht(1) unfolding ht_total.simps accounts_config(4) [OF ht(2)] by blast
qed

text \<open>A table that sums the octets of flows by their protocol.\<close>

definition octet_rule :: rule where
  "octet_rule = \<lparr>rule_id = 300, rule_fields =
    [\<lparr>rf_type = \<lparr>ie_id = 4, enterprise = 0, ie_length = 1\<rparr>, rf_pattern = None, rf_modifier = KEEP\<rparr>,
     \<lparr>rf_type = \<lparr>ie_id = 1, enterprise = 0, ie_length = 8\<rparr>, rf_pattern = None, rf_modifier = AGGREGATE\<rparr>],
    rule_biflow = False, rule_patternFields = []\<rparr>"

definition octet_table :: "hashtable res" where
  "octet_table = BaseHashtable ([], []) (SourceID_default []) octet_rule 10 60 1"

text \<open>A record of protocol 6 with a counter of four octets, received at time 100.\<close>

definition octet_put :: "byte \<Rightarrow> ht_call" where
  "octet_put n = Put (replicate 9 0)
     \<lparr>templateId = 400, setId = IpfixTemplate, fieldCount = 2, fieldInfo =
       [\<lparr>ftype = \<lparr>ie_id = 4, enterprise = 0, ie_length = 1\<rparr>, offset = 0, isVariableLength = False\<rparr>,
        \<lparr>ftype = \<lparr>ie_id = 1, enterprise = 0, ie_length = 4\<rparr>, offset = 1, isVariableLength = False\<rparr>],
      scopeCount = 0, scopeInfo = []\<rparr>
     [6, 0, 0, 0, n] 100"

lemma octet_rule_ok: "rule_ok octet_rule" and octet_rule_plain: "\<not> rule_biflow octet_rule"
  by (simp_all add: rule_ok_def kept_def octet_rule_def op_fits_def field_op_def getPrivateDataLength_def)

lemma octet_built: "BaseHashtable ([], []) (SourceID_default []) octet_rule 10 60 1 = Inr (projr octet_table)"
proof -
  have "\<not> isl octet_table" by code_simp
  then have "octet_table = Inr (projr octet_table)" by (cases octet_table) simp_all
  then show ?thesis unfolding octet_table_def .
qed

lemma octet_accepts: "\<forall>c \<in> set [octet_put 1, octet_put 2, octet_put 4]. ht_accepts (projr octet_table) c"
  by code_simp

theorem flow_conservation_witness:
  "\<exists>ht. run_calls ht_step [octet_put 1, octet_put 2, octet_put 4] (projr octet_table) = Some (Inr ht) \<and>
    sum_list (map (block_value (projr octet_table) (\<lambda>_. True) (fieldInfo (dataTemplate (projr octet_table)) ! 1))
      (sent_blocks ht @ flows ht)) mod 2 ^ 64 = 7"
proof -
  let ?fi = "fieldInfo (dataTemplate (projr octet_table)) ! 1"
  have "?fi \<in> set (fieldInfo (dataTemplate (projr octet_table)))" "is_counter (ftype ?fi)"
    "sum_list (map (\<lambda>c. ht_amount (projr octet_table) c (\<lambda>_. True, ?fi)) [octet_put 1, octet_put 2, octet_put 4]) = 7"
    by code_simp+
  then show ?thesis
    using flow_conservation [OF octet_rule_ok octet_rule_plain octet_built octet_accepts] by fastforce
qed

section \<open>Expiry\<close>

text \<open>
  C5: an expiry run sends the flows at the head of the export list up to the first that has not
  timed out, each as one record of the table's template and in the order of the list, and keeps
  the rest; a run over all flows leaves none behind.
\<close>

theorem expireFlows_exports:
  assumes "rule_ok r" and "\<not> rule_biflow r" and "BaseHashtable tbl sid r inactive active hashbits = Inr ht0"
    and "\<forall>c \<in> set cs. ht_accepts ht0 c" and "run_calls ht_step cs ht0 = Some (Inr ht)"
  shows "\<exists>ht' k. expireFlows now every ht = Some (Inr ht') \<and>
    k = length (takeWhile (is_expired now every) (held ht (export_order ht))) \<and>
    ht_sent ht' = ht_sent ht @ map (\<lambda>d. DataRecord (ht_sourceID ht) (dataTemplate ht0) (unat (fieldLength ht0)) d 0) (take k (flows ht)) \<and>
    flows ht' = drop k (flows ht) \<and> (every \<longrightarrow> flows ht' = [])"
proof -
  have T: "flow_table ht" and c: "config ht = config ht0"
    using table.run_ok [OF BaseHashtable_ok(1) [OF assms(1-3)] assms(4)] assms(5) by auto
  have all: "takeWhile (is_expired now True) bs = bs" for bs by (induction bs) (simp_all add: is_expired_def)
  have "drop (length (takeWhile (is_expired now True) (held ht (export_order ht)))) (flows ht) = []"
    unfolding all by (simp add: flows_def)
  then show ?thesis
    using expire_table [OF T, of now every] config_same(5) [OF c] config_fields(1) [OF c] by (cases every) auto
qed

theorem expireFlows_exports_witness:
  "\<exists>ht ht'. run_calls ht_step [octet_put 1, octet_put 2, octet_put 4] (projr octet_table) = Some (Inr ht) \<and>
    expireFlows 100 True ht = Some (Inr ht') \<and> flows ht' = []"
proof -
  obtain ht where "run_calls ht_step [octet_put 1, octet_put 2, octet_put 4] (projr octet_table) = Some (Inr ht)"
    using table.run_ok [OF BaseHashtable_ok(1) [OF octet_rule_ok octet_rule_plain octet_built] octet_accepts] by blast
  then show ?thesis
    using expireFlows_exports [OF octet_rule_ok octet_rule_plain octet_built octet_accepts, of ht 100 True] by auto
qed

section \<open>Flows in the table\<close>

text \<open>
  C6: at every moment no two buckets in the table have the same flow key, and every one of them
  is found by the hash of its key: the search for a record of the same key returns it.
\<close>

theorem flow_keys_unique:
  assumes "rule_ok r" and "\<not> rule_biflow r" and "BaseHashtable tbl sid r inactive active hashbits = Inr ht0"
    and "\<forall>c \<in> set cs. ht_accepts ht0 c" and "run_calls ht_step cs ht0 = Some (Inr ht)"
    and "bheap ht a = Some b" and "inTable b"
    and "length d = block_size ht" and "flow_key ht d = flow_key ht (b_data b)"
  shows "getHash ht d False = Inr (b_hash b) \<and> (\<exists>q. lookupBucket (b_hash b) d False ht = Some (Inr (Some a, q))) \<and>
    (\<forall>a' b'. bheap ht a' = Some b' \<longrightarrow> inTable b' \<longrightarrow> flow_key ht (b_data b') = flow_key ht (b_data b) \<longrightarrow> a' = a)"
proof -
  have T: "flow_table ht" using table.run_ok [OF BaseHashtable_ok(1) [OF assms(1-3)] assms(4)] assms(5) by auto
  obtain cs xs where inv: "flow_inv ht cs xs" by (rule flow_tableE [OF T]) blast
  then have k: "keyed ht" and wf: "wf_layout ht" by (simp_all add: flow_inv_def)
  have "b_hash b = slot_of ht (b_data b)" using k assms(6,7) unfolding keyed_def by blast
  then have h: "b_hash b = slot_of ht d" using slot_key [OF assms(9)] by simp
  have u: "a' = a" if "bheap ht a' = Some b'" "inTable b'" "flow_key ht (b_data b') = flow_key ht (b_data b)" for a' b'
    using k that assms(6,7) unfolding keyed_def by blast
  have g: "getHash ht d False = Inr (b_hash b)"
    unfolding h using assms(8) by (intro getHash_ok [OF wf]) (simp add: block_size_def)
  obtain r q where r: "lookupBucket (slot_of ht d) d False ht = Some (Inr (r, q))"
      "case r of
         None \<Rightarrow> \<forall>a b. bheap ht a = Some b \<longrightarrow> inTable b \<longrightarrow> flow_key ht (b_data b) \<noteq> flow_key ht d
       | Some a \<Rightarrow> \<exists>b. bheap ht a = Some b \<and> inTable b \<and> flow_key ht (b_data b) = flow_key ht d"
    using lookup_ok [OF inv assms(8)] by blast
  have "r = Some a"
  proof (cases r)
    case None
    then show ?thesis using r(2) assms(6,7) assms(9) [symmetric] by simp
  next
    case (Some a')
    then obtain b' where "bheap ht a' = Some b'" "inTable b'" "flow_key ht (b_data b') = flow_key ht d" using r(2) by auto
    then show ?thesis using u [of a' b'] Some assms(9) by simp
  qed
  then show ?thesis using g u r(1) unfolding h by blast
qed

definition first_bucket :: "hashtable res option \<Rightarrow> (hashtable \<times> bucket) option" where
  "first_bucket r =
     (case r of Some (Inr ht) \<Rightarrow> map_option (\<lambda>b. (ht, b)) (bheap ht 0) | _ \<Rightarrow> None)"

lemma one_record:
  obtains ht b where "run_calls ht_step [octet_put 1] (projr octet_table) = Some (Inr ht)" "bheap ht 0 = Some b" "inTable b"
    "length (b_data b) = block_size ht" "\<not> is_overdue 100 b" "100 + int (unat (inactiveTimeout ht)) < activeExpireTime b"
proof -
  have "case first_bucket (run_calls ht_step [octet_put 1] (projr octet_table)) of
      None \<Rightarrow> False
    | Some (ht, b) \<Rightarrow> inTable b \<and> length (b_data b) = block_size ht \<and> \<not> is_overdue 100 b \<and>
        100 + int (unat (inactiveTimeout ht)) < activeExpireTime b"
    by code_simp
  then show ?thesis using that by (auto simp: first_bucket_def split: option.splits sum.splits)
qed

lemma octet_accepts_one: "\<forall>c \<in> set [octet_put 1]. ht_accepts (projr octet_table) c"
  using octet_accepts by simp

theorem flow_keys_unique_witness:
  "\<exists>ht b. run_calls ht_step [octet_put 1] (projr octet_table) = Some (Inr ht) \<and> bheap ht 0 = Some b \<and>
    getHash ht (b_data b) False = Inr (b_hash b)"
proof (rule one_record)
  fix ht b
  assume h: "run_calls ht_step [octet_put 1] (projr octet_table) = Some (Inr ht)" "bheap ht 0 = Some b" "inTable b"
    "length (b_data b) = block_size ht"
  show ?thesis
    using flow_keys_unique [OF octet_rule_ok octet_rule_plain octet_built octet_accepts_one h refl] h(1,2) by blast
qed



text \<open>Three records of one flow at the same time: the third is a flow of its own.\<close>

lemma three_records_two_flows:
  "case run_calls ht_step [octet_put 1, octet_put 2, octet_put 4] (projr octet_table) of
     Some (Inr ht) \<Rightarrow> flows ht = [[6, 0, 0, 0, 0, 0, 0, 0, 3], [6, 0, 0, 0, 0, 0, 0, 0, 4]]
   | _ \<Rightarrow> False"
  by code_simp

end
