(* ===== verification/Spec2Isabelle.thy ===== *)
theory Spec2Isabelle
  imports Export_Collect Crc Connection_Filter Rijndael_Correct Flow_Theorems
begin

text \<open>
  Verification of VERMONT, a monitoring toolkit that collects, aggregates and exports network
  flow records (IPFIX, RFC 7011, and NetFlow v9). The sources are under src/src.

  Theories:
  \<^item> \<open>Vermont_Prelude\<close>: integer types, faults, contracts of fallible code, bytes.
  \<^item> \<open>Encoding\<close>: common/ipfixlolib/encoding.c.
  \<^item> \<open>Std_Map\<close>, \<open>Ipfix_Record\<close>, \<open>Template_Buffer\<close>, \<open>Ipfix_Parser\<close>,
    \<open>Parser_Safety\<close>, \<open>Parser_Messages\<close>: the collector's parser.
\<close>

end
